theory Spec2Isabelle
  imports Main "HOL-Library.Multiset"
begin

section \<open>The date library: instants, hour arithmetic and formatting\<close>

text \<open>
  The servers build their time window with the date library \<^verbatim>\<open>moment\<close>:
  \<^verbatim>\<open>moment(REFERENCE_TIME_STR, 'YYYY-MM-DD HH:mm')\<close>, \<^verbatim>\<open>.isValid()\<close>, \<^verbatim>\<open>.clone()\<close>,
  \<^verbatim>\<open>.add(i, 'hours')\<close> and \<^verbatim>\<open>.format('YYYY-MM-DD HH:00')\<close>.  An instant is a
  validity flag and the time value of the library's \<^verbatim>\<open>Date\<close>: a count of milliseconds
  since 1970-01-01 00:00 UTC.  The library reads and writes the fields of the local
  clock, which the JavaScript engine derives from the time zone of the process; the
  range of representable dates is far beyond the four-digit years that the reference
  format can write and is not modelled.
\<close>

record moment =
  isValid :: bool
  utc_ms :: int

definition invalid_moment :: moment where
  "invalid_moment = \<lparr>isValid = False, utc_ms = 0\<rparr>"

text \<open>
  The time zone of the process, as ECMAScript has it: \<^verbatim>\<open>LocalTZA(t, isUTC)\<close> is the offset
  of the local clock from UTC in milliseconds, at the UTC time value \<open>t\<close> when \<open>isUTC\<close>
  holds and for the local time value \<open>t\<close> otherwise (for a local time that the zone
  repeats or skips, the engine takes the offset before the transition).
  \<^verbatim>\<open>LocalTime(t)\<close> reads the local clock at a UTC time value, \<^verbatim>\<open>UTC(t)\<close> gives the UTC time
  value of a local time.
\<close>

type_synonym zone = "int \<Rightarrow> bool \<Rightarrow> int"

definition LocalTime :: "zone \<Rightarrow> int \<Rightarrow> int" where
  "LocalTime LocalTZA t = t + LocalTZA t True"

definition UTC :: "zone \<Rightarrow> int \<Rightarrow> int" where
  "UTC LocalTZA t = t - LocalTZA t False"

definition ms_per_hour :: int where
  "ms_per_hour = 3600000"

definition ms_per_day :: int where
  "ms_per_day = 86400000"

text \<open>The proleptic Gregorian calendar: day number (days since 1970-01-01) to and from
  year, month (1..12) and day of the month.\<close>

definition civil_from_days :: "int \<Rightarrow> int \<times> int \<times> int" where
  "civil_from_days z0 =
     (let z = z0 + 719468;
          era = z div 146097;
          doe = z mod 146097;
          yoe = (doe - doe div 1460 + doe div 36524 - doe div 146096) div 365;
          doy = doe - (365 * yoe + yoe div 4 - yoe div 100);
          mp = (5 * doy + 2) div 153;
          d = doy - (153 * mp + 2) div 5 + 1;
          m = (if mp < 10 then mp + 3 else mp - 9);
          y = yoe + era * 400
      in (if m \<le> 2 then y + 1 else y, m, d))"

definition days_from_civil :: "int \<Rightarrow> int \<Rightarrow> int \<Rightarrow> int" where
  "days_from_civil y0 m d =
     (let y = (if m \<le> 2 then y0 - 1 else y0);
          era = y div 400;
          yoe = y mod 400;
          doy = (153 * (if m > 2 then m - 3 else m + 9) + 2) div 5 + d - 1;
          doe = yoe * 365 + yoe div 4 - yoe div 100 + doy
      in era * 146097 + doe - 719468)"

definition isLeapYear :: "int \<Rightarrow> bool" where
  "isLeapYear y = ((y mod 4 = 0 \<and> y mod 100 \<noteq> 0) \<or> y mod 400 = 0)"

definition daysInMonth :: "int \<Rightarrow> int \<Rightarrow> int" where
  "daysInMonth y m =
     (if m = 2 then (if isLeapYear y then 29 else 28)
      else if m = 4 \<or> m = 6 \<or> m = 9 \<or> m = 11 then 30 else 31)"

subsection \<open>Decimal digits\<close>

definition digit_char :: "nat \<Rightarrow> char" where
  "digit_char d = ''0123456789'' ! d"

fun decimal :: "nat \<Rightarrow> string" where
  "decimal n = (if n < 10 then [digit_char n] else decimal (n div 10) @ [digit_char (n mod 10)])"

declare decimal.simps [simp del]

text \<open>The library's \<^verbatim>\<open>zeroFill(number, targetLength)\<close>: the sign for a negative number,
  then zeros up to the target length, then the digits of the absolute value.\<close>

definition zeroFill :: "int \<Rightarrow> nat \<Rightarrow> string" where
  "zeroFill number targetLength =
     (let absNumber = decimal (nat \<bar>number\<bar>)
      in (if number \<ge> 0 then [] else ''-'')
         @ replicate (targetLength - length absNumber) (CHR ''0'') @ absNumber)"

definition digit_val :: "char \<Rightarrow> nat option" where
  "digit_val c = map_of (zip ''0123456789'' [0 ..< 10]) c"

fun number_of_digits :: "nat \<Rightarrow> string \<Rightarrow> nat option" where
  "number_of_digits acc [] = Some acc"
| "number_of_digits acc (c # cs) =
     (case digit_val c of None \<Rightarrow> None | Some d \<Rightarrow> number_of_digits (10 * acc + d) cs)"

subsection \<open>Parsing, adding hours, formatting\<close>

text \<open>
  \<^verbatim>\<open>moment(s, 'YYYY-MM-DD HH:mm')\<close> on a string of exactly the format's shape (four, two,
  two, two and two digits with the separators of the format): the fields are read, checked
  for overflow (month 1..12, day within the month, hour 0..24 with 24 only at minute 0,
  minute 0..59) and given to the library's \<^verbatim>\<open>createDate\<close>, which builds the \<^verbatim>\<open>Date\<close> of these
  fields of the local clock.  The library's forgiving mode also accepts some strings of
  other shapes; they are outside this function, which is why the handlers below take the
  parser as a parameter and the theorems about them hold for any parser.
\<close>

text \<open>The local time value of year, month (1..12), day, hour and minute: ECMAScript's
  \<^verbatim>\<open>MakeDate(MakeDay(y, m, d), MakeTime(h, mi, 0, 0))\<close>.\<close>

definition MakeDate :: "int \<Rightarrow> int \<Rightarrow> int \<Rightarrow> int \<Rightarrow> int \<Rightarrow> int" where
  "MakeDate y m d h mi = (days_from_civil y m d * 24 + h) * ms_per_hour + mi * 60000"

text \<open>
  \<^verbatim>\<open>createDate(y, m, d, h, M, s, ms)\<close>: \<^verbatim>\<open>new Date(y, m, d, h, M, s, ms)\<close>, the UTC time
  value of the local time of the fields (an hour of 24 gives the midnight that follows).
  Because the constructor takes the years 0 to 99 for 1900 to 1999, the library builds
  such a year 400 years later and then calls \<^verbatim>\<open>date.setFullYear(y)\<close>, which reads the
  local clock of that date and replaces the year.
\<close>

definition createDate :: "zone \<Rightarrow> int \<Rightarrow> int \<Rightarrow> int \<Rightarrow> int \<Rightarrow> int \<Rightarrow> int" where
  "createDate LocalTZA y m d h mi =
     (if y < 100 \<and> y \<ge> 0
      then (let date = UTC LocalTZA (MakeDate (y + 400) m d h mi);
                t = LocalTime LocalTZA date
            in (case civil_from_days (t div ms_per_day) of
                  (year, month, day) \<Rightarrow>
                     UTC LocalTZA (days_from_civil y month day * ms_per_day + t mod ms_per_day)))
      else UTC LocalTZA (MakeDate y m d h mi))"

definition createFromFields :: "zone \<Rightarrow> int \<Rightarrow> int \<Rightarrow> int \<Rightarrow> int \<Rightarrow> int \<Rightarrow> moment" where
  "createFromFields LocalTZA y m d h mi =
     (if 1 \<le> m \<and> m \<le> 12 \<and> 1 \<le> d \<and> d \<le> daysInMonth y m
         \<and> 0 \<le> h \<and> (h < 24 \<or> (h = 24 \<and> mi = 0)) \<and> 0 \<le> mi \<and> mi \<le> 59
      then \<lparr>isValid = True, utc_ms = createDate LocalTZA y m d h mi\<rparr>
      else invalid_moment)"

definition moment_parse :: "zone \<Rightarrow> string \<Rightarrow> moment" where
  "moment_parse LocalTZA s =
     (if length s = 16 \<and> s ! 4 = CHR ''-'' \<and> s ! 7 = CHR ''-''
         \<and> s ! 10 = CHR '' '' \<and> s ! 13 = CHR '':''
      then (case (number_of_digits 0 (take 4 s), number_of_digits 0 (take 2 (drop 5 s)),
                  number_of_digits 0 (take 2 (drop 8 s)), number_of_digits 0 (take 2 (drop 11 s)),
                  number_of_digits 0 (take 2 (drop 14 s))) of
              (Some y, Some m, Some d, Some h, Some mi) \<Rightarrow>
                 createFromFields LocalTZA (int y) (int m) (int d) (int h) (int mi)
            | _ \<Rightarrow> invalid_moment)
      else invalid_moment)"

definition clone :: "moment \<Rightarrow> moment" where
  "clone m = m"

text \<open>\<^verbatim>\<open>.add(i, 'hours')\<close>: the library adds whole hours to the time value of the
  \<^verbatim>\<open>Date\<close> (\<^verbatim>\<open>mom._d.setTime(mom._d.valueOf() + milliseconds)\<close>), whatever the local clock
  does in between; an invalid instant is left as it is.\<close>

definition add_hours :: "moment \<Rightarrow> int \<Rightarrow> moment" where
  "add_hours m i = (if isValid m then m\<lparr>utc_ms := utc_ms m + i * ms_per_hour\<rparr> else m)"

text \<open>The hour that the local clock shows at an instant, counted from the local midnight
  of 1970-01-01, and \<^verbatim>\<open>.format('YYYY-MM-DD HH:00')\<close>: year, month, day and hour of the
  local clock, the minutes written as the literal 00.\<close>

definition hour_index :: "zone \<Rightarrow> moment \<Rightarrow> int" where
  "hour_index LocalTZA m = LocalTime LocalTZA (utc_ms m) div ms_per_hour"

definition render_hour :: "int \<Rightarrow> string" where
  "render_hour h =
     (case civil_from_days (h div 24) of
        (y, m, d) \<Rightarrow> zeroFill y 4 @ ''-'' @ zeroFill m 2 @ ''-'' @ zeroFill d 2
                      @ '' '' @ zeroFill (h mod 24) 2 @ '':00'')"

definition format_hour :: "zone \<Rightarrow> moment \<Rightarrow> string" where
  "format_hour LocalTZA m =
     (if isValid m
      then (let t = LocalTime LocalTZA (utc_ms m)
            in (case civil_from_days (t div ms_per_day) of
                  (y, mo, d) \<Rightarrow>
                     zeroFill y 4 @ ''-'' @ zeroFill mo 2 @ ''-'' @ zeroFill d 2 @ '' ''
                     @ zeroFill ((t mod ms_per_day) div ms_per_hour) 2 @ '':00''))
      else ''Invalid date'')"

subsection \<open>The calendar year by year\<close>

text \<open>
  For the correctness of the two calendar functions: the day number, counted from the
  first of March of the year 0, on which the year beginning in March of year \<open>y\<close> starts;
  the numerator of the year estimate of \<open>civil_from_days\<close>; and the check that this
  estimate is right on the first and on the last day of a year of the 400-year cycle.
\<close>

definition year_start :: "int \<Rightarrow> int" where
  "year_start y = 365 * y + y div 4 - y div 100 + y div 400"

definition year_numerator :: "int \<Rightarrow> int" where
  "year_numerator a = a - a div 1460 + a div 36524 - a div 146096"

definition year_ends_ok :: "nat \<Rightarrow> bool" where
  "year_ends_ok n =
     (let y = int n in
        0 \<le> year_start y \<and> year_start y < year_start (y + 1)
        \<and> year_numerator (year_start y) div 365 = y
        \<and> year_numerator (year_start (y + 1) - 1) div 365 = y)"

text \<open>The first and the last hour (numbered as by \<open>hour_index\<close>) of the years 0000 to
  9999, the years that the four digits of the reference format can write.\<close>

definition hour_first :: int where
  "hour_first = days_from_civil 0 1 1 * 24"

definition hour_last :: int where
  "hour_last = days_from_civil 9999 12 31 * 24 + 23"

section \<open>The time window of the batch endpoint\<close>

text \<open>
  \<^verbatim>\<open>const allMonitorTimes = [];
  for (let i = -36; i <= 36; i++) {
      const targetTime = referenceMoment.clone().add(i, 'hours').format('YYYY-MM-DD HH:00');
      allMonitorTimes.push(targetTime);
  }\<close>
\<close>

function monitorTimes_loop :: "zone \<Rightarrow> moment \<Rightarrow> int \<Rightarrow> string list \<Rightarrow> string list" where
  "monitorTimes_loop LocalTZA referenceMoment i acc =
     (if i \<le> 36
      then monitorTimes_loop LocalTZA referenceMoment (i + 1)
             (acc @ [format_hour LocalTZA (add_hours (clone referenceMoment) i)])
      else acc)"
  by pat_completeness auto
termination
  by (relation "measure (\<lambda>(tz, r, i, acc). nat (37 - i))") auto

declare monitorTimes_loop.simps [simp del]

definition allMonitorTimes :: "zone \<Rightarrow> moment \<Rightarrow> string list" where
  "allMonitorTimes LocalTZA referenceMoment =
     monitorTimes_loop LocalTZA referenceMoment (- 36) []"

section \<open>Upstream records, the transport and the responses\<close>

text \<open>
  A record of the upstream source is a JSON object whose fields are strings; reading a
  field that the object does not have gives \<^verbatim>\<open>undefined\<close>, here \<open>None\<close>.
\<close>

type_synonym jsobject = "(string \<times> string) list"

definition get_field :: "jsobject \<Rightarrow> string \<Rightarrow> string option" where
  "get_field r name = map_of r name"

text \<open>A thrown error: its message and, for a reply of the upstream server with a status
  outside 2xx, the status and body of that reply (\<^verbatim>\<open>error.response\<close>).\<close>

datatype js_error = JsError (error_message: string) (error_response: "(nat \<times> string) option")

text \<open>
  \<^verbatim>\<open>response.data\<close> of a reply with a 2xx status: the JSON value \<^verbatim>\<open>null\<close>; a value that
  is not an object (text that is not JSON, a number, a string, an array), on which
  \<^verbatim>\<open>.records\<close> is \<^verbatim>\<open>undefined\<close>; or an object, with its \<^verbatim>\<open>records\<close> array (\<open>None\<close> when
  the field is absent or falsy).  The source documents the records as \<^verbatim>\<open>Object[]\<close>; a
  \<^verbatim>\<open>records\<close> field of another truthy type is outside the model.
\<close>

datatype response_data = NullData | NonObjectData | ObjectData "jsobject list option"

datatype axios_outcome = Resolved response_data | Rejected js_error

record request =
  url :: string
  params :: "(string \<times> string) list"

text \<open>
  What the code calls and does not define: the date library's parser, the time zone of
  the process, the HTTP client (the outcome of a call may depend on the calls made before
  it), and the JavaScript engine's \<^verbatim>\<open>new Date(string)\<close>, whose time value is \<open>None\<close>
  for \<^verbatim>\<open>NaN\<close>.
\<close>

record env =
  moment_of :: "string \<Rightarrow> moment"
  LocalTZA :: zone
  axios_get :: "request list \<Rightarrow> request \<Rightarrow> axios_outcome"
  Date_parse :: "string \<Rightarrow> int option"

text \<open>The module-level constants that come from the deployment:
  \<^verbatim>\<open>const API_KEY = process.env.API_KEY || ''\<close> and \<^verbatim>\<open>REFERENCE_TIME_STR\<close>.\<close>

record config =
  process_env_API_KEY :: "string option"
  REFERENCE_TIME_STR :: string

text \<open>The reference instants that the two batch servers are written with.\<close>

definition REFERENCE_TIME_STR_003 :: string where
  "REFERENCE_TIME_STR_003 = ''2025-11-26 17:00''"

definition REFERENCE_TIME_STR_004 :: string where
  "REFERENCE_TIME_STR_004 = ''2025-11-26 00:00''"

definition API_KEY :: "config \<Rightarrow> string" where
  "API_KEY cfg = (case process_env_API_KEY cfg of None \<Rightarrow> [] | Some k \<Rightarrow> k)"

definition BASE_URL :: string where
  "BASE_URL = ''https://data.epa.gov.tw/api/v2/aqx_p_152''"

definition SITE_NAME :: string where
  "SITE_NAME =
     [CHR 0xE8, CHR 0x87, CHR 0xBA, CHR 0xE6, CHR 0x9D, CHR 0xB1]"

definition COUNTY_NAME :: string where
  "COUNTY_NAME =
     [CHR 0xE8, CHR 0x87, CHR 0xBA, CHR 0xE6, CHR 0x9D, CHR 0xB1, CHR 0xE7, CHR 0xB8, CHR 0xA3]"

definition TypeError_null :: js_error where
  "TypeError_null =
     JsError (''Cannot read properties of null (reading '' @ [CHR 0x27] @ ''records'' @ [CHR 0x27]
     @ '')'') None"

text \<open>\<^verbatim>\<open>response.data.records || []\<close>: reading a property of \<^verbatim>\<open>null\<close> throws.\<close>

definition data_records :: "response_data \<Rightarrow> js_error + jsobject list" where
  "data_records d =
     (case d of
        NullData \<Rightarrow> Inl TypeError_null
      | NonObjectData \<Rightarrow> Inr []
      | ObjectData None \<Rightarrow> Inr []
      | ObjectData (Some rs) \<Rightarrow> Inr rs)"

text \<open>\<^verbatim>\<open>const response = await axios.get(url, { params }); ... response.data.records || []\<close>:
  the client rejects on a network error and on a status outside 2xx.\<close>

definition get_records :: "env \<Rightarrow> request list \<Rightarrow> request \<Rightarrow> js_error + jsobject list" where
  "get_records env log req =
     (case axios_get env log req of
        Rejected e \<Rightarrow> Inl e
      | Resolved d \<Rightarrow> data_records d)"

section \<open>The per-instant fetch\<close>

text \<open>
  \<^verbatim>\<open>async function fetchDataByTime(monitorDate)\<close> of the batch server: the request is
  built, the call is made inside \<^verbatim>\<open>try\<close>, and \<^verbatim>\<open>catch (error) { ...; return []; }\<close> turns every
  error into the empty list.  The result is the settled promise (\<open>Inr\<close> fulfilled, \<open>Inl\<close>
  rejected) and the log of calls made so far, with this call appended.
\<close>

definition fetch_request :: "config \<Rightarrow> string \<Rightarrow> request" where
  "fetch_request cfg monitorDate =
     \<lparr>url = BASE_URL,
      params = [(''api_key'', API_KEY cfg), (''sitename'', SITE_NAME), (''county'', COUNTY_NAME),
                (''monitordate'', monitorDate), (''limit'', ''1000''), (''format'', ''json'')]\<rparr>"

definition fetchDataByTime ::
  "env \<Rightarrow> config \<Rightarrow> request list \<Rightarrow> string \<Rightarrow> (js_error + jsobject list) \<times> request list" where
  "fetchDataByTime env cfg log monitorDate =
     (let req = fetch_request cfg monitorDate
      in (case get_records env log req of
            Inr records \<Rightarrow> Inr records
          | Inl error \<Rightarrow> Inr [],
          log @ [req]))"

definition msg_key_not_set :: string where
  "msg_key_not_set =
     ''API Key '' @ [CHR 0xE7, CHR 0x92, CHR 0xB0, CHR 0xE5, CHR 0xA2, CHR 0x83, CHR 0xE8,
     CHR 0xAE, CHR 0x8A, CHR 0xE6, CHR 0x95, CHR 0xB8, CHR 0xE6, CHR 0x9C, CHR 0xAA, CHR 0xE8,
     CHR 0xA8, CHR 0xAD, CHR 0xE7, CHR 0xBD, CHR 0xAE, CHR 0xE3, CHR 0x80, CHR 0x82]"

text \<open>The later server's \<^verbatim>\<open>fetchDataByTime\<close> starts with
  \<^verbatim>\<open>if (!API_KEY) { throw new Error(...) }\<close> and goes on with the same text.\<close>

definition fetchDataByTime_004 ::
  "env \<Rightarrow> config \<Rightarrow> request list \<Rightarrow> string \<Rightarrow> (js_error + jsobject list) \<times> request list" where
  "fetchDataByTime_004 env cfg log monitorDate =
     (if API_KEY cfg = [] then (Inl (JsError msg_key_not_set None), log)
      else fetchDataByTime env cfg log monitorDate)"

text \<open>\<^verbatim>\<open>Promise.allSettled(allMonitorTimes.map(time => fetchDataByTime(time)))\<close>: the calls
  are issued in the order of the list, every promise settles, and the results keep the
  order of the list.\<close>

fun allSettled ::
  "(request list \<Rightarrow> string \<Rightarrow> (js_error + jsobject list) \<times> request list) \<Rightarrow> request list
     \<Rightarrow> string list \<Rightarrow> (js_error + jsobject list) list \<times> request list" where
  "allSettled fetch log [] = ([], log)"
| "allSettled fetch log (t # ts) =
     (case fetch log t of
        (r, log1) \<Rightarrow> (case allSettled fetch log1 ts of (rs, log2) \<Rightarrow> (r # rs, log2)))"

section \<open>Merging and sorting\<close>

text \<open>
  \<^verbatim>\<open>results.forEach(result => {
      if (result.status === 'fulfilled' && result.value.length > 0) {
          allData = allData.concat(result.value);
          successfulRequests++;
      }
  });\<close>
\<close>

definition forEach_step ::
  "jsobject list \<times> nat \<Rightarrow> js_error + jsobject list \<Rightarrow> jsobject list \<times> nat" where
  "forEach_step acc result =
     (case acc of (allData, successfulRequests) \<Rightarrow>
        (case result of
           Inr v \<Rightarrow> if length v > 0 then (allData @ v, successfulRequests + 1)
                    else (allData, successfulRequests)
         | Inl reason \<Rightarrow> (allData, successfulRequests)))"

definition forEach_results :: "(js_error + jsobject list) list \<Rightarrow> jsobject list \<times> nat" where
  "forEach_results results = foldl forEach_step ([], 0) results"

text \<open>
  \<^verbatim>\<open>Array.prototype.sort(comparefn)\<close> is a stable sort; a comparator result of \<^verbatim>\<open>NaN\<close>
  (\<open>None\<close>) counts as 0.  With a consistent comparator every stable sort gives the same
  array, so the insertion sort below is the engine's result whenever all the dates
  compared are valid; with \<^verbatim>\<open>NaN\<close> among them the language leaves the order to the engine.
\<close>

definition SortCompare :: "('a \<Rightarrow> 'a \<Rightarrow> int option) \<Rightarrow> 'a \<Rightarrow> 'a \<Rightarrow> int" where
  "SortCompare comparefn x y = (case comparefn x y of None \<Rightarrow> 0 | Some v \<Rightarrow> v)"

fun insert_sorted :: "('a \<Rightarrow> 'a \<Rightarrow> int option) \<Rightarrow> 'a \<Rightarrow> 'a list \<Rightarrow> 'a list" where
  "insert_sorted comparefn x [] = [x]"
| "insert_sorted comparefn x (y # ys) =
     (if SortCompare comparefn x y \<le> 0 then x # y # ys
      else y # insert_sorted comparefn x ys)"

definition Array_sort :: "('a \<Rightarrow> 'a \<Rightarrow> int option) \<Rightarrow> 'a list \<Rightarrow> 'a list" where
  "Array_sort comparefn xs = foldr (insert_sorted comparefn) xs []"

text \<open>\<^verbatim>\<open>new Date(r.field)\<close> and the difference of two dates (\<^verbatim>\<open>NaN\<close> if either is).\<close>

definition Date_of :: "env \<Rightarrow> string \<Rightarrow> jsobject \<Rightarrow> int option" where
  "Date_of env name r = (case get_field r name of None \<Rightarrow> None | Some s \<Rightarrow> Date_parse env s)"

definition date_minus :: "int option \<Rightarrow> int option \<Rightarrow> int option" where
  "date_minus a b = (case (a, b) of (Some x, Some y) \<Rightarrow> Some (x - y) | _ \<Rightarrow> None)"

text \<open>\<^verbatim>\<open>(a, b) => new Date(a.monitordate) - new Date(b.monitordate)\<close>\<close>

definition by_monitordate :: "env \<Rightarrow> jsobject \<Rightarrow> jsobject \<Rightarrow> int option" where
  "by_monitordate env a b =
     date_minus (Date_of env ''monitordate'' a) (Date_of env ''monitordate'' b)"

section \<open>The batch endpoint\<close>

datatype jval =
  JUndefined | JString string | JNumber int | JArray "jsobject list" | JObject jsobject

record http_response =
  statusCode :: nat
  body :: "(string \<times> jval) list"

text \<open>What a request to an endpoint does: the response sent and the upstream calls made.\<close>

record run =
  res :: http_response
  calls :: "request list"

definition msg_config_error :: string where
  "msg_config_error =
     [CHR 0xE6, CHR 0x9C, CHR 0x8D, CHR 0xE5, CHR 0x8B, CHR 0x99, CHR 0xE9, CHR 0x85, CHR 0x8D,
     CHR 0xE7, CHR 0xBD, CHR 0xAE, CHR 0xE9, CHR 0x8C, CHR 0xAF, CHR 0xE8, CHR 0xAA, CHR 0xA4,
     CHR 0xEF, CHR 0xBC, CHR 0x9A] @ ''API Key '' @ [CHR 0xE6, CHR 0x9C, CHR 0xAA, CHR 0xE8,
     CHR 0xA8, CHR 0xAD, CHR 0xE5, CHR 0xAE, CHR 0x9A, CHR 0xE3, CHR 0x80, CHR 0x82]"

definition msg_guidance :: string where
  "msg_guidance =
     [CHR 0xE8, CHR 0xAB, CHR 0x8B, CHR 0xE5, CHR 0x9C, CHR 0xA8] @ '' Zeabur '' @ [CHR 0xE7,
     CHR 0x92, CHR 0xB0, CHR 0xE5, CHR 0xA2, CHR 0x83, CHR 0xE8, CHR 0xAE, CHR 0x8A, CHR 0xE6,
     CHR 0x95, CHR 0xB8, CHR 0xE6, CHR 0x88, CHR 0x96, CHR 0xE6, CHR 0x9C, CHR 0xAC, CHR 0xE5,
     CHR 0x9C, CHR 0xB0] @ '' .env '' @ [CHR 0xE6, CHR 0xAA, CHR 0x94, CHR 0xE6, CHR 0xA1,
     CHR 0x88, CHR 0xE4, CHR 0xB8, CHR 0xAD, CHR 0xE8, CHR 0xA8, CHR 0xAD, CHR 0xE5, CHR 0xAE,
     CHR 0x9A] @ '' KEY '' @ [CHR 0xE7, CHR 0x82, CHR 0xBA] @ '' API_KEY '' @ [CHR 0xE7,
     CHR 0x9A, CHR 0x84, CHR 0xE5, CHR 0x80, CHR 0xBC, CHR 0xE3, CHR 0x80, CHR 0x82]"

definition msg_guidance_004 :: string where
  "msg_guidance_004 =
     [CHR 0xE8, CHR 0xAB, CHR 0x8B, CHR 0xE5, CHR 0x9C, CHR 0xA8] @ '' Zeabur '' @ [CHR 0xE7,
     CHR 0x92, CHR 0xB0, CHR 0xE5, CHR 0xA2, CHR 0x83, CHR 0xE8, CHR 0xAE, CHR 0x8A, CHR 0xE6,
     CHR 0x95, CHR 0xB8, CHR 0xE4, CHR 0xB8, CHR 0xAD, CHR 0xE8, CHR 0xA8, CHR 0xAD, CHR 0xE5,
     CHR 0xAE, CHR 0x9A] @ '' KEY '' @ [CHR 0xE7, CHR 0x82, CHR 0xBA] @ '' API_KEY ''
     @ [CHR 0xE7, CHR 0x9A, CHR 0x84, CHR 0xE5, CHR 0x80, CHR 0xBC, CHR 0xE3, CHR 0x80,
     CHR 0x82]"

definition msg_reference_invalid :: string where
  "msg_reference_invalid =
     [CHR 0xE5, CHR 0x8F, CHR 0x83, CHR 0xE8, CHR 0x80, CHR 0x83, CHR 0xE6, CHR 0x99, CHR 0x82,
     CHR 0xE9, CHR 0x96, CHR 0x93, CHR 0xE6, CHR 0xA0, CHR 0xBC, CHR 0xE5, CHR 0xBC, CHR 0x8F,
     CHR 0xE7, CHR 0x84, CHR 0xA1, CHR 0xE6, CHR 0x95, CHR 0x88, CHR 0xEF, CHR 0xBC, CHR 0x8C,
     CHR 0xE8, CHR 0xAB, CHR 0x8B, CHR 0xE6, CHR 0xAA, CHR 0xA2, CHR 0xE6, CHR 0x9F, CHR 0xA5]
     @ '' REFERENCE_TIME_STR '' @ [CHR 0xE8, CHR 0xA8, CHR 0xAD, CHR 0xE5, CHR 0xAE, CHR 0x9A,
     CHR 0xE3, CHR 0x80, CHR 0x82]"

text \<open>The template of the summary, with the two counts in decimal.\<close>

definition summary_text :: "nat \<Rightarrow> nat \<Rightarrow> string" where
  "summary_text successfulRequests n =
     [CHR 0xE6, CHR 0x88, CHR 0x90, CHR 0xE5, CHR 0x8A, CHR 0x9F, CHR 0xE5, CHR 0x8F, CHR 0x96,
     CHR 0xE5, CHR 0xBE, CHR 0x97] @ '' ''
     @ decimal successfulRequests @
     '' '' @ [CHR 0xE5, CHR 0x80, CHR 0x8B, CHR 0xE5, CHR 0xB0, CHR 0x8F, CHR 0xE6, CHR 0x99,
     CHR 0x82, CHR 0xEF, CHR 0xBC, CHR 0x8C, CHR 0xE5, CHR 0x85, CHR 0xB1] @ '' ''
     @ decimal n @
     '' '' @ [CHR 0xE7, CHR 0xAD, CHR 0x86, CHR 0xE6, CHR 0xB8, CHR 0xAC, CHR 0xE9, CHR 0xA0,
     CHR 0x85, CHR 0xE7, CHR 0xB4, CHR 0x80, CHR 0xE9, CHR 0x8C, CHR 0x84, CHR 0xE3, CHR 0x80,
     CHR 0x82]"

text \<open>\<^verbatim>\<open>xs[i]\<close>: \<^verbatim>\<open>undefined\<close> outside the array.\<close>

definition js_index :: "string list \<Rightarrow> nat \<Rightarrow> jval" where
  "js_index xs i = (if i < length xs then JString (xs ! i) else JUndefined)"

text \<open>
  The handler of \<^verbatim>\<open>/taitung-air-data\<close>.  The two servers that have it differ in the
  guidance text of the first response and in the \<^verbatim>\<open>fetchDataByTime\<close> they call, which are
  the first two arguments here.
\<close>

definition taitung_air_data_handler ::
  "string \<Rightarrow> (request list \<Rightarrow> string \<Rightarrow> (js_error + jsobject list) \<times> request list)
     \<Rightarrow> env \<Rightarrow> config \<Rightarrow> run" where
  "taitung_air_data_handler guidance fetch env cfg =
     (if API_KEY cfg = []
      then \<lparr>res = \<lparr>statusCode = 500,
                   body = [(''error'', JString msg_config_error),
                           (''guidance'', JString guidance)]\<rparr>,
            calls = []\<rparr>
      else
        (let referenceMoment = moment_of env (REFERENCE_TIME_STR cfg)
         in if \<not> isValid referenceMoment
            then \<lparr>res = \<lparr>statusCode = 400,
                         body = [(''error'', JString msg_reference_invalid)]\<rparr>,
                  calls = []\<rparr>
            else
              (let times = allMonitorTimes (LocalTZA env) referenceMoment;
                   (results, log) = allSettled fetch [] times;
                   (allData, successfulRequests) = forEach_results results;
                   sorted = Array_sort (by_monitordate env) allData
               in \<lparr>res = \<lparr>statusCode = 200,
                            body = [(''status'', JString ''success''),
                                    (''time_range_start'', js_index times 0),
                                    (''time_range_end'', js_index times (length times - 1)),
                                    (''summary'',
                                       JString (summary_text successfulRequests (length sorted))),
                                    (''data'', JArray sorted)]\<rparr>,
                     calls = log\<rparr>)))"

definition taitung_air_data :: "env \<Rightarrow> config \<Rightarrow> run" where
  "taitung_air_data env cfg =
     taitung_air_data_handler msg_guidance (fetchDataByTime env cfg) env cfg"

definition taitung_air_data_004 :: "env \<Rightarrow> config \<Rightarrow> run" where
  "taitung_air_data_004 env cfg =
     taitung_air_data_handler msg_guidance_004 (fetchDataByTime_004 env cfg) env cfg"

section \<open>The single-record test endpoint\<close>

definition TEST_DATE :: string where
  "TEST_DATE = ''2025-11-26 17:00''"

definition msg_cannot_test :: string where
  "msg_cannot_test =
     ''API Key '' @ [CHR 0xE6, CHR 0x9C, CHR 0xAA, CHR 0xE8, CHR 0xA8, CHR 0xAD, CHR 0xE7,
     CHR 0xBD, CHR 0xAE, CHR 0xEF, CHR 0xBC, CHR 0x8C, CHR 0xE7, CHR 0x84, CHR 0xA1, CHR 0xE6,
     CHR 0xB3, CHR 0x95, CHR 0xE6, CHR 0xB8, CHR 0xAC, CHR 0xE8, CHR 0xA9, CHR 0xA6, CHR 0xE3,
     CHR 0x80, CHR 0x82]"

definition msg_no_pm25 :: string where
  "msg_no_pm25 =
     [CHR 0xE6, CHR 0x9C, CHR 0xAA, CHR 0xE6, CHR 0x89, CHR 0xBE, CHR 0xE5, CHR 0x88, CHR 0xB0]
     @ '' PM2.5 '' @ [CHR 0xE7, CHR 0xB4, CHR 0x80, CHR 0xE9, CHR 0x8C, CHR 0x84]"

definition msg_test_failed :: string where
  "msg_test_failed =
     [CHR 0xE5, CHR 0x96, CHR 0xAE, CHR 0xE9, CHR 0xBB, CHR 0x9E, CHR 0xE6, CHR 0xB8, CHR 0xAC,
     CHR 0xE8, CHR 0xA9, CHR 0xA6, CHR 0xE6, CHR 0x99, CHR 0x82, CHR 0xE7, CHR 0x99, CHR 0xBC,
     CHR 0xE7, CHR 0x94, CHR 0x9F, CHR 0xE9, CHR 0x8C, CHR 0xAF, CHR 0xE8, CHR 0xAA, CHR 0xA4]"

definition test_target :: string where
  "test_target =
     [CHR 0xE8, CHR 0x87, CHR 0xBA, CHR 0xE6, CHR 0x9D, CHR 0xB1, CHR 0xE6, CHR 0xB8, CHR 0xAC,
     CHR 0xE7, CHR 0xAB, CHR 0x99] @ '' @ ''
     @ TEST_DATE"

text \<open>\<^verbatim>\<open>res.json({ status: 'success', ... })\<close> of the test endpoint, the same in both servers;
  \<^verbatim>\<open>records.find(r => r.itemengname === 'PM2.5')\<close> is \<^verbatim>\<open>undefined\<close> when no record matches.\<close>

definition test_success :: "jsobject list \<Rightarrow> http_response" where
  "test_success records =
     \<lparr>statusCode = 200,
      body = [(''status'', JString ''success''),
              (''test_target'', JString test_target),
              (''total_records_found'', JNumber (int (length records))),
              (''pm25_record'',
                 (case find (\<lambda>r. get_field r ''itemengname'' = Some ''PM2.5'') records of
                    Some pm25Record \<Rightarrow> JObject pm25Record
                  | None \<Rightarrow> JString msg_no_pm25)),
              (''all_records_for_test'', JArray records)]\<rparr>"

definition test_failure :: "js_error \<Rightarrow> http_response" where
  "test_failure error =
     \<lparr>statusCode = 500,
      body = [(''status'', JString ''error''),
              (''message'', JString msg_test_failed),
              (''detail'', JString (error_message error))]\<rparr>"

text \<open>
  The first server with \<^verbatim>\<open>/test-single-record\<close> calls the HTTP client itself, inside
  \<^verbatim>\<open>try\<close>; its \<^verbatim>\<open>catch\<close> answers with status 500.
\<close>

definition test_single_record_002 :: "env \<Rightarrow> config \<Rightarrow> run" where
  "test_single_record_002 env cfg =
     (let req = \<lparr>url = BASE_URL,
                  params = [(''api_key'', API_KEY cfg), (''sitename'', SITE_NAME),
                            (''county'', COUNTY_NAME), (''monitordate'', TEST_DATE),
                            (''limit'', ''1000''), (''format'', ''json'')]\<rparr>
      in if API_KEY cfg = []
         then \<lparr>res = \<lparr>statusCode = 500, body = [(''error'', JString msg_cannot_test)]\<rparr>,
               calls = []\<rparr>
         else (case get_records env [] req of
                 Inr records \<Rightarrow> \<lparr>res = test_success records, calls = [req]\<rparr>
               | Inl error \<Rightarrow> \<lparr>res = test_failure error, calls = [req]\<rparr>))"

text \<open>
  The later server calls \<^verbatim>\<open>fetchDataByTime(TEST_DATE)\<close> inside the same \<^verbatim>\<open>try\<close>; the
  \<^verbatim>\<open>catch\<close> handles a rejection of that promise.
\<close>

definition test_single_record_004 :: "env \<Rightarrow> config \<Rightarrow> run" where
  "test_single_record_004 env cfg =
     (if API_KEY cfg = []
      then \<lparr>res = \<lparr>statusCode = 500, body = [(''error'', JString msg_cannot_test)]\<rparr>,
            calls = []\<rparr>
      else (case fetchDataByTime_004 env cfg [] TEST_DATE of
              (Inr records, log) \<Rightarrow> \<lparr>res = test_success records, calls = log\<rparr>
            | (Inl error, log) \<Rightarrow> \<lparr>res = test_failure error, calls = log\<rparr>))"

section \<open>The forecast endpoint\<close>

definition MOENV_API_BASE_URL :: string where
  "MOENV_API_BASE_URL = ''https://data.moenv.gov.tw/api/v2/''"

definition RESOURCE_CODE :: string where
  "RESOURCE_CODE = ''aqf_p_01''"

definition RESOURCE_ID :: string where
  "RESOURCE_ID = ''226e6d3c-4232-4ec5-aec8-688894aa1f67''"

definition TARGET_AREA :: string where
  "TARGET_AREA =
     [CHR 0xE8, CHR 0x8A, CHR 0xB1, CHR 0xE6, CHR 0x9D, CHR 0xB1]"

definition forecast_request :: "config \<Rightarrow> string \<Rightarrow> request" where
  "forecast_request cfg API_ENDPOINT =
     \<lparr>url = API_ENDPOINT,
      params = [(''api_key'', API_KEY cfg), (''limit'', ''1000''), (''format'', ''json'')]\<rparr>"

text \<open>\<^verbatim>\<open>(a, b) => new Date(b.publishtime) - new Date(a.publishtime)\<close>\<close>

definition by_publishtime_desc :: "env \<Rightarrow> jsobject \<Rightarrow> jsobject \<Rightarrow> int option" where
  "by_publishtime_desc env a b =
     date_minus (Date_of env ''publishtime'' b) (Date_of env ''publishtime'' a)"

text \<open>
  \<^verbatim>\<open>const huadongRecords = allRecords.filter(record => record.area === TARGET_AREA);
  huadongRecords.sort((a, b) => new Date(b.publishtime) - new Date(a.publishtime));\<close>
\<close>

definition huadongRecords :: "env \<Rightarrow> jsobject list \<Rightarrow> jsobject list" where
  "huadongRecords env allRecords =
     Array_sort (by_publishtime_desc env)
       (filter (\<lambda>record. get_field record ''area'' = Some TARGET_AREA) allRecords)"

definition msg_forecast_config :: string where
  "msg_forecast_config =
     [CHR 0xE6, CHR 0x9C, CHR 0x8D, CHR 0xE5, CHR 0x8B, CHR 0x99, CHR 0xE9, CHR 0x85, CHR 0x8D,
     CHR 0xE7, CHR 0xBD, CHR 0xAE, CHR 0xE9, CHR 0x8C, CHR 0xAF, CHR 0xE8, CHR 0xAA, CHR 0xA4,
     CHR 0xEF, CHR 0xBC, CHR 0x9A] @ ''API Key '' @ [CHR 0xE7, CHR 0x92, CHR 0xB0, CHR 0xE5,
     CHR 0xA2, CHR 0x83, CHR 0xE8, CHR 0xAE, CHR 0x8A, CHR 0xE6, CHR 0x95, CHR 0xB8, CHR 0xE6,
     CHR 0x9C, CHR 0xAA, CHR 0xE8, CHR 0xA8, CHR 0xAD, CHR 0xE5, CHR 0xAE, CHR 0x9A, CHR 0xE3,
     CHR 0x80, CHR 0x82]"

definition msg_forecast_guidance :: string where
  "msg_forecast_guidance =
     [CHR 0xE8, CHR 0xAB, CHR 0x8B, CHR 0xE5, CHR 0x9C, CHR 0xA8] @ '' Zeabur '' @ [CHR 0xE5,
     CHR 0x84, CHR 0x80, CHR 0xE8, CHR 0xA1, CHR 0xA8, CHR 0xE6, CHR 0x9D, CHR 0xBF, CHR 0xE7,
     CHR 0x9A, CHR 0x84, CHR 0xE7, CHR 0x92, CHR 0xB0, CHR 0xE5, CHR 0xA2, CHR 0x83, CHR 0xE8,
     CHR 0xAE, CHR 0x8A, CHR 0xE6, CHR 0x95, CHR 0xB8, CHR 0xE4, CHR 0xB8, CHR 0xAD, CHR 0xE8,
     CHR 0xA8, CHR 0xAD, CHR 0xE5, CHR 0xAE, CHR 0x9A] @ '' KEY '' @ [CHR 0xE7, CHR 0x82,
     CHR 0xBA] @ '' API_KEY'' @ [CHR 0xEF, CHR 0xBC, CHR 0x8C, CHR 0xE4, CHR 0xB8, CHR 0xA6,
     CHR 0xE5, CHR 0xA1, CHR 0xAB, CHR 0xE5, CHR 0x85, CHR 0xA5, CHR 0xE6, CHR 0x82, CHR 0xA8,
     CHR 0xE7, CHR 0x9A, CHR 0x84, CHR 0xE9, CHR 0x87, CHR 0x91, CHR 0xE9, CHR 0x91, CHR 0xB0,
     CHR 0xE5, CHR 0x80, CHR 0xBC, CHR 0xE3, CHR 0x80, CHR 0x82]"

definition msg_forecast_guidance_001 :: string where
  "msg_forecast_guidance_001 =
     [CHR 0xE8, CHR 0xAB, CHR 0x8B, CHR 0xE5, CHR 0x9C, CHR 0xA8] @ '' .env '' @ [CHR 0xE6,
     CHR 0xAA, CHR 0x94, CHR 0xE6, CHR 0xA1, CHR 0x88, CHR 0xE4, CHR 0xB8, CHR 0xAD, CHR 0xE8,
     CHR 0xA8, CHR 0xAD, CHR 0xE5, CHR 0xAE, CHR 0x9A] @ '' API_KEY'' @ [CHR 0xEF, CHR 0xBC,
     CHR 0x8C, CHR 0xE4, CHR 0xB8, CHR 0xA6, CHR 0xE7, CHR 0xA2, CHR 0xBA, CHR 0xE4, CHR 0xBF,
     CHR 0x9D] @ '' Zeabur '' @ [CHR 0xE7, CHR 0x92, CHR 0xB0, CHR 0xE5, CHR 0xA2, CHR 0x83,
     CHR 0xE8, CHR 0xAE, CHR 0x8A, CHR 0xE6, CHR 0x95, CHR 0xB8, CHR 0xE5, CHR 0xB7, CHR 0xB2,
     CHR 0xE8, CHR 0xA8, CHR 0xAD, CHR 0xE5, CHR 0xAE, CHR 0x9A, CHR 0xE3, CHR 0x80, CHR 0x82]"

definition msg_none_found :: string where
  "msg_none_found =
     ''API '' @ [CHR 0xE9, CHR 0x80, CHR 0xA3, CHR 0xE7, CHR 0xB7, CHR 0x9A, CHR 0xE6, CHR 0x88,
     CHR 0x90, CHR 0xE5, CHR 0x8A, CHR 0x9F, CHR 0xEF, CHR 0xBC, CHR 0x8C, CHR 0xE4, CHR 0xBD,
     CHR 0x86, CHR 0xE7, CHR 0x9B, CHR 0xAE, CHR 0xE5, CHR 0x89, CHR 0x8D, CHR 0xE6, CHR 0xB2,
     CHR 0x92, CHR 0xE6, CHR 0x9C, CHR 0x89, CHR 0xE6, CHR 0x89, CHR 0xBE, CHR 0xE5, CHR 0x88,
     CHR 0xB0, CHR 0xE7, CHR 0xAC, CHR 0xA6, CHR 0xE5, CHR 0x90, CHR 0x88, CHR 0xE3, CHR 0x80,
     CHR 0x8E, CHR 0xE8, CHR 0x8A, CHR 0xB1, CHR 0xE6, CHR 0x9D, CHR 0xB1, CHR 0xE3, CHR 0x80,
     CHR 0x8F, CHR 0xE5, CHR 0x9C, CHR 0xB0, CHR 0xE5, CHR 0x8D, CHR 0x80, CHR 0xE7, CHR 0x9A,
     CHR 0x84, CHR 0xE9, CHR 0xA0, CHR 0x90, CHR 0xE5, CHR 0xA0, CHR 0xB1, CHR 0xE7, CHR 0xB4,
     CHR 0x80, CHR 0xE9, CHR 0x8C, CHR 0x84, CHR 0xE3, CHR 0x80, CHR 0x82]"

definition msg_forecast_failed :: string where
  "msg_forecast_failed =
     [CHR 0xE5, CHR 0x91, CHR 0xBC, CHR 0xE5, CHR 0x8F, CHR 0xAB, CHR 0xE7, CHR 0x92, CHR 0xB0,
     CHR 0xE5, CHR 0xA2, CHR 0x83, CHR 0xE9, CHR 0x83, CHR 0xA8] @ '' API '' @ [CHR 0xE6,
     CHR 0x99, CHR 0x82, CHR 0xE7, CHR 0x99, CHR 0xBC, CHR 0xE7, CHR 0x94, CHR 0x9F, CHR 0xE9,
     CHR 0x80, CHR 0xA3, CHR 0xE7, CHR 0xB7, CHR 0x9A, CHR 0xE6, CHR 0x88, CHR 0x96, CHR 0xE5,
     CHR 0x85, CHR 0xA7, CHR 0xE9, CHR 0x83, CHR 0xA8, CHR 0xE9, CHR 0x8C, CHR 0xAF, CHR 0xE8,
     CHR 0xAA, CHR 0xA4, CHR 0xE3, CHR 0x80, CHR 0x82]"

definition msg_forecast_failed_004 :: string where
  "msg_forecast_failed_004 =
     [CHR 0xE5, CHR 0x91, CHR 0xBC, CHR 0xE5, CHR 0x8F, CHR 0xAB, CHR 0xE7, CHR 0x92, CHR 0xB0,
     CHR 0xE5, CHR 0xA2, CHR 0x83, CHR 0xE9, CHR 0x83, CHR 0xA8] @ '' API '' @ [CHR 0xE6,
     CHR 0x99, CHR 0x82, CHR 0xE7, CHR 0x99, CHR 0xBC, CHR 0xE7, CHR 0x94, CHR 0x9F, CHR 0xE9,
     CHR 0x8C, CHR 0xAF, CHR 0xE8, CHR 0xAA, CHR 0xA4, CHR 0xE3, CHR 0x80, CHR 0x82, CHR 0xE8,
     CHR 0xAB, CHR 0x8B, CHR 0xE6, CHR 0xAA, CHR 0xA2, CHR 0xE6, CHR 0x9F, CHR 0xA5, CHR 0xE6,
     CHR 0x82, CHR 0xA8, CHR 0xE7, CHR 0x9A, CHR 0x84] @ '' API Key '' @ [CHR 0xE6, CHR 0x98,
     CHR 0xAF, CHR 0xE5, CHR 0x90, CHR 0xA6, CHR 0xE6, CHR 0x9C, CHR 0x89, CHR 0xE6, CHR 0x95,
     CHR 0x88, CHR 0xE3, CHR 0x80, CHR 0x82]"

definition msg_no_details :: string where
  "msg_no_details =
     [CHR 0xE7, CHR 0x84, CHR 0xA1, CHR 0xE8, CHR 0xA9, CHR 0xB3, CHR 0xE7, CHR 0xB4, CHR 0xB0,
     CHR 0xE9, CHR 0x8C, CHR 0xAF, CHR 0xE8, CHR 0xAA, CHR 0xA4, CHR 0xE8, CHR 0xA8, CHR 0x8A,
     CHR 0xE6, CHR 0x81, CHR 0xAF]"

definition forecast_summary :: "nat \<Rightarrow> nat \<Rightarrow> string" where
  "forecast_summary n k =
     [CHR 0xE6, CHR 0x88, CHR 0x90, CHR 0xE5, CHR 0x8A, CHR 0x9F, CHR 0xE5, CHR 0x8F, CHR 0x96,
     CHR 0xE5, CHR 0xBE, CHR 0x97, CHR 0xE5, CHR 0x85, CHR 0xB1] @ '' ''
     @ decimal n @
     '' '' @ [CHR 0xE7, CHR 0xAD, CHR 0x86, CHR 0xE7, CHR 0xB4, CHR 0x80, CHR 0xE9, CHR 0x8C,
     CHR 0x84, CHR 0xEF, CHR 0xBC, CHR 0x8C, CHR 0xE5, CHR 0x85, CHR 0xB6, CHR 0xE4, CHR 0xB8,
     CHR 0xAD] @ '' ''
     @ decimal k @
     '' '' @ [CHR 0xE7, CHR 0xAD, CHR 0x86, CHR 0xE7, CHR 0x82, CHR 0xBA] @ '' ''
     @ TARGET_AREA @
     '' '' @ [CHR 0xE9, CHR 0xA0, CHR 0x90, CHR 0xE5, CHR 0xA0, CHR 0xB1, CHR 0xE3, CHR 0x80,
     CHR 0x82]"

definition forecast_success :: "string \<Rightarrow> nat \<Rightarrow> nat \<Rightarrow> jval \<Rightarrow> http_response" where
  "forecast_success API_ENDPOINT n k d =
     \<lparr>statusCode = 200,
      body = [(''status'', JString ''success''),
              (''source_api'', JString API_ENDPOINT),
              (''filter_area'', JString TARGET_AREA),
              (''summary'', JString (forecast_summary n k)),
              (''data'', d)]\<rparr>"

definition forecast_no_key :: "string \<Rightarrow> run" where
  "forecast_no_key guidance =
     \<lparr>res = \<lparr>statusCode = 500,
                body = [(''status'', JString ''error''),
                        (''message'', JString msg_forecast_config),
                        (''guidance'', JString guidance)]\<rparr>,
      calls = []\<rparr>"

text \<open>\<^verbatim>\<open>app.get('/huadong-air-forecast', ...)\<close> of \<^verbatim>\<open>server.js\<close>: the data field is the
  sorted records, or a text when none matched.\<close>

definition huadong_air_forecast :: "env \<Rightarrow> config \<Rightarrow> run" where
  "huadong_air_forecast env cfg =
     (if API_KEY cfg = [] then forecast_no_key msg_forecast_guidance
      else
        (let API_ENDPOINT = MOENV_API_BASE_URL @ RESOURCE_CODE;
             req = forecast_request cfg API_ENDPOINT
         in (case get_records env [] req of
               Inr allRecords \<Rightarrow>
                 (let hs = huadongRecords env allRecords
                  in \<lparr>res = forecast_success API_ENDPOINT (length allRecords) (length hs)
                               (if length hs > 0 then JArray hs else JString msg_none_found),
                        calls = [req]\<rparr>)
             | Inl error \<Rightarrow>
                 \<lparr>res = \<lparr>statusCode = 500,
                            body = [(''status'', JString ''error''),
                                    (''message'', JString msg_forecast_failed),
                                    (''detail'', JString (error_message error))]\<rparr>,
                  calls = [req]\<rparr>)))"

text \<open>The earlier server of the same endpoint addresses the resource by its id and
  always answers with the array.\<close>

definition huadong_air_forecast_004 :: "env \<Rightarrow> config \<Rightarrow> run" where
  "huadong_air_forecast_004 env cfg =
     (if API_KEY cfg = [] then forecast_no_key msg_forecast_guidance
      else
        (let API_ENDPOINT = MOENV_API_BASE_URL @ RESOURCE_ID;
             req = forecast_request cfg API_ENDPOINT
         in (case get_records env [] req of
               Inr allRecords \<Rightarrow>
                 (let hs = huadongRecords env allRecords
                  in \<lparr>res = forecast_success API_ENDPOINT (length allRecords) (length hs)
                               (JArray hs),
                        calls = [req]\<rparr>)
             | Inl error \<Rightarrow>
                 \<lparr>res = \<lparr>statusCode = 500,
                            body = [(''status'', JString ''error''),
                                    (''message'', JString msg_forecast_failed_004),
                                    (''detail'', JString (error_message error))]\<rparr>,
                  calls = [req]\<rparr>)))"

text \<open>
  \<^verbatim>\<open>getHuadongAirForecast\<close>: its \<^verbatim>\<open>catch\<close> answers with the upstream status and body
  when the error carries a reply (\<^verbatim>\<open>error.response.data || "..."\<close>), and with 500 otherwise.
\<close>

definition msg_api_error :: "nat \<Rightarrow> string" where
  "msg_api_error st =
     [CHR 0xE7, CHR 0x92, CHR 0xB0, CHR 0xE5, CHR 0xA2, CHR 0x83, CHR 0xE9, CHR 0x83, CHR 0xA8]
     @ '' API '' @ [CHR 0xE9, CHR 0x8C, CHR 0xAF, CHR 0xE8, CHR 0xAA, CHR 0xA4, CHR 0xE7,
     CHR 0xA2, CHR 0xBC] @ '' ''
     @ decimal st"

definition getHuadongAirForecast :: "env \<Rightarrow> config \<Rightarrow> run" where
  "getHuadongAirForecast env cfg =
     (if API_KEY cfg = [] then forecast_no_key msg_forecast_guidance_001
      else
        (let API_ENDPOINT = MOENV_API_BASE_URL @ RESOURCE_CODE;
             req = forecast_request cfg API_ENDPOINT
         in (case get_records env [] req of
               Inr allRecords \<Rightarrow>
                 (let hs = huadongRecords env allRecords
                  in \<lparr>res = forecast_success API_ENDPOINT (length allRecords) (length hs)
                               (if length hs > 0 then JArray hs else JString msg_none_found),
                        calls = [req]\<rparr>)
             | Inl error \<Rightarrow>
                 (case error_response error of
                    Some (st, d) \<Rightarrow>
                      \<lparr>res = \<lparr>statusCode = st,
                                 body = [(''status'', JString ''api_error''),
                                         (''message'', JString (msg_api_error st)),
                                         (''details'',
                                            JString (if d = [] then msg_no_details else d))]\<rparr>,
                       calls = [req]\<rparr>
                  | None \<Rightarrow>
                      \<lparr>res = \<lparr>statusCode = 500,
                                 body = [(''status'', JString ''server_error''),
                                         (''message'', JString msg_forecast_failed),
                                         (''detail'', JString (error_message error))]\<rparr>,
                       calls = [req]\<rparr>))))"

section \<open>Notions used to state the properties\<close>

text \<open>The zone has one offset from UTC at the 73 instants of the window of \<open>R\<close>.\<close>

definition steady_offset :: "zone \<Rightarrow> moment \<Rightarrow> bool" where
  "steady_offset tz R =
     list_all (\<lambda>i. tz (utc_ms R + i * ms_per_hour) True = tz (utc_ms R) True) [- 36..36]"

text \<open>A field of the JSON body of the response of a run.\<close>

definition body_field :: "run \<Rightarrow> string \<Rightarrow> jval option" where
  "body_field r name = map_of (body (res r)) name"

text \<open>The records that a settled fetch contributes, and whether it settled successfully
  with a non-empty record list.\<close>

definition delivered :: "js_error + jsobject list \<Rightarrow> jsobject list" where
  "delivered result = (case result of Inr v \<Rightarrow> v | Inl reason \<Rightarrow> [])"

definition successful :: "js_error + jsobject list \<Rightarrow> bool" where
  "successful result = (case result of Inr v \<Rightarrow> v \<noteq> [] | Inl reason \<Rightarrow> False)"

text \<open>The settled results of the fetches of the batch endpoint of the first server, in
  the order of the time window.\<close>

definition batch_results :: "env \<Rightarrow> config \<Rightarrow> (js_error + jsobject list) list" where
  "batch_results env cfg =
     fst (allSettled (fetchDataByTime env cfg) []
            (allMonitorTimes (LocalTZA env) (moment_of env (REFERENCE_TIME_STR cfg))))"

text \<open>What the batch endpoint makes of a list of settled results.\<close>

definition merged_sorted :: "env \<Rightarrow> (js_error + jsobject list) list \<Rightarrow> jsobject list" where
  "merged_sorted env results =
     Array_sort (by_monitordate env) (fst (forEach_results results))"

text \<open>A failure of a call of the HTTP client as the fetch sees it: the client rejects
  (network error, status outside 2xx), or the body is not an object with records.\<close>

definition failed_outcome :: "axios_outcome \<Rightarrow> bool" where
  "failed_outcome out =
     (case out of
        Rejected e \<Rightarrow> True
      | Resolved NullData \<Rightarrow> True
      | Resolved NonObjectData \<Rightarrow> True
      | Resolved (ObjectData rs) \<Rightarrow> False)"

text \<open>What \<^verbatim>\<open>fetchDataByTime\<close> makes of the outcome of its call: the records of an object
  that has them, the empty list otherwise; always a fulfilled promise.\<close>

definition fetch_result :: "axios_outcome \<Rightarrow> js_error + jsobject list" where
  "fetch_result out =
     Inr (case out of
            Resolved (ObjectData (Some rs)) \<Rightarrow> rs
          | Resolved (ObjectData None) \<Rightarrow> []
          | Resolved NullData \<Rightarrow> []
          | Resolved NonObjectData \<Rightarrow> []
          | Rejected e \<Rightarrow> [])"

section \<open>Environments and records for the examples\<close>

text \<open>
  Three time zones: UTC; Asia/Taipei, eight hours ahead of UTC; and America/New_York
  with its rules of the year 2025, five hours behind UTC and four hours behind during
  daylight saving time, from 2025-03-09 07:00 UTC (02:00 of the local clock, which then
  shows 03:00) to 2025-11-02 06:00 UTC (02:00 of the local clock, which then shows 01:00
  again).
\<close>

definition zone_UTC :: zone where
  "zone_UTC t isUTC = 0"

definition zone_Taipei :: zone where
  "zone_Taipei t isUTC = 8 * ms_per_hour"

definition zone_New_York :: zone where
  "zone_New_York t isUTC =
     (if isUTC
      then (if 1741503600000 \<le> t \<and> t < 1762063200000
            then - 4 * ms_per_hour else - 5 * ms_per_hour)
      else (if 1741489200000 \<le> t \<and> t < 1762048800000
            then - 4 * ms_per_hour else - 5 * ms_per_hour))"

text \<open>A date parser for the examples: the instant of a text of the upstream's shape
  \<^verbatim>\<open>YYYY-MM-DD HH:mm\<close>, read as local time; \<^verbatim>\<open>NaN\<close> for any other text.\<close>

definition Date_parse_local :: "zone \<Rightarrow> string \<Rightarrow> int option" where
  "Date_parse_local tz s =
     (if isValid (moment_parse tz s) then Some (utc_ms (moment_parse tz s)) else None)"

text \<open>A process in a given time zone with an upstream whose answer depends on how many
  calls came before; and such a process in UTC.\<close>

definition env_in :: "zone \<Rightarrow> (nat \<Rightarrow> axios_outcome) \<Rightarrow> env" where
  "env_in tz f =
     \<lparr>moment_of = moment_parse tz, LocalTZA = tz, axios_get = (\<lambda>log req. f (length log)),
      Date_parse = Date_parse_local tz\<rparr>"

definition env_of :: "(nat \<Rightarrow> axios_outcome) \<Rightarrow> env" where
  "env_of f = env_in zone_UTC f"

definition network_error :: js_error where
  "network_error = JsError ''connect ECONNREFUSED'' None"

definition rec_pm25 :: jsobject where
  "rec_pm25 = [(''itemengname'', ''PM2.5''), (''monitordate'', ''2025-11-26 17:00''),
               (''concentration'', ''12'')]"

definition rec_o3 :: jsobject where
  "rec_o3 = [(''itemengname'', ''O3''), (''monitordate'', ''2025-11-26 17:00''),
             (''concentration'', ''31'')]"

definition rec_early :: jsobject where
  "rec_early = [(''itemengname'', ''PM2.5''), (''monitordate'', ''2025-11-25 05:00''),
                (''concentration'', ''9'')]"

definition upstream_down :: "nat \<Rightarrow> axios_outcome" where
  "upstream_down i = Rejected network_error"

definition upstream_a :: "nat \<Rightarrow> axios_outcome" where
  "upstream_a i =
     (if i = 0 then Resolved (ObjectData (Some [rec_pm25]))
      else if i = 1 then Resolved (ObjectData (Some [rec_o3, rec_early]))
      else if i = 2 then Resolved (ObjectData (Some []))
      else Rejected network_error)"

definition upstream_b :: "nat \<Rightarrow> axios_outcome" where
  "upstream_b i =
     (if i = 0 then Resolved (ObjectData (Some [rec_o3, rec_early]))
      else if i = 1 then Resolved (ObjectData (Some [rec_pm25]))
      else if i = 2 then Resolved (ObjectData (Some []))
      else Rejected network_error)"

definition cfg_17 :: config where
  "cfg_17 =
     \<lparr>process_env_API_KEY = Some ''test-key'', REFERENCE_TIME_STR = REFERENCE_TIME_STR_003\<rparr>"

definition cfg_00 :: config where
  "cfg_00 =
     \<lparr>process_env_API_KEY = Some ''test-key'', REFERENCE_TIME_STR = REFERENCE_TIME_STR_004\<rparr>"

definition cfg_no_key :: config where
  "cfg_no_key = \<lparr>process_env_API_KEY = None, REFERENCE_TIME_STR = REFERENCE_TIME_STR_003\<rparr>"

definition cfg_bad_reference :: config where
  "cfg_bad_reference =
     \<lparr>process_env_API_KEY = Some ''test-key'', REFERENCE_TIME_STR = ''2025-13-26 17:00''\<rparr>"

definition forecast_new :: jsobject where
  "forecast_new = [(''area'', TARGET_AREA), (''publishtime'', ''2025-11-26 16:30''), (''aqi'', ''41'')]"

definition forecast_old :: jsobject where
  "forecast_old = [(''area'', TARGET_AREA), (''publishtime'', ''2025-11-26 10:30''), (''aqi'', ''38'')]"

definition forecast_elsewhere :: jsobject where
  "forecast_elsewhere = [(''area'', ''north''), (''publishtime'', ''2025-11-26 22:30''), (''aqi'', ''77'')]"

definition upstream_forecast :: "nat \<Rightarrow> axios_outcome" where
  "upstream_forecast i =
     Resolved (ObjectData (Some [forecast_old, forecast_elsewhere, forecast_new]))"

text \<open>A record of the target area whose time of publication is the empty text, and an
  upstream that has it between the two dated records.\<close>

definition forecast_undated :: jsobject where
  "forecast_undated = [(''area'', TARGET_AREA), (''publishtime'', []), (''aqi'', ''40'')]"

definition upstream_undated :: "nat \<Rightarrow> axios_outcome" where
  "upstream_undated i =
     Resolved (ObjectData (Some [forecast_old, forecast_undated, forecast_new]))"

section \<open>The calendar and the digits: correctness\<close>

subsection \<open>The year of a day\<close>

lemma year_numerator_mono_step:
  assumes "0 \<le> a"
  shows "year_numerator a \<le> year_numerator (a + 1)"
proof -
  have e: "x div 146096 = (x div 36524) div 4" for x :: int
    by (simp add: zdiv_zmult2_eq [symmetric])
  have c: "a div 36524 \<le> (a + 1) div 36524" "(a + 1) div 36524 \<le> a div 36524 + 1"
    by (simp_all add: zdiv_mono1)
  have q: "(a + 1) div 1460 \<le> a div 1460 + 1"
    by linarith
  have "(a + 1) div 36524 div 4 - a div 36524 div 4 \<le> (a + 1) div 36524 - a div 36524"
    using c by linarith
  then show ?thesis
    using q by (simp add: year_numerator_def e)
qed

lemma year_numerator_mono:
  assumes "0 \<le> a" and "a \<le> b"
  shows "year_numerator a \<le> year_numerator b"
proof -
  have "year_numerator a \<le> year_numerator (a + int n)" for n
  proof (induction n)
    case 0
    then show ?case by simp
  next
    case (Suc n)
    have "year_numerator (a + int n) \<le> year_numerator (a + int n + 1)"
      using assms(1) by (intro year_numerator_mono_step) simp
    with Suc show ?case
      by (simp add: algebra_simps)
  qed
  from this [of "nat (b - a)"] assms(2) show ?thesis
    by simp
qed

lemma all_year_ends_ok: "list_all year_ends_ok [0 ..< 400]"
  by code_simp

lemma first_failure:
  fixes P :: "nat \<Rightarrow> bool"
  assumes "P 0" and "\<not> P n"
  shows "\<exists>k<n. P k \<and> \<not> P (Suc k)"
  using assms
proof (induction n)
  case 0
  then show ?case by simp
next
  case (Suc n)
  show ?case
  proof (cases "P n")
    case True
    with Suc.prems show ?thesis by blast
  next
    case False
    with Suc show ?thesis
      using less_Suc_eq by blast
  qed
qed

lemma year_of_day:
  assumes "0 \<le> a" and "a < 146097"
  shows "\<exists>n<400. year_start (int n) \<le> a \<and> a < year_start (int n + 1)"
proof -
  have "year_start (int 0) \<le> a"
    using assms(1) by (simp add: year_start_def)
  moreover have "\<not> year_start (int 400) \<le> a"
    using assms(2) by (simp add: year_start_def)
  ultimately obtain k where "k < 400" and "year_start (int k) \<le> a" and "\<not> year_start (int (Suc k)) \<le> a"
    using first_failure [of "\<lambda>n. year_start (int n) \<le> a" 400] by blast
  then show ?thesis
    by (auto simp: add.commute)
qed

lemma year_numerator_div:
  assumes "n < 400" and "year_start (int n) \<le> a" and "a < year_start (int n + 1)"
  shows "year_numerator a div 365 = int n"
proof -
  have "year_ends_ok n"
    using all_year_ends_ok assms(1) by (simp add: list_all_iff)
  then have s: "0 \<le> year_start (int n)"
    and lo: "year_numerator (year_start (int n)) div 365 = int n"
    and hi: "year_numerator (year_start (int n + 1) - 1) div 365 = int n"
    by (simp_all add: year_ends_ok_def Let_def)
  have "year_numerator (year_start (int n)) \<le> year_numerator a"
    using s assms(2) by (rule year_numerator_mono)
  then have "year_numerator (year_start (int n)) div 365 \<le> year_numerator a div 365"
    by (rule zdiv_mono1) simp
  moreover have "year_numerator a \<le> year_numerator (year_start (int n + 1) - 1)"
    using s assms(2,3) by (intro year_numerator_mono) simp_all
  then have "year_numerator a div 365 \<le> year_numerator (year_start (int n + 1) - 1) div 365"
    by (rule zdiv_mono1) simp
  ultimately show ?thesis
    using lo hi by simp
qed

lemma div_succ:
  fixes y n :: int
  assumes "1 < n"
  shows "(y + 1) div n - y div n = (if (y + 1) mod n = 0 then 1 else 0)"
proof -
  have r: "0 \<le> y mod n" "y mod n < n"
    using assms by simp_all
  have "(y + 1) div n = y div n + 1 div n + (y mod n + 1 mod n) div n"
    by (rule div_add1_eq)
  then have d: "(y + 1) div n = y div n + (y mod n + 1) div n"
    using assms by simp
  have m: "(y + 1) mod n = (y mod n + 1) mod n"
    by (simp add: mod_add_left_eq)
  show ?thesis
  proof (cases "y mod n + 1 = n")
    case True
    then show ?thesis
      using assms by (simp add: d m)
  next
    case False
    with r have "y mod n + 1 < n" by simp
    with r have "(y mod n + 1) div n = 0" "(y mod n + 1) mod n = y mod n + 1"
      by simp_all
    with r show ?thesis
      by (simp add: d m)
  qed
qed

lemma mod_of_multiple:
  fixes y z w :: int
  assumes "z dvd w" and "y mod w = 0"
  shows "y mod z = 0"
  using assms by (meson dvd_trans mod_0_imp_dvd dvd_imp_mod_0)

lemma year_length:
  "year_start (y + 1) - year_start y = (if isLeapYear (y + 1) then 366 else 365)"
proof -
  have d: "(y + 1) mod 400 = 0 \<Longrightarrow> (y + 1) mod 100 = 0"
    "(y + 1) mod 100 = 0 \<Longrightarrow> (y + 1) mod 4 = 0"
    by (rule mod_of_multiple [of 100 400], simp_all)
       (rule mod_of_multiple [of 4 100], simp_all)
  have "year_start (y + 1) - year_start y =
          365 + ((y + 1) div 4 - y div 4) - ((y + 1) div 100 - y div 100)
            + ((y + 1) div 400 - y div 400)"
    by (simp add: year_start_def)
  also have "\<dots> = (if isLeapYear (y + 1) then 366 else 365)"
    using d by (simp only: div_succ [of 4 y] div_succ [of 100 y] div_succ [of 400 y])
      (auto simp: isLeapYear_def)
  finally show ?thesis .
qed

lemma isLeapYear_era: "isLeapYear (y + era * 400) = isLeapYear y"
proof -
  have "(y + era * 400) mod 100 = (y + (era * 4) * 100) mod 100"
    by (simp add: mult.assoc)
  also have "\<dots> = y mod 100"
    by (rule mod_mult_self1)
  finally have a: "(y + era * 400) mod 100 = y mod 100" .
  have "(y + era * 400) mod 4 = (y + (era * 100) * 4) mod 4"
    by (simp add: mult.assoc)
  also have "\<dots> = y mod 4"
    by (rule mod_mult_self1)
  finally have b: "(y + era * 400) mod 4 = y mod 4" .
  have c: "(y + era * 400) mod 400 = y mod 400"
    by (rule mod_mult_self1)
  show ?thesis
    by (simp only: isLeapYear_def a b c)
qed

subsection \<open>Month and day\<close>

lemma month_day:
  fixes doy Y :: int
  assumes "0 \<le> doy" and "doy \<le> 365"
  defines "mp \<equiv> (5 * doy + 2) div 153"
  defines "d \<equiv> doy - (153 * mp + 2) div 5 + 1"
  defines "m \<equiv> (if mp < 10 then mp + 3 else mp - 9)"
  shows "1 \<le> m \<and> m \<le> 12 \<and> 1 \<le> d \<and> d \<le> 31
       \<and> (if m > 2 then m - 3 else m + 9) = mp
       \<and> (m \<noteq> 2 \<longrightarrow> d \<le> daysInMonth Y m)
       \<and> (m = 2 \<longrightarrow> d = doy - 336)
       \<and> (m \<le> 2 \<longleftrightarrow> 306 \<le> doy)"
proof -
  define r where "r = (5 * doy + 2) mod 153"
  have dm: "5 * doy + 2 = 153 * mp + r" and r: "0 \<le> r" "r < 153"
    by (simp_all add: mp_def r_def)
  have "0 \<le> mp" "mp \<le> 11"
    using dm r assms(1,2) by linarith+
  then have "mp = 0 \<or> mp = 1 \<or> mp = 2 \<or> mp = 3 \<or> mp = 4 \<or> mp = 5 \<or> mp = 6 \<or> mp = 7
      \<or> mp = 8 \<or> mp = 9 \<or> mp = 10 \<or> mp = 11"
    by arith
  then show ?thesis
    unfolding d_def m_def using dm r
    by (elim disjE; auto simp: daysInMonth_def)
qed

lemma year_start_era: "year_start (y + era * 400) = year_start y + era * 146097"
proof -
  have "(y + era * 400) div 4 = y div 4 + era * 100"
    using div_mult_self1 [of 4 y "era * 100"] by (simp add: mult.assoc)
  moreover have "(y + era * 400) div 100 = y div 100 + era * 4"
    using div_mult_self1 [of 100 y "era * 4"] by (simp add: mult.assoc)
  moreover have "(y + era * 400) div 400 = y div 400 + era"
    using div_mult_self1 [of 400 y era] by simp
  ultimately show ?thesis
    by (simp add: year_start_def algebra_simps)
qed

lemma year_start_mono:
  assumes "a \<le> b"
  shows "year_start a \<le> year_start b"
proof -
  have "year_start a \<le> year_start (a + int n)" for n
  proof (induction n)
    case 0
    then show ?case by simp
  next
    case (Suc n)
    have "year_start (a + int n) \<le> year_start (a + int n + 1)"
      using year_length [of "a + int n"] by (simp split: if_splits)
    with Suc show ?case
      by (simp add: algebra_simps)
  qed
  from this [of "nat (b - a)"] assms show ?thesis
    by simp
qed

lemma civil_from_days_correct:
  "case civil_from_days z of
     (y, m, d) \<Rightarrow> 1 \<le> m \<and> m \<le> 12 \<and> 1 \<le> d \<and> d \<le> daysInMonth y m
                  \<and> days_from_civil y m d = z
                  \<and> (\<exists>ys doy. z + 719468 = year_start ys + doy \<and> 0 \<le> doy
                         \<and> year_start ys + doy < year_start (ys + 1)
                         \<and> y = (if 306 \<le> doy then ys + 1 else ys))"
proof -
  define era where "era = (z + 719468) div 146097"
  define a where "a = (z + 719468) mod 146097"
  define yoe where "yoe = (a - a div 1460 + a div 36524 - a div 146096) div 365"
  define doy where "doy = a - (365 * yoe + yoe div 4 - yoe div 100)"
  define mp where "mp = (5 * doy + 2) div 153"
  define d where "d = doy - (153 * mp + 2) div 5 + 1"
  define m where "m = (if mp < 10 then mp + 3 else mp - 9)"
  define y where "y = (if m \<le> 2 then yoe + era * 400 + 1 else yoe + era * 400)"
  have cfd: "civil_from_days z = (y, m, d)"
    unfolding civil_from_days_def Let_def y_def m_def d_def mp_def doy_def yoe_def a_def era_def
    by (rule refl)
  have za: "z + 719468 = era * 146097 + a" and a: "0 \<le> a" "a < 146097"
    by (simp_all add: era_def a_def)
  from year_of_day [OF a] obtain n where n: "n < 400"
    and lo: "year_start (int n) \<le> a" and hi: "a < year_start (int n + 1)"
    by blast
  have yoe_n: "yoe = int n"
    using year_numerator_div [OF n lo hi] by (simp add: year_numerator_def yoe_def)
  have yoe: "0 \<le> yoe" "yoe < 400"
    using n by (simp_all add: yoe_n)
  have ys: "year_start yoe = 365 * yoe + yoe div 4 - yoe div 100"
    using yoe by (simp add: year_start_def)
  have lo': "365 * yoe + yoe div 4 - yoe div 100 \<le> a"
    using lo unfolding yoe_n [symmetric] ys .
  have hi': "a < year_start (yoe + 1)"
    using hi by (simp add: yoe_n)
  have doy0: "0 \<le> doy"
    using lo' by (simp add: doy_def)
  have "year_start (yoe + 1) - year_start yoe = (if isLeapYear (yoe + 1) then 366 else 365)"
    by (rule year_length)
  then have "year_start (yoe + 1) = 365 * yoe + yoe div 4 - yoe div 100
          + (if isLeapYear (yoe + 1) then 366 else 365)"
    unfolding ys by simp
  with hi' have len: "doy < (if isLeapYear (yoe + 1) then 366 else 365)"
    by (simp add: doy_def)
  then have doy365: "doy \<le> 365"
    by (simp split: if_splits)
  have md: "1 \<le> m \<and> m \<le> 12 \<and> 1 \<le> d \<and> d \<le> 31
       \<and> (if m > 2 then m - 3 else m + 9) = mp
       \<and> (m \<noteq> 2 \<longrightarrow> d \<le> daysInMonth y m)
       \<and> (m = 2 \<longrightarrow> d = doy - 336)
       \<and> (m \<le> 2 \<longleftrightarrow> 306 \<le> doy)"
    unfolding m_def d_def mp_def by (rule month_day [OF doy0 doy365])
  have dim: "d \<le> daysInMonth y m"
  proof (cases "m = 2")
    case False
    with md show ?thesis by blast
  next
    case True
    then have "y = (yoe + 1) + era * 400"
      by (simp add: y_def)
    then have "isLeapYear y = isLeapYear (yoe + 1)"
      by (simp only: isLeapYear_era)
    moreover have "d = doy - 336"
      using md True by blast
    ultimately show ?thesis
      using True len by (simp add: daysInMonth_def split: if_splits)
  qed
  have y0: "(if m \<le> 2 then y - 1 else y) = yoe + era * 400"
    by (simp add: y_def)
  have e1: "(yoe + era * 400) div 400 = era" and e2: "(yoe + era * 400) mod 400 = yoe"
    using yoe by simp_all
  have mp': "(if m > 2 then m - 3 else m + 9) = mp"
    using md by blast
  have "days_from_civil y m d =
          (yoe + era * 400) div 400 * 146097
          + ((yoe + era * 400) mod 400 * 365 + (yoe + era * 400) mod 400 div 4
               - (yoe + era * 400) mod 400 div 100
             + ((153 * (if m > 2 then m - 3 else m + 9) + 2) div 5 + d - 1)) - 719468"
    unfolding days_from_civil_def Let_def y0 by (rule refl)
  also have "\<dots> = era * 146097 + (yoe * 365 + yoe div 4 - yoe div 100
            + ((153 * mp + 2) div 5 + d - 1)) - 719468"
    unfolding e1 e2 mp' by (rule refl)
  also have "\<dots> = era * 146097 + a - 719468"
    by (simp add: d_def doy_def)
  also have "\<dots> = z"
    using za by simp
  finally have inverse_days: "days_from_civil y m d = z" .
  have "year_start (yoe + era * 400) = year_start yoe + era * 146097"
    and "year_start (yoe + 1 + era * 400) = year_start (yoe + 1) + era * 146097"
    by (rule year_start_era)+
  then have "z + 719468 = year_start (yoe + era * 400) + doy"
    and "year_start (yoe + era * 400) + doy < year_start (yoe + era * 400 + 1)"
    using za hi' by (simp_all add: ys doy_def algebra_simps)
  moreover have "y = (if 306 \<le> doy then yoe + era * 400 + 1 else yoe + era * 400)"
    using md by (simp add: y_def)
  ultimately have "\<exists>ys doy. z + 719468 = year_start ys + doy \<and> 0 \<le> doy
       \<and> year_start ys + doy < year_start (ys + 1)
       \<and> y = (if 306 \<le> doy then ys + 1 else ys)"
    using doy0 by blast
  then show ?thesis
    using md dim inverse_days by (simp add: cfd)
qed

lemma civil_year_in_range:
  assumes "days_from_civil 0 1 1 \<le> z" and "z \<le> days_from_civil 9999 12 31"
  shows "0 \<le> fst (civil_from_days z) \<and> fst (civil_from_days z) < 10000"
proof -
  obtain y m d where c: "civil_from_days z = (y, m, d)"
    by (cases "civil_from_days z")
  from civil_from_days_correct [of z] c obtain ys doy
    where z: "z + 719468 = year_start ys + doy" and doy: "0 \<le> doy"
      and nxt: "year_start ys + doy < year_start (ys + 1)"
      and y: "y = (if 306 \<le> doy then ys + 1 else ys)"
    by auto
  have lo: "days_from_civil 0 1 1 + 719468 = year_start (- 1) + 306"
    and hi: "days_from_civil 9999 12 31 + 719468 = year_start 9999 + 305"
    by (simp_all add: days_from_civil_def year_start_def)
  have "0 \<le> y"
  proof (rule ccontr)
    assume "\<not> 0 \<le> y"
    with y have "ys \<le> - 2 \<or> (ys = - 1 \<and> doy < 306)"
      by (auto split: if_splits)
    then show False
    proof
      assume "ys \<le> - 2"
      then have "year_start (ys + 1) \<le> year_start (- 1)"
        by (intro year_start_mono) simp
      with nxt doy z lo assms(1) show False
        by linarith
    next
      assume "ys = - 1 \<and> doy < 306"
      with z lo assms(1) show False
        by simp
    qed
  qed
  moreover have "y < 10000"
  proof (rule ccontr)
    assume "\<not> y < 10000"
    with y have "10000 \<le> ys \<or> (ys = 9999 \<and> 306 \<le> doy)"
      by (auto split: if_splits)
    then show False
    proof
      assume "10000 \<le> ys"
      then have "year_start 10000 \<le> year_start ys"
        by (rule year_start_mono)
      moreover have "year_start 10000 = year_start 9999 + 366"
        by (simp add: year_start_def)
      ultimately show False
        using doy z hi assms(2) by linarith
    next
      assume "ys = 9999 \<and> 306 \<le> doy"
      with z hi assms(2) show False
        by simp
    qed
  qed
  ultimately show ?thesis
    by (simp add: c)
qed

subsection \<open>Digits written and read back\<close>

lemma digit_val_digit_char: "d < 10 \<Longrightarrow> digit_val (digit_char d) = Some d"
proof -
  assume "d < 10"
  then have "d = 0 \<or> d = 1 \<or> d = 2 \<or> d = 3 \<or> d = 4 \<or> d = 5 \<or> d = 6 \<or> d = 7 \<or> d = 8 \<or> d = 9"
    by arith
  then show ?thesis
    by (elim disjE) (simp_all add: digit_val_def digit_char_def upt_conv_Cons)
qed

lemma replicate_small: "replicate 2 c = [c, c]" "replicate 3 c = [c, c, c]"
  by (simp_all add: numeral_2_eq_2 numeral_3_eq_3)

lemma decimal_two:
  assumes "n < 100"
  shows "replicate (2 - length (decimal n)) (CHR ''0'') @ decimal n
           = [digit_char (n div 10), digit_char (n mod 10)]"
proof (cases "n < 10")
  case True
  then show ?thesis
    by (simp add: decimal.simps [of n] digit_char_def)
next
  case False
  with assms have "n div 10 < 10"
    by simp
  with False show ?thesis
    by (simp add: decimal.simps [of n] decimal.simps [of "n div 10"])
qed

lemma decimal_four:
  assumes "n < 10000"
  shows "replicate (4 - length (decimal n)) (CHR ''0'') @ decimal n
           = [digit_char (n div 1000), digit_char (n div 100 mod 10),
              digit_char (n div 10 mod 10), digit_char (n mod 10)]"
proof -
  consider "n < 10" | "10 \<le> n" "n < 100" | "100 \<le> n" "n < 1000" | "1000 \<le> n"
    by linarith
  then show ?thesis
  proof cases
    case 1
    then show ?thesis
      by (simp add: decimal.simps [of n] digit_char_def replicate_small)
  next
    case 2
    then have "n div 10 < 10" "n div 100 = 0" "n div 1000 = 0"
      by simp_all
    with 2 show ?thesis
      by (simp add: decimal.simps [of n] decimal.simps [of "n div 10"] digit_char_def
          replicate_small)
  next
    case 3
    then have "\<not> n div 10 < 10" "n div 10 div 10 < 10" "n div 1000 = 0" "n div 10 div 10 = n div 100"
      by (simp_all add: div_mult2_eq [symmetric])
    with 3 show ?thesis
      by (simp add: decimal.simps [of n] decimal.simps [of "n div 10"]
          decimal.simps [of "n div 100"] digit_char_def)
  next
    case 4
    with assms have "\<not> n div 10 < 10" "\<not> n div 100 < 10" "n div 1000 < 10"
      "n div 10 div 10 = n div 100" "n div 100 div 10 = n div 1000"
      by (simp_all add: div_mult2_eq [symmetric])
    with 4 show ?thesis
      by (simp add: decimal.simps [of n] decimal.simps [of "n div 10"]
          decimal.simps [of "n div 100"] decimal.simps [of "n div 1000"])
  qed
qed

lemma zeroFill_two:
  assumes "0 \<le> x" and "x < 100"
  shows "zeroFill x 2 = [digit_char (nat x div 10), digit_char (nat x mod 10)]"
  using assms decimal_two [of "nat x"] by (simp add: zeroFill_def Let_def)

lemma zeroFill_four:
  assumes "0 \<le> x" and "x < 10000"
  shows "zeroFill x 4 = [digit_char (nat x div 1000), digit_char (nat x div 100 mod 10),
              digit_char (nat x div 10 mod 10), digit_char (nat x mod 10)]"
  using assms decimal_four [of "nat x"] by (simp add: zeroFill_def Let_def)

lemma number_of_two:
  assumes "n < 100"
  shows "number_of_digits 0 [digit_char (n div 10), digit_char (n mod 10)] = Some n"
proof -
  have "n div 10 < 10" "n mod 10 < 10"
    using assms by simp_all
  then show ?thesis
    by (simp add: digit_val_digit_char)
qed

lemma number_of_four:
  assumes "n < 10000"
  shows "number_of_digits 0 [digit_char (n div 1000), digit_char (n div 100 mod 10),
              digit_char (n div 10 mod 10), digit_char (n mod 10)] = Some n"
proof -
  have "n div 1000 < 10" "n div 100 mod 10 < 10" "n div 10 mod 10 < 10" "n mod 10 < 10"
    using assms by simp_all
  moreover have "10 * (10 * (10 * (n div 1000) + n div 100 mod 10) + n div 10 mod 10) + n mod 10 = n"
  proof -
    define a b c d e f where "a = n div 1000" and "b = n div 100 mod 10" and "c = n div 10 mod 10"
      and "d = n mod 10" and "e = n div 100" and "f = n div 10"
    have "e = 10 * a + b"
      using div_mult_mod_eq [of "n div 100" 10]
      by (simp add: a_def b_def e_def div_mult2_eq [symmetric])
    moreover have "f = 10 * e + c"
      using div_mult_mod_eq [of "n div 10" 10]
      by (simp add: c_def e_def f_def div_mult2_eq [symmetric])
    moreover have "n = 10 * f + d"
      by (simp add: d_def f_def)
    ultimately have "10 * (10 * (10 * a + b) + c) + d = n"
      by simp
    then show ?thesis
      by (simp only: a_def b_def c_def d_def)
  qed
  ultimately show ?thesis
    by (simp add: digit_val_digit_char)
qed

lemma number_of_digits_append:
  "number_of_digits acc (xs @ ys)
     = (case number_of_digits acc xs of None \<Rightarrow> None | Some a \<Rightarrow> number_of_digits a ys)"
  by (induction xs arbitrary: acc) (simp_all split: option.splits)

lemma number_of_decimal: "number_of_digits 0 (decimal n) = Some n"
proof (induction n rule: decimal.induct)
  case (1 n)
  show ?case
  proof (cases "n < 10")
    case True
    then show ?thesis
      by (simp add: decimal.simps [of n] digit_val_digit_char)
  next
    case False
    moreover have "n mod 10 < 10"
      by simp
    ultimately show ?thesis
      using "1" by (simp add: decimal.simps [of n] number_of_digits_append digit_val_digit_char)
  qed
qed

lemma number_of_zeros:
  "number_of_digits 0 (replicate k (CHR ''0'') @ xs) = number_of_digits 0 xs"
  by (induction k) (simp_all add: digit_val_def upt_conv_Cons)

lemma number_of_zeroFill:
  "number_of_digits 0 (zeroFill x n) = (if 0 \<le> x then Some (nat x) else None)"
  "x < 0 \<Longrightarrow> number_of_digits 0 (tl (zeroFill x n)) = Some (nat (- x))"
  by (simp_all add: zeroFill_def Let_def number_of_zeros number_of_decimal digit_val_def
      upt_conv_Cons)

lemma zeroFill_inj:
  assumes "zeroFill x n = zeroFill y n"
  shows "x = y"
proof (cases "0 \<le> x")
  case True
  with assms number_of_zeroFill(1) [of x n] number_of_zeroFill(1) [of y n] show ?thesis
    by (simp split: if_splits)
next
  case False
  with assms number_of_zeroFill(1) [of x n] number_of_zeroFill(1) [of y n] have "y < 0"
    by (simp split: if_splits)
  with False assms number_of_zeroFill(2) [of x n] number_of_zeroFill(2) [of y n] show ?thesis
    by simp
qed

lemma daysInMonth_le_31: "daysInMonth y m \<le> 31"
  by (simp add: daysInMonth_def)

text \<open>The text of an hour determines the hour.\<close>

lemma render_hour_inj:
  assumes "render_hour h = render_hour h'"
  shows "h = h'"
proof -
  obtain y m d where c: "civil_from_days (h div 24) = (y, m, d)"
    by (cases "civil_from_days (h div 24)")
  obtain y' m' d' where c': "civil_from_days (h' div 24) = (y', m', d')"
    by (cases "civil_from_days (h' div 24)")
  from civil_from_days_correct [of "h div 24"] c
  have m: "1 \<le> m" "m \<le> 12" and d: "1 \<le> d" "d \<le> daysInMonth y m"
    and inv: "days_from_civil y m d = h div 24"
    by simp_all
  from civil_from_days_correct [of "h' div 24"] c'
  have m': "1 \<le> m'" "m' \<le> 12" and d': "1 \<le> d'" "d' \<le> daysInMonth y' m'"
    and inv': "days_from_civil y' m' d' = h' div 24"
    by simp_all
  have d31: "d < 100" "d' < 100"
    using d(2) d'(2) daysInMonth_le_31 [of y m] daysInMonth_le_31 [of y' m'] by linarith+
  define t where "t = ''-'' @ zeroFill m 2 @ ''-'' @ zeroFill d 2 @ '' ''
                        @ zeroFill (h mod 24) 2 @ '':00''"
  define t' where "t' = ''-'' @ zeroFill m' 2 @ ''-'' @ zeroFill d' 2 @ '' ''
                        @ zeroFill (h' mod 24) 2 @ '':00''"
  have l2: "length (zeroFill m 2) = 2" "length (zeroFill d 2) = 2"
    "length (zeroFill (h mod 24) 2) = 2" "length (zeroFill m' 2) = 2"
    "length (zeroFill d' 2) = 2" "length (zeroFill (h' mod 24) 2) = 2"
    using m d m' d' d31 by (simp_all add: zeroFill_two)
  have r: "render_hour h = zeroFill y 4 @ t" "render_hour h' = zeroFill y' 4 @ t'"
    by (simp_all add: render_hour_def c c' t_def t'_def)
  have "length t = length t'"
    by (simp add: t_def t'_def l2)
  with assms r have yy: "zeroFill y 4 = zeroFill y' 4" and tt: "t = t'"
    by simp_all
  from tt have "zeroFill m 2 @ (''-'' @ zeroFill d 2 @ '' '' @ zeroFill (h mod 24) 2 @ '':00'')
                  = zeroFill m' 2 @ (''-'' @ zeroFill d' 2 @ '' '' @ zeroFill (h' mod 24) 2 @ '':00'')"
    by (simp add: t_def t'_def)
  then have mm: "zeroFill m 2 = zeroFill m' 2"
    and r1: "zeroFill d 2 @ ('' '' @ zeroFill (h mod 24) 2 @ '':00'')
               = zeroFill d' 2 @ ('' '' @ zeroFill (h' mod 24) 2 @ '':00'')"
    using l2 by simp_all
  from r1 have dd: "zeroFill d 2 = zeroFill d' 2"
    and hh: "zeroFill (h mod 24) 2 = zeroFill (h' mod 24) 2"
    using l2 by simp_all
  from yy mm dd hh have "y = y'" "m = m'" "d = d'" "h mod 24 = h' mod 24"
    by (simp_all add: zeroFill_inj)
  with inv inv' have "h div 24 = h' div 24" "h mod 24 = h' mod 24"
    by simp_all
  then show ?thesis
    by (metis div_mult_mod_eq)
qed

subsection \<open>Reading a written hour back\<close>

lemma moment_parse_chars:
  "moment_parse tz [y1, y2, y3, y4, CHR ''-'', m1, m2, CHR ''-'', d1, d2, CHR '' '', h1, h2,
                    CHR '':'', n1, n2]
     = (case (number_of_digits 0 [y1, y2, y3, y4], number_of_digits 0 [m1, m2],
              number_of_digits 0 [d1, d2], number_of_digits 0 [h1, h2],
              number_of_digits 0 [n1, n2]) of
          (Some y, Some m, Some d, Some h, Some mi) \<Rightarrow>
             createFromFields tz (int y) (int m) (int d) (int h) (int mi)
        | _ \<Rightarrow> invalid_moment)"
  by (simp add: moment_parse_def del: number_of_digits.simps)

lemma moment_parse_rendered:
  assumes "0 \<le> y" and "y < 10000" and "1 \<le> m" and "m \<le> 12"
    and "1 \<le> d" and "d \<le> daysInMonth y m" and "0 \<le> hh" and "hh < 24"
  shows "moment_parse tz (zeroFill y 4 @ ''-'' @ zeroFill m 2 @ ''-'' @ zeroFill d 2 @ '' ''
                            @ zeroFill hh 2 @ '':00'')
           = \<lparr>isValid = True, utc_ms = createDate tz y m d hh 0\<rparr>"
proof -
  have d31: "d < 100"
    using assms(6) daysInMonth_le_31 [of y m] by linarith
  have zy: "zeroFill y 4 = [digit_char (nat y div 1000), digit_char (nat y div 100 mod 10),
              digit_char (nat y div 10 mod 10), digit_char (nat y mod 10)]"
    using assms by (intro zeroFill_four) simp_all
  have zm: "zeroFill m 2 = [digit_char (nat m div 10), digit_char (nat m mod 10)]"
    using assms by (intro zeroFill_two) simp_all
  have zd: "zeroFill d 2 = [digit_char (nat d div 10), digit_char (nat d mod 10)]"
    using assms d31 by (intro zeroFill_two) simp_all
  have zh: "zeroFill hh 2 = [digit_char (nat hh div 10), digit_char (nat hh mod 10)]"
    using assms by (intro zeroFill_two) simp_all
  have ny: "number_of_digits 0 [digit_char (nat y div 1000), digit_char (nat y div 100 mod 10),
              digit_char (nat y div 10 mod 10), digit_char (nat y mod 10)] = Some (nat y)"
    using assms by (intro number_of_four) simp
  have nm: "number_of_digits 0 [digit_char (nat m div 10), digit_char (nat m mod 10)] = Some (nat m)"
    using assms by (intro number_of_two) simp
  have nd: "number_of_digits 0 [digit_char (nat d div 10), digit_char (nat d mod 10)] = Some (nat d)"
    using d31 by (intro number_of_two) simp
  have nh: "number_of_digits 0 [digit_char (nat hh div 10), digit_char (nat hh mod 10)] = Some (nat hh)"
    using assms by (intro number_of_two) simp
  have n0: "number_of_digits 0 ''00'' = Some 0"
    by (simp add: digit_val_def upt_conv_Cons)
  have "moment_parse tz (zeroFill y 4 @ ''-'' @ zeroFill m 2 @ ''-'' @ zeroFill d 2 @ '' ''
                            @ zeroFill hh 2 @ '':00'')
          = createFromFields tz (int (nat y)) (int (nat m)) (int (nat d)) (int (nat hh)) (int 0)"
    unfolding zy zm zd zh
    by (simp only: append.simps moment_parse_chars ny nm nd nh n0) simp
  also have "\<dots> = \<lparr>isValid = True, utc_ms = createDate tz y m d hh 0\<rparr>"
    using assms by (simp add: createFromFields_def)
  finally show ?thesis .
qed

text \<open>The calendar repeats after 400 years, which are 146097 days.\<close>

lemma days_from_civil_400:
  "days_from_civil (y + 400) m d = days_from_civil y m d + 146097"
proof -
  define q where "q = (if m \<le> 2 then y - 1 else y)"
  have q: "(if m \<le> 2 then y + 400 - 1 else y + 400) = q + 400"
    by (simp add: q_def)
  have e: "(q + 400) div 400 = q div 400 + 1" "(q + 400) mod 400 = q mod 400"
    by simp_all
  have "days_from_civil (y + 400) m d
          = (q div 400 + 1) * 146097
            + (q mod 400 * 365 + q mod 400 div 4 - q mod 400 div 100
               + ((153 * (if m > 2 then m - 3 else m + 9) + 2) div 5 + d - 1)) - 719468"
    unfolding days_from_civil_def q Let_def e by (rule refl)
  moreover have "days_from_civil y m d
          = q div 400 * 146097
            + (q mod 400 * 365 + q mod 400 div 4 - q mod 400 div 100
               + ((153 * (if m > 2 then m - 3 else m + 9) + 2) div 5 + d - 1)) - 719468"
    by (simp only: days_from_civil_def q_def Let_def)
  ultimately show ?thesis
    by (simp only: distrib_right)
qed

lemma shift_year_400:
  "(if P then a + (e + 1) * 400 + 1 else a + (e + 1) * 400, m, d)
     = (case (if P then a + e * 400 + 1 else a + e * 400, m, d) of
          (y, m, d) \<Rightarrow> (y + 400, m, d))"
  for a e :: int
  by (simp add: algebra_simps)

lemma civil_from_days_400:
  "civil_from_days (z + 146097) = (case civil_from_days z of (y, m, d) \<Rightarrow> (y + 400, m, d))"
proof -
  have s: "z + 146097 + 719468 = z + 719468 + 146097"
    by simp
  have e: "(x + 146097) div 146097 = x div 146097 + 1" "(x + 146097) mod 146097 = x mod 146097"
    for x :: int
    by simp_all
  show ?thesis
    unfolding civil_from_days_def s e Let_def by (rule shift_year_400)
qed

lemma hour_of_day_split:
  "x div ms_per_day = (x div ms_per_hour) div 24"
  "(x mod ms_per_day) div ms_per_hour = (x div ms_per_hour) mod 24"
proof -
  have d: "ms_per_day = ms_per_hour * 24"
    by (simp add: ms_per_day_def ms_per_hour_def)
  show "x div ms_per_day = (x div ms_per_hour) div 24"
    unfolding d by (simp add: zdiv_zmult2_eq ms_per_hour_def)
  have "x mod (ms_per_hour * 24) = ms_per_hour * (x div ms_per_hour mod 24) + x mod ms_per_hour"
    by (rule zmod_zmult2_eq) simp
  moreover have "0 \<le> x mod ms_per_hour" "x mod ms_per_hour < ms_per_hour"
    by (simp_all add: ms_per_hour_def)
  ultimately show "(x mod ms_per_day) div ms_per_hour = (x div ms_per_hour) mod 24"
    unfolding d by (simp add: ms_per_hour_def)
qed

text \<open>In a zone of one offset, \<^verbatim>\<open>createDate\<close> of the fields of an hour is that hour.\<close>

lemma createDate_fixed_offset:
  assumes "\<forall>t isUTC. tz t isUTC = c" and "civil_from_days z = (y, m, d)"
    and "0 \<le> hh" and "hh < 24"
  shows "createDate tz y m d hh 0 = (z * 24 + hh) * ms_per_hour - c"
proof -
  from civil_from_days_correct [of z] assms(2) have inv: "days_from_civil y m d = z"
    by simp
  have lu: "LocalTime tz x = x + c" "UTC tz x = x - c" for x
    using assms(1) by (simp_all add: LocalTime_def UTC_def)
  show ?thesis
  proof (cases "y < 100 \<and> y \<ge> 0")
    case False
    then have "createDate tz y m d hh 0 = UTC tz (MakeDate y m d hh 0)"
      by (simp only: createDate_def if_False)
    then show ?thesis
      by (simp add: MakeDate_def lu inv)
  next
    case True
    define t where "t = MakeDate (y + 400) m d hh 0"
    have t: "t = ((z + 146097) * 24 + hh) * ms_per_hour"
      by (simp add: t_def MakeDate_def days_from_civil_400 inv)
    have dm: "(k * 24 + hh) div 24 = k" "(k * 24 + hh) mod 24 = hh" for k
      using assms(3,4) by simp_all
    have th: "t div ms_per_hour = (z + 146097) * 24 + hh"
      unfolding t by (simp add: ms_per_hour_def)
    have day: "t div ms_per_day = z + 146097"
      unfolding hour_of_day_split th by (rule dm)
    have hour: "(t mod ms_per_day) div ms_per_hour = hh"
      unfolding hour_of_day_split th by (rule dm)
    have "t mod ms_per_hour = 0"
      unfolding t by simp
    moreover have "t mod ms_per_day mod ms_per_hour = t mod ms_per_hour"
      by (simp add: ms_per_day_def ms_per_hour_def mod_mod_cancel)
    ultimately have rest: "t mod ms_per_day = hh * ms_per_hour"
      using hour div_mult_mod_eq [of "t mod ms_per_day" ms_per_hour] by simp
    have civ: "civil_from_days (z + 146097) = (y + 400, m, d)"
      by (simp add: civil_from_days_400 assms(2))
    have "createDate tz y m d hh 0 = days_from_civil y m d * ms_per_day + t mod ms_per_day - c"
      using True by (simp add: createDate_def Let_def lu t_def [symmetric] day civ)
    then have "createDate tz y m d hh 0 = z * ms_per_day + hh * ms_per_hour - c"
      by (simp only: inv rest)
    then show ?thesis
      by (simp add: ms_per_day_def ms_per_hour_def)
  qed
qed

lemma moment_parse_render_hour:
  assumes "\<forall>t isUTC. tz t isUTC = c" and "hour_first \<le> h" and "h \<le> hour_last"
  shows "moment_parse tz (render_hour h) = \<lparr>isValid = True, utc_ms = h * ms_per_hour - c\<rparr>"
proof -
  have lo: "days_from_civil 0 1 1 \<le> h div 24"
    using assms(2) by (simp add: hour_first_def; linarith)
  have hi: "h div 24 \<le> days_from_civil 9999 12 31"
    using assms(3) by (simp add: hour_last_def; linarith)
  obtain y m d where c: "civil_from_days (h div 24) = (y, m, d)"
    by (cases "civil_from_days (h div 24)")
  from civil_year_in_range [OF lo hi] c have y: "0 \<le> y" "y < 10000"
    by simp_all
  from civil_from_days_correct [of "h div 24"] c
  have m: "1 \<le> m" "m \<le> 12" and d: "1 \<le> d" "d \<le> daysInMonth y m"
    by simp_all
  have hh: "0 \<le> h mod 24" "h mod 24 < 24"
    by simp_all
  have "moment_parse tz (render_hour h)
          = \<lparr>isValid = True, utc_ms = createDate tz y m d (h mod 24) 0\<rparr>"
    unfolding render_hour_def c prod.case
    by (rule moment_parse_rendered [OF y m d hh])
  also have "createDate tz y m d (h mod 24) 0 = (h div 24 * 24 + h mod 24) * ms_per_hour - c"
    using assms(1) c hh by (rule createDate_fixed_offset)
  also have "h div 24 * 24 + h mod 24 = h"
    by simp
  finally show ?thesis .
qed

lemma hour_bounds: "hour_first = - 17268672" "hour_last = 70389527"
  by (simp_all add: hour_first_def hour_last_def days_from_civil_def)

section \<open>The time window: properties\<close>

lemma monitorTimes_loop_eq:
  "monitorTimes_loop tz R i acc
     = acc @ map (\<lambda>j. format_hour tz (add_hours (clone R) j)) [i..36]"
proof (induction tz R i acc rule: monitorTimes_loop.induct)
  case (1 tz R i acc)
  show ?case
  proof (cases "i \<le> 36")
    case True
    have "[i..36] = i # [i + 1..36]"
      using True by (simp add: upto_rec1)
    with True "1" show ?thesis
      by (simp add: monitorTimes_loop.simps [of tz R i acc])
  next
    case False
    then show ?thesis
      by (simp add: monitorTimes_loop.simps [of tz R i acc])
  qed
qed

lemma allMonitorTimes_map:
  "allMonitorTimes tz R = map (\<lambda>j. format_hour tz (add_hours R j)) [- 36..36]"
  by (simp add: allMonitorTimes_def monitorTimes_loop_eq clone_def)

lemma length_allMonitorTimes: "length (allMonitorTimes tz R) = 73"
  unfolding allMonitorTimes_map length_map length_upto by simp

lemma allMonitorTimes_nth:
  assumes "i < 73"
  shows "allMonitorTimes tz R ! i = format_hour tz (add_hours R (int i - 36))"
proof -
  have "[- 36..36] ! i = - 36 + int i"
    using assms by (intro nth_upto) simp
  moreover have "i < length [- 36..(36::int)]"
    unfolding length_upto using assms by simp
  ultimately show ?thesis
    unfolding allMonitorTimes_map by (simp only: nth_map) (simp add: add.commute)
qed

lemma format_hour_render:
  "isValid m \<Longrightarrow> format_hour tz m = render_hour (hour_index tz m)"
  by (simp add: format_hour_def Let_def render_hour_def hour_index_def hour_of_day_split)

lemma isValid_add_hours: "isValid (add_hours m i) = isValid m"
  by (simp add: add_hours_def)

lemma add_hours_0: "add_hours m 0 = m"
  by (simp add: add_hours_def)

lemma add_hours_eq:
  "isValid m \<Longrightarrow> add_hours m i = \<lparr>isValid = True, utc_ms = utc_ms m + i * ms_per_hour\<rparr>"
  by (simp add: add_hours_def)

lemma render_hour_minutes: "\<exists>p. render_hour h = p @ '':00''"
  by (simp add: render_hour_def split: prod.splits)

text \<open>Where the zone has the offset of the instant \<open>m\<close> also \<open>i\<close> hours later, the local
  clock shows \<open>i\<close> hours more.\<close>

lemma hour_index_add_hours:
  assumes "isValid m"
    and "tz (utc_ms m + i * ms_per_hour) True = tz (utc_ms m) True"
  shows "hour_index tz (add_hours m i) = hour_index tz m + i"
proof -
  have "(x + i * ms_per_hour) div ms_per_hour = x div ms_per_hour + i" for x
    by (simp add: ms_per_hour_def)
  from this [of "utc_ms m + tz (utc_ms m) True"] assms show ?thesis
    by (simp add: hour_index_def add_hours_def LocalTime_def add.assoc add.left_commute add.commute)
qed

lemma steady_offset_nth:
  assumes "steady_offset tz R" and "i < 73"
  shows "tz (utc_ms R + (int i - 36) * ms_per_hour) True = tz (utc_ms R) True"
proof -
  from assms(1)
  have "\<forall>j\<in>{- 36..36}. tz (utc_ms R + j * ms_per_hour) True = tz (utc_ms R) True"
    unfolding steady_offset_def list_all_iff set_upto .
  moreover have "int i - 36 \<in> {- 36..36}"
    using assms(2) by simp
  ultimately show ?thesis
    by blast
qed

text \<open>
  C1, as the code has it.  For every valid reference instant \<open>R\<close> and every time zone of
  the process, the window has exactly 73 elements; element \<open>i\<close> (counted from 0) is the
  instant \<open>R + (i - 36)\<close> hours, formatted, these instants being exactly one hour apart; it
  is the text of the hour that the local clock shows at that instant, and ends in the
  minutes \<open>00\<close>; element 36 is \<open>R\<close> itself, cut to the hour.  Where the zone has one offset
  from UTC at the 73 instants of the window, the elements are the texts of consecutive
  hours of the local clock, element \<open>i\<close> that of the hour \<open>hour_index R + i - 36\<close>, and they
  are pairwise different.  Where moreover the zone has that offset at all times and the
  window lies in the years 0000 to 9999, reading an element back with the library's
  parser gives the instant of the hour of \<open>R\<close> plus \<open>i - 36\<close> hours, so the instants that
  the elements denote go up by exactly one hour from each element to the next.
\<close>

theorem window_73_hours:
  assumes "isValid R"
  shows "length (allMonitorTimes tz R) = 73
       \<and> (\<forall>i<73. allMonitorTimes tz R ! i = format_hour tz (add_hours R (int i - 36)))
       \<and> (\<forall>i<73. add_hours R (int i - 36)
                    = \<lparr>isValid = True, utc_ms = utc_ms R + (int i - 36) * ms_per_hour\<rparr>)
       \<and> (\<forall>i<72. utc_ms (add_hours R (int (Suc i) - 36))
                    = utc_ms (add_hours R (int i - 36)) + ms_per_hour)
       \<and> (\<forall>i<73. allMonitorTimes tz R ! i
                    = render_hour (hour_index tz (add_hours R (int i - 36))))
       \<and> allMonitorTimes tz R ! 36 = format_hour tz R
       \<and> (\<forall>i<73. \<exists>p. allMonitorTimes tz R ! i = p @ '':00'')
       \<and> (steady_offset tz R \<longrightarrow>
            (\<forall>i<73. allMonitorTimes tz R ! i = render_hour (hour_index tz R + int i - 36))
            \<and> distinct (allMonitorTimes tz R))
       \<and> ((\<forall>t isUTC. tz t isUTC = c)
           \<and> hour_first \<le> hour_index tz R - 36 \<and> hour_index tz R + 36 \<le> hour_last \<longrightarrow>
            (\<forall>i<73. moment_parse tz (allMonitorTimes tz R ! i)
                        = \<lparr>isValid = True,
                           utc_ms = (hour_index tz R + int i - 36) * ms_per_hour - c\<rparr>)
            \<and> (\<forall>i<72. utc_ms (moment_parse tz (allMonitorTimes tz R ! Suc i))
                          = utc_ms (moment_parse tz (allMonitorTimes tz R ! i)) + ms_per_hour))"
proof -
  let ?w = "allMonitorTimes tz R"
  have local: "?w ! i = render_hour (hour_index tz (add_hours R (int i - 36)))" if "i < 73" for i
    using that assms by (simp add: allMonitorTimes_nth format_hour_render isValid_add_hours)
  have mid: "?w ! 36 = format_hour tz R"
    using allMonitorTimes_nth [of 36 tz R] by (simp add: add_hours_0)
  have basic: "length ?w = 73
       \<and> (\<forall>i<73. ?w ! i = format_hour tz (add_hours R (int i - 36)))
       \<and> (\<forall>i<73. add_hours R (int i - 36)
                    = \<lparr>isValid = True, utc_ms = utc_ms R + (int i - 36) * ms_per_hour\<rparr>)
       \<and> (\<forall>i<72. utc_ms (add_hours R (int (Suc i) - 36))
                    = utc_ms (add_hours R (int i - 36)) + ms_per_hour)
       \<and> (\<forall>i<73. ?w ! i = render_hour (hour_index tz (add_hours R (int i - 36))))
       \<and> ?w ! 36 = format_hour tz R
       \<and> (\<forall>i<73. \<exists>p. ?w ! i = p @ '':00'')"
    using local mid render_hour_minutes assms
    by (simp add: length_allMonitorTimes allMonitorTimes_nth add_hours_eq algebra_simps)
  have steady: "(\<forall>i<73. ?w ! i = render_hour (hour_index tz R + int i - 36)) \<and> distinct ?w"
    if s: "steady_offset tz R"
  proof -
    have nth: "?w ! i = render_hour (hour_index tz R + int i - 36)" if "i < 73" for i
      using local [OF that]
        hour_index_add_hours [of R tz "int i - 36", OF assms steady_offset_nth [OF s that]]
      by (simp add: add_diff_eq)
    have "distinct ?w"
      unfolding distinct_conv_nth length_allMonitorTimes
    proof (intro allI impI)
      fix i j :: nat
      assume i: "i < 73" and j: "j < 73" and ne: "i \<noteq> j"
      show "?w ! i \<noteq> ?w ! j"
      proof
        assume "?w ! i = ?w ! j"
        then have "hour_index tz R + int i - 36 = hour_index tz R + int j - 36"
          unfolding nth [OF i] nth [OF j] by (rule render_hour_inj)
        with ne show False
          by simp
      qed
    qed
    with nth show ?thesis
      by blast
  qed
  have ranged: "(\<forall>i<73. moment_parse tz (?w ! i)
                        = \<lparr>isValid = True,
                           utc_ms = (hour_index tz R + int i - 36) * ms_per_hour - c\<rparr>)
            \<and> (\<forall>i<72. utc_ms (moment_parse tz (?w ! Suc i))
                          = utc_ms (moment_parse tz (?w ! i)) + ms_per_hour)"
    if fixed: "\<forall>t isUTC. tz t isUTC = c"
      and lo: "hour_first \<le> hour_index tz R - 36" and hi: "hour_index tz R + 36 \<le> hour_last"
  proof -
    have "steady_offset tz R"
      using fixed by (simp add: steady_offset_def list_all_iff)
    from steady [OF this]
    have nth: "?w ! i = render_hour (hour_index tz R + int i - 36)" if "i < 73" for i
      using that by blast
    have parse: "moment_parse tz (?w ! i)
                   = \<lparr>isValid = True, utc_ms = (hour_index tz R + int i - 36) * ms_per_hour - c\<rparr>"
      if "i < 73" for i
    proof -
      have "hour_first \<le> hour_index tz R + int i - 36"
        and "hour_index tz R + int i - 36 \<le> hour_last"
        using lo hi that by simp_all
      with fixed show ?thesis
        unfolding nth [OF that] by (rule moment_parse_render_hour)
    qed
    have step: "utc_ms (moment_parse tz (?w ! Suc i))
                  = utc_ms (moment_parse tz (?w ! i)) + ms_per_hour"
      if "i < 72" for i
      using that parse [of i] parse [of "Suc i"] by (simp add: algebra_simps)
    from parse step show ?thesis
      by blast
  qed
  from basic steady ranged show ?thesis
    by blast
qed

lemma parse_example_dates:
  "moment_parse zone_UTC ''2025-11-26 17:00'' = \<lparr>isValid = True, utc_ms = 1764176400000\<rparr>"
  "moment_parse zone_UTC ''2025-11-25 05:00'' = \<lparr>isValid = True, utc_ms = 1764046800000\<rparr>"
  "moment_parse zone_UTC ''2025-11-26 16:30'' = \<lparr>isValid = True, utc_ms = 1764174600000\<rparr>"
  "moment_parse zone_UTC ''2025-11-26 10:30'' = \<lparr>isValid = True, utc_ms = 1764153000000\<rparr>"
  "moment_parse zone_Taipei ''2025-11-26 17:00'' = \<lparr>isValid = True, utc_ms = 1764147600000\<rparr>"
  "moment_parse zone_New_York ''2025-11-02 12:00'' = \<lparr>isValid = True, utc_ms = 1762102800000\<rparr>"
  by code_simp+

lemma render_example_hours:
  "render_hour 490013 = ''2025-11-25 05:00''" "render_hour 490014 = ''2025-11-25 06:00''"
  "render_hour 490049 = ''2025-11-26 17:00''" "render_hour 490085 = ''2025-11-28 05:00''"
  "render_hour 489433 = ''2025-11-01 01:00''" "render_hour 489457 = ''2025-11-02 01:00''"
  "render_hour 489468 = ''2025-11-02 12:00''"
  by code_simp+

theorem window_73_hours_witness:
  "isValid (moment_parse zone_Taipei ''2025-11-26 17:00'')
   \<and> steady_offset zone_Taipei (moment_parse zone_Taipei ''2025-11-26 17:00'')
   \<and> (\<forall>t isUTC. zone_Taipei t isUTC = 28800000)
   \<and> hour_first \<le> hour_index zone_Taipei (moment_parse zone_Taipei ''2025-11-26 17:00'') - 36
   \<and> hour_index zone_Taipei (moment_parse zone_Taipei ''2025-11-26 17:00'') + 36 \<le> hour_last
   \<and> length (allMonitorTimes zone_Taipei (moment_parse zone_Taipei ''2025-11-26 17:00'')) = 73
   \<and> allMonitorTimes zone_Taipei (moment_parse zone_Taipei ''2025-11-26 17:00'') ! 0
       = ''2025-11-25 05:00''
   \<and> allMonitorTimes zone_Taipei (moment_parse zone_Taipei ''2025-11-26 17:00'') ! 1
       = ''2025-11-25 06:00''
   \<and> allMonitorTimes zone_Taipei (moment_parse zone_Taipei ''2025-11-26 17:00'') ! 36
       = ''2025-11-26 17:00''
   \<and> allMonitorTimes zone_Taipei (moment_parse zone_Taipei ''2025-11-26 17:00'') ! 72
       = ''2025-11-28 05:00''
   \<and> add_hours (moment_parse zone_Taipei ''2025-11-26 17:00'') (- 36)
       = \<lparr>isValid = True, utc_ms = 1764018000000\<rparr>
   \<and> moment_parse zone_Taipei
         (allMonitorTimes zone_Taipei (moment_parse zone_Taipei ''2025-11-26 17:00'') ! 0)
       = \<lparr>isValid = True, utc_ms = 1764018000000\<rparr>
   \<and> moment_parse zone_Taipei
         (allMonitorTimes zone_Taipei (moment_parse zone_Taipei ''2025-11-26 17:00'') ! 1)
       = \<lparr>isValid = True, utc_ms = 1764021600000\<rparr>
   \<and> distinct (allMonitorTimes zone_Taipei (moment_parse zone_Taipei ''2025-11-26 17:00''))"
proof -
  let ?R = "moment_parse zone_Taipei ''2025-11-26 17:00''"
  let ?w = "allMonitorTimes zone_Taipei ?R"
  have p: "?R = \<lparr>isValid = True, utc_ms = 1764147600000\<rparr>"
    by (rule parse_example_dates)
  have v: "isValid ?R"
    by (simp add: p)
  have z: "\<forall>t isUTC. zone_Taipei t isUTC = 28800000"
    by (simp add: zone_Taipei_def ms_per_hour_def)
  have s: "steady_offset zone_Taipei ?R"
    by (simp add: steady_offset_def list_all_iff zone_Taipei_def)
  have h: "hour_index zone_Taipei ?R = 490049"
    by (simp add: p hour_index_def LocalTime_def zone_Taipei_def ms_per_hour_def)
  have b: "hour_first \<le> hour_index zone_Taipei ?R - 36"
    "hour_index zone_Taipei ?R + 36 \<le> hour_last"
    by (simp_all add: h hour_bounds)
  have u: "utc_ms ?R = 1764147600000"
    by (simp add: p)
  from window_73_hours [OF v, of zone_Taipei 28800000] s z b
  have len: "length ?w = 73"
    and add: "\<And>i. i < 73 \<Longrightarrow> add_hours ?R (int i - 36)
                 = \<lparr>isValid = True, utc_ms = utc_ms ?R + (int i - 36) * ms_per_hour\<rparr>"
    and nth: "\<And>i. i < 73 \<Longrightarrow> ?w ! i = render_hour (hour_index zone_Taipei ?R + int i - 36)"
    and parse: "\<And>i. i < 73 \<Longrightarrow> moment_parse zone_Taipei (?w ! i)
                 = \<lparr>isValid = True,
                    utc_ms = (hour_index zone_Taipei ?R + int i - 36) * ms_per_hour - 28800000\<rparr>"
    and dist: "distinct ?w"
    by blast+
  show ?thesis
    using nth [of 0] nth [of 1] nth [of 36] nth [of 72] add [of 0] parse [of 0] parse [of 1]
      dist b s z
    by (simp add: v len h u render_example_hours ms_per_hour_def)
qed

text \<open>
  C1 as stated fails where the offset of the zone changes inside the window.  In New York
  the clocks go back on 2025-11-02 at 06:00 UTC: for the reference \<open>2025-11-02 12:00\<close> the
  elements 24 and 25 of the window, one hour apart as instants, are the same text
  \<open>2025-11-02 01:00\<close>, and the window begins 35 hours of the local clock before the
  reference, at \<open>2025-11-01 01:00\<close>.
\<close>

theorem window_repeats_hour_counterexample:
  "isValid (moment_parse zone_New_York ''2025-11-02 12:00'')
   \<and> allMonitorTimes zone_New_York (moment_parse zone_New_York ''2025-11-02 12:00'') ! 36
       = ''2025-11-02 12:00''
   \<and> allMonitorTimes zone_New_York (moment_parse zone_New_York ''2025-11-02 12:00'') ! 24
       = ''2025-11-02 01:00''
   \<and> allMonitorTimes zone_New_York (moment_parse zone_New_York ''2025-11-02 12:00'') ! 25
       = ''2025-11-02 01:00''
   \<and> allMonitorTimes zone_New_York (moment_parse zone_New_York ''2025-11-02 12:00'') ! 0
       = ''2025-11-01 01:00''
   \<and> \<not> distinct (allMonitorTimes zone_New_York (moment_parse zone_New_York ''2025-11-02 12:00''))"
proof -
  let ?R = "moment_parse zone_New_York ''2025-11-02 12:00''"
  let ?w = "allMonitorTimes zone_New_York ?R"
  have p: "?R = \<lparr>isValid = True, utc_ms = 1762102800000\<rparr>"
    by (rule parse_example_dates)
  have h: "hour_index zone_New_York \<lparr>isValid = True, utc_ms = 1762102800000\<rparr> = 489468"
    "hour_index zone_New_York \<lparr>isValid = True, utc_ms = 1762059600000\<rparr> = 489457"
    "hour_index zone_New_York \<lparr>isValid = True, utc_ms = 1762063200000\<rparr> = 489457"
    "hour_index zone_New_York \<lparr>isValid = True, utc_ms = 1761973200000\<rparr> = 489433"
    by (simp_all add: hour_index_def LocalTime_def zone_New_York_def ms_per_hour_def)
  have n: "?w ! 36 = ''2025-11-02 12:00''" "?w ! 24 = ''2025-11-02 01:00''"
    "?w ! 25 = ''2025-11-02 01:00''" "?w ! 0 = ''2025-11-01 01:00''"
    by (simp_all add: allMonitorTimes_nth p add_hours_def format_hour_render ms_per_hour_def h
        render_example_hours)
  have "\<not> distinct ?w"
  proof
    assume "distinct ?w"
    then have "(?w ! 24 = ?w ! 25) = (24 = (25::nat))"
      by (rule nth_eq_iff_index_eq) (simp_all add: length_allMonitorTimes)
    with n show False
      by simp
  qed
  with n p show ?thesis
    by simp
qed

section \<open>Fetching, merging and sorting: basic facts\<close>

subsection \<open>The per-instant fetch\<close>

lemma fetchDataByTime_log:
  "snd (fetchDataByTime env cfg log t) = log @ [fetch_request cfg t]"
  by (simp add: fetchDataByTime_def Let_def)

lemma fetchDataByTime_result:
  "fst (fetchDataByTime env cfg log t) =
     Inr (case get_records env log (fetch_request cfg t) of Inr records \<Rightarrow> records | Inl e \<Rightarrow> [])"
  by (simp add: fetchDataByTime_def Let_def split: sum.splits)

lemma get_records_failed:
  "failed_outcome (axios_get env log req) \<Longrightarrow> \<exists>e. get_records env log req = Inl e \<or> get_records env log req = Inr []"
  by (auto simp: failed_outcome_def get_records_def data_records_def
      split: axios_outcome.splits response_data.splits)

lemma fetchDataByTime_failed:
  "failed_outcome (axios_get env log (fetch_request cfg t)) \<Longrightarrow>
     fst (fetchDataByTime env cfg log t) = Inr []"
  using get_records_failed [of env log "fetch_request cfg t"]
  by (auto simp: fetchDataByTime_result)

subsection \<open>All fetches\<close>

lemma length_allSettled_aux:
  "allSettled fetch log ts = (rs, log') \<Longrightarrow> length rs = length ts"
  by (induction ts arbitrary: log rs log') (auto split: prod.splits)

lemma length_allSettled: "length (fst (allSettled fetch log ts)) = length ts"
  using length_allSettled_aux [of fetch log ts] by (cases "allSettled fetch log ts") simp

lemma allSettled_log:
  "snd (allSettled (fetchDataByTime env cfg) log ts) = log @ map (fetch_request cfg) ts"
proof (induction ts arbitrary: log)
  case Nil
  then show ?case by simp
next
  case (Cons t ts)
  have "snd (fetchDataByTime env cfg log t) = log @ [fetch_request cfg t]"
    by (rule fetchDataByTime_log)
  with Cons [of "log @ [fetch_request cfg t]"] show ?case
    by (auto split: prod.splits)
qed

lemma allSettled_fulfilled:
  "r \<in> set (fst (allSettled (fetchDataByTime env cfg) log ts)) \<Longrightarrow> \<exists>v. r = Inr v"
proof (induction ts arbitrary: log)
  case Nil
  then show ?case by simp
next
  case (Cons t ts)
  obtain r1 log1 where f: "fetchDataByTime env cfg log t = (r1, log1)"
    by (cases "fetchDataByTime env cfg log t")
  obtain rs log2 where a: "allSettled (fetchDataByTime env cfg) log1 ts = (rs, log2)"
    by (cases "allSettled (fetchDataByTime env cfg) log1 ts")
  from Cons.prems f a have "r = r1 \<or> r \<in> set rs"
    by simp
  then show ?case
  proof
    assume "r = r1"
    with f fetchDataByTime_result [of env cfg log t] show ?thesis
      by simp
  next
    assume "r \<in> set rs"
    with a Cons.IH [of log1] show ?thesis
      by simp
  qed
qed

subsection \<open>Merging\<close>

lemma foldl_forEach_step:
  "foldl forEach_step (a, n) rs = (a @ concat (map delivered rs), n + length (filter successful rs))"
proof (induction rs arbitrary: a n)
  case Nil
  then show ?case by simp
next
  case (Cons r rs)
  show ?case
  proof (cases r)
    case (Inl e)
    with Cons [of a n] show ?thesis
      by (simp add: forEach_step_def delivered_def successful_def)
  next
    case (Inr v)
    show ?thesis
    proof (cases "v = []")
      case True
      with Inr Cons [of a n] show ?thesis
        by (simp add: forEach_step_def delivered_def successful_def)
    next
      case False
      with Inr Cons [of "a @ v" "Suc n"] show ?thesis
        by (simp add: forEach_step_def delivered_def successful_def)
    qed
  qed
qed

lemma forEach_results_eq:
  "forEach_results rs = (concat (map delivered rs), length (filter successful rs))"
  by (simp add: forEach_results_def foldl_forEach_step)

lemma concat_delivered_successful:
  "concat (map delivered rs) = concat (map delivered (filter successful rs))"
  by (induction rs) (auto simp: delivered_def successful_def split: sum.splits)

subsection \<open>Sorting\<close>

lemma mset_insert_sorted: "mset (insert_sorted c x xs) = add_mset x (mset xs)"
  by (induction xs) auto

lemma mset_Array_sort: "mset (Array_sort c xs) = mset xs"
  by (induction xs) (auto simp: Array_sort_def mset_insert_sorted)

lemma length_Array_sort: "length (Array_sort c xs) = length xs"
  using mset_Array_sort [of c xs] by (metis size_mset)

lemma set_Array_sort: "set (Array_sort c xs) = set xs"
  using mset_Array_sort [of c xs] by (metis set_mset_mset)

lemma insert_sorted_insort_key:
  assumes "\<And>y. y \<in> set ys \<Longrightarrow> (SortCompare c x y \<le> 0) = (k x \<le> k y)"
  shows "insert_sorted c x ys = insort_key k x ys"
  using assms by (induction ys) auto

lemma Array_sort_sort_key:
  fixes k :: "'a \<Rightarrow> int"
  assumes "\<And>x y. x \<in> set xs \<Longrightarrow> y \<in> set xs \<Longrightarrow> (SortCompare c x y \<le> 0) = (k x \<le> k y)"
  shows "Array_sort c xs = sort_key k xs"
  using assms
proof (induction xs)
  case Nil
  then show ?case by (simp add: Array_sort_def)
next
  case (Cons x xs)
  have ih: "Array_sort c xs = sort_key k xs"
    using Cons by simp
  have "insert_sorted c x (sort_key k xs) = insort_key k x (sort_key k xs)"
    using Cons.prems by (intro insert_sorted_insort_key) simp
  with ih show ?case
    by (simp add: Array_sort_def)
qed

lemma fetchDataByTime_fetch_result:
  "fst (fetchDataByTime env cfg log t) = fetch_result (axios_get env log (fetch_request cfg t))"
  by (simp add: fetchDataByTime_result fetch_result_def get_records_def data_records_def
      split: axios_outcome.splits response_data.splits option.splits)

lemma fetchDataByTime_eq:
  "fetchDataByTime env cfg log t =
     (fetch_result (axios_get env log (fetch_request cfg t)), log @ [fetch_request cfg t])"
  using fetchDataByTime_fetch_result [of env cfg log t] fetchDataByTime_log [of env cfg log t]
  by (cases "fetchDataByTime env cfg log t") simp

lemma fetchDataByTime_004_eq:
  "API_KEY cfg \<noteq> [] \<Longrightarrow> fetchDataByTime_004 env cfg = fetchDataByTime env cfg"
  by (simp add: fetchDataByTime_004_def fun_eq_iff)

lemma allSettled_by_index:
  "fst (allSettled (fetchDataByTime (env_of f) cfg) log ts) =
     map (\<lambda>i. fetch_result (f i)) [length log ..< length log + length ts]"
proof (induction ts arbitrary: log)
  case Nil
  then show ?case by simp
next
  case (Cons t ts)
  let ?log1 = "log @ [fetch_request cfg t]"
  have step: "fetchDataByTime (env_of f) cfg log t = (fetch_result (f (length log)), ?log1)"
    by (simp add: fetchDataByTime_eq env_of_def env_in_def)
  have "fst (allSettled (fetchDataByTime (env_of f) cfg) log (t # ts)) =
          fetch_result (f (length log)) # fst (allSettled (fetchDataByTime (env_of f) cfg) ?log1 ts)"
    by (simp add: step split: prod.splits)
  also have "\<dots> = fetch_result (f (length log)) #
                    map (\<lambda>i. fetch_result (f i)) [Suc (length log) ..< Suc (length log) + length ts]"
    using Cons [of ?log1] by simp
  also have "\<dots> = map (\<lambda>i. fetch_result (f i)) [length log ..< length log + length (t # ts)]"
  proof -
    have "[length log ..< length log + length (t # ts)] =
            length log # [Suc (length log) ..< Suc (length log) + length ts]"
      by (simp add: upt_conv_Cons del: upt_Suc)
    then show ?thesis
      by (simp only: list.map)
  qed
  finally show ?case .
qed

lemma allMonitorTimes_nonempty: "allMonitorTimes tz R \<noteq> []"
  using length_allMonitorTimes [of tz R] by auto

lemma taitung_air_data_handler_no_key:
  "API_KEY cfg = [] \<Longrightarrow>
     taitung_air_data_handler guidance fetch env cfg =
       \<lparr>res = \<lparr>statusCode = 500,
                 body = [(''error'', JString msg_config_error), (''guidance'', JString guidance)]\<rparr>,
        calls = []\<rparr>"
  by (simp add: taitung_air_data_handler_def)

lemma taitung_air_data_handler_bad_reference:
  "API_KEY cfg \<noteq> [] \<Longrightarrow> \<not> isValid (moment_of env (REFERENCE_TIME_STR cfg)) \<Longrightarrow>
     taitung_air_data_handler guidance fetch env cfg =
       \<lparr>res = \<lparr>statusCode = 400, body = [(''error'', JString msg_reference_invalid)]\<rparr>,
        calls = []\<rparr>"
  by (simp add: taitung_air_data_handler_def)

lemma taitung_air_data_success:
  assumes "API_KEY cfg \<noteq> []" and "isValid (moment_of env (REFERENCE_TIME_STR cfg))"
  shows "taitung_air_data env cfg =
     \<lparr>res = \<lparr>statusCode = 200,
               body = [(''status'', JString ''success''),
                       (''time_range_start'',
                          JString (allMonitorTimes (LocalTZA env)
                                     (moment_of env (REFERENCE_TIME_STR cfg)) ! 0)),
                       (''time_range_end'',
                          JString (allMonitorTimes (LocalTZA env)
                                     (moment_of env (REFERENCE_TIME_STR cfg)) ! 72)),
                       (''summary'',
                          JString (summary_text
                             (length (filter successful (batch_results env cfg)))
                             (length (merged_sorted env (batch_results env cfg))))),
                       (''data'', JArray (merged_sorted env (batch_results env cfg)))]\<rparr>,
      calls = map (fetch_request cfg)
                (allMonitorTimes (LocalTZA env) (moment_of env (REFERENCE_TIME_STR cfg)))\<rparr>"
proof -
  let ?R = "moment_of env (REFERENCE_TIME_STR cfg)"
  let ?w = "allMonitorTimes (LocalTZA env) ?R"
  obtain rs log where a: "allSettled (fetchDataByTime env cfg) [] ?w = (rs, log)"
    by (cases "allSettled (fetchDataByTime env cfg) [] ?w")
  have rs: "rs = batch_results env cfg"
    using a by (simp add: batch_results_def)
  have log: "log = map (fetch_request cfg) ?w"
    using a allSettled_log [of env cfg "[]" ?w] by simp
  show ?thesis
    using assms a
    by (simp add: taitung_air_data_def taitung_air_data_handler_def Let_def
        forEach_results_eq merged_sorted_def js_index_def length_allMonitorTimes
        allMonitorTimes_nonempty rs [symmetric] log)
qed

lemma taitung_air_data_004_eq:
  assumes "API_KEY cfg \<noteq> []"
  shows "taitung_air_data_004 env cfg = taitung_air_data env cfg"
  using assms
  by (simp add: taitung_air_data_004_def taitung_air_data_def fetchDataByTime_004_eq
      taitung_air_data_handler_def)

section \<open>The batch endpoint: properties\<close>

lemma API_KEY_empty_iff:
  "API_KEY cfg = [] \<longleftrightarrow> process_env_API_KEY cfg = None \<or> process_env_API_KEY cfg = Some []"
  by (simp add: API_KEY_def split: option.splits)

lemma batch_results_by_index:
  "batch_results (env_of f) cfg = map (\<lambda>i. fetch_result (f i)) [0 ..< 73]"
  using allSettled_by_index [of f cfg "[]"
      "allMonitorTimes (LocalTZA (env_of f)) (moment_of (env_of f) (REFERENCE_TIME_STR cfg))"]
  by (simp add: batch_results_def length_allMonitorTimes)

lemma length_batch_results: "length (batch_results env cfg) = 73"
  by (simp add: batch_results_def length_allSettled length_allMonitorTimes)

text \<open>
  C2.  Whatever the 73 fetches settle to: when exactly \<open>K\<close> of them are fulfilled with a
  non-empty record list, the summary of the response states \<open>K\<close> successful requests, and
  the data of the response holds, as a multiset, exactly the records of those \<open>K\<close> fetches.
  The response is a success (status 200, tag \<open>success\<close>, no \<open>error\<close> field) whatever failed.
\<close>

theorem batch_counts_and_merges:
  assumes "API_KEY cfg \<noteq> []"
    and "isValid (moment_of env (REFERENCE_TIME_STR cfg))"
    and "length (filter successful (batch_results env cfg)) = K"
  shows "length (batch_results env cfg) = 73
       \<and> length (calls (taitung_air_data env cfg)) = 73
       \<and> statusCode (res (taitung_air_data env cfg)) = 200
       \<and> body_field (taitung_air_data env cfg) ''status'' = Some (JString ''success'')
       \<and> body_field (taitung_air_data env cfg) ''error'' = None
       \<and> (\<exists>data. body_field (taitung_air_data env cfg) ''data'' = Some (JArray data)
             \<and> mset data = (\<Sum>r\<leftarrow>filter successful (batch_results env cfg). mset (delivered r))
             \<and> body_field (taitung_air_data env cfg) ''summary''
                 = Some (JString (summary_text K (length data))))"
proof -
  have "mset (merged_sorted env (batch_results env cfg))
          = mset (concat (map delivered (filter successful (batch_results env cfg))))"
    using concat_delivered_successful [of "batch_results env cfg"]
    by (simp add: merged_sorted_def mset_Array_sort forEach_results_eq)
  also have "\<dots> = (\<Sum>r\<leftarrow>filter successful (batch_results env cfg). mset (delivered r))"
    by (simp add: mset_concat comp_def)
  finally have m: "mset (merged_sorted env (batch_results env cfg))
          = (\<Sum>r\<leftarrow>filter successful (batch_results env cfg). mset (delivered r))" .
  show ?thesis
    using assms m
    by (simp add: taitung_air_data_success body_field_def length_batch_results
        length_allMonitorTimes)
qed

lemma results_upstream_a:
  "batch_results (env_of upstream_a) cfg =
     Inr [rec_pm25] # Inr [rec_o3, rec_early] # replicate 71 (Inr [])"
proof -
  have u: "[0 ..< 73] = 0 # 1 # [2 ..< 73]"
    by (simp add: upt_conv_Cons del: upt_Suc)
  have "map (\<lambda>i. fetch_result (upstream_a i)) [2 ..< 73] = map (\<lambda>i. Inr []) [2 ..< 73]"
    by (rule map_cong) (auto simp: upstream_a_def fetch_result_def)
  also have "\<dots> = replicate 71 (Inr [])"
    by (simp only: map_replicate_const length_upt) simp
  finally show ?thesis
    unfolding batch_results_by_index u
    by (simp add: upstream_a_def fetch_result_def)
qed

lemma valid_reference_17: "isValid (moment_parse zone_UTC REFERENCE_TIME_STR_003)"
  unfolding REFERENCE_TIME_STR_003_def by code_simp

lemma distinct_examples: "rec_pm25 \<noteq> rec_o3" "rec_early \<noteq> rec_pm25" "rec_early \<noteq> rec_o3"
  by (simp_all add: rec_pm25_def rec_o3_def rec_early_def)

theorem batch_counts_and_merges_witness:
  "API_KEY cfg_17 \<noteq> []
   \<and> isValid (moment_of (env_of upstream_a) (REFERENCE_TIME_STR cfg_17))
   \<and> length (filter successful (batch_results (env_of upstream_a) cfg_17)) = 2
   \<and> statusCode (res (taitung_air_data (env_of upstream_a) cfg_17)) = 200
   \<and> body_field (taitung_air_data (env_of upstream_a) cfg_17) ''summary''
       = Some (JString (summary_text 2 3))
   \<and> (\<exists>data. body_field (taitung_air_data (env_of upstream_a) cfg_17) ''data''
                = Some (JArray data)
             \<and> mset data = {#rec_pm25, rec_o3, rec_early#})"
proof -
  have k: "API_KEY cfg_17 \<noteq> []"
    by (simp add: API_KEY_def cfg_17_def)
  have v: "isValid (moment_of (env_of upstream_a) (REFERENCE_TIME_STR cfg_17))"
    using valid_reference_17 by (simp add: env_of_def env_in_def cfg_17_def)
  have f: "filter successful (batch_results (env_of upstream_a) cfg_17)
             = [Inr [rec_pm25], Inr [rec_o3, rec_early]]"
    by (simp add: results_upstream_a successful_def)
  have n: "length (filter successful (batch_results (env_of upstream_a) cfg_17)) = 2"
    by (simp add: f)
  from batch_counts_and_merges [OF k v n]
  obtain data where d: "body_field (taitung_air_data (env_of upstream_a) cfg_17) ''data''
        = Some (JArray data)"
      "mset data = (\<Sum>r\<leftarrow>filter successful (batch_results (env_of upstream_a) cfg_17).
                      mset (delivered r))"
      "body_field (taitung_air_data (env_of upstream_a) cfg_17) ''summary''
         = Some (JString (summary_text 2 (length data)))"
    and s: "statusCode (res (taitung_air_data (env_of upstream_a) cfg_17)) = 200"
    by blast
  have m: "mset data = {#rec_pm25, rec_o3, rec_early#}"
    using d(2) by (simp add: f delivered_def)
  then have "size (mset data) = 3"
    by simp
  then have "length data = 3"
    by simp
  with k v n s d m show ?thesis
    by auto
qed

lemma no_successful_delivers_nothing:
  assumes "\<forall>r\<in>set rs. \<not> successful r"
  shows "concat (map delivered rs) = []" and "filter successful rs = []"
  using assms by (auto simp: successful_def delivered_def split: sum.splits)

text \<open>
  C4.  When every fetch is rejected or fulfilled with the empty list, the batch endpoint
  answers with status 200 and the tag \<open>success\<close>: the data is the empty array, the summary
  states 0 successful requests and 0 records, and the body has no \<open>error\<close> field.
\<close>

theorem batch_all_failed_is_success:
  assumes "API_KEY cfg \<noteq> []"
    and "isValid (moment_of env (REFERENCE_TIME_STR cfg))"
    and "\<forall>r\<in>set (batch_results env cfg). \<not> successful r"
  shows "statusCode (res (taitung_air_data env cfg)) = 200
       \<and> body_field (taitung_air_data env cfg) ''status'' = Some (JString ''success'')
       \<and> body_field (taitung_air_data env cfg) ''error'' = None
       \<and> body_field (taitung_air_data env cfg) ''data'' = Some (JArray [])
       \<and> body_field (taitung_air_data env cfg) ''summary'' = Some (JString (summary_text 0 0))"
proof -
  have "concat (map delivered (batch_results env cfg)) = []"
    using no_successful_delivers_nothing(1) [OF assms(3)] .
  then have "merged_sorted env (batch_results env cfg) = []"
    by (simp only: merged_sorted_def forEach_results_eq fst_conv Array_sort_def foldr.simps id_apply)
  moreover have "filter successful (batch_results env cfg) = []"
    using no_successful_delivers_nothing(2) [OF assms(3)] .
  ultimately show ?thesis
    using assms(1,2) by (simp add: taitung_air_data_success body_field_def)
qed

lemma results_upstream_down:
  "batch_results (env_of upstream_down) cfg = replicate 73 (Inr [])"
proof -
  have "map (\<lambda>i. fetch_result (upstream_down i)) [0 ..< 73] = map (\<lambda>i. Inr []) [0 ..< 73]"
    by (rule map_cong) (auto simp: upstream_down_def fetch_result_def)
  also have "\<dots> = replicate 73 (Inr [])"
    by (simp only: map_replicate_const length_upt) simp
  finally show ?thesis
    unfolding batch_results_by_index .
qed

theorem batch_all_failed_is_success_witness:
  "API_KEY cfg_17 \<noteq> []
   \<and> isValid (moment_of (env_of upstream_down) (REFERENCE_TIME_STR cfg_17))
   \<and> batch_results (env_of upstream_down) cfg_17 = replicate 73 (Inr [])
   \<and> statusCode (res (taitung_air_data (env_of upstream_down) cfg_17)) = 200
   \<and> body_field (taitung_air_data (env_of upstream_down) cfg_17) ''status''
       = Some (JString ''success'')
   \<and> body_field (taitung_air_data (env_of upstream_down) cfg_17) ''data'' = Some (JArray [])
   \<and> body_field (taitung_air_data (env_of upstream_down) cfg_17) ''summary''
       = Some (JString (summary_text 0 0))"
proof -
  have k: "API_KEY cfg_17 \<noteq> []"
    by (simp add: API_KEY_def cfg_17_def)
  have v: "isValid (moment_of (env_of upstream_down) (REFERENCE_TIME_STR cfg_17))"
    using valid_reference_17 by (simp add: env_of_def env_in_def cfg_17_def)
  have r: "\<forall>r\<in>set (batch_results (env_of upstream_down) cfg_17). \<not> successful r"
    by (simp add: results_upstream_down successful_def)
  show ?thesis
    using batch_all_failed_is_success [OF k v r] k v results_upstream_down [of cfg_17]
    by simp
qed

text \<open>
  C5.  When the credential is absent (the environment variable is not set, or is empty),
  the batch endpoint of either server answers with status 500 and the configuration error,
  and makes no upstream call.
\<close>

theorem batch_without_key_makes_no_call:
  assumes "process_env_API_KEY cfg = None \<or> process_env_API_KEY cfg = Some []"
  shows "statusCode (res (taitung_air_data env cfg)) = 500
       \<and> body_field (taitung_air_data env cfg) ''error'' = Some (JString msg_config_error)
       \<and> body_field (taitung_air_data env cfg) ''status'' = None
       \<and> calls (taitung_air_data env cfg) = []
       \<and> statusCode (res (taitung_air_data_004 env cfg)) = 500
       \<and> body_field (taitung_air_data_004 env cfg) ''error'' = Some (JString msg_config_error)
       \<and> calls (taitung_air_data_004 env cfg) = []"
proof -
  have "API_KEY cfg = []"
    using assms by (simp add: API_KEY_empty_iff)
  then show ?thesis
    by (simp add: taitung_air_data_def taitung_air_data_004_def
        taitung_air_data_handler_no_key body_field_def)
qed

theorem batch_without_key_makes_no_call_witness:
  "process_env_API_KEY cfg_no_key = None
   \<and> statusCode (res (taitung_air_data (env_of upstream_a) cfg_no_key)) = 500
   \<and> body_field (taitung_air_data (env_of upstream_a) cfg_no_key) ''error''
       = Some (JString msg_config_error)
   \<and> calls (taitung_air_data (env_of upstream_a) cfg_no_key) = []
   \<and> calls (taitung_air_data_004 (env_of upstream_a) cfg_no_key) = []"
proof -
  have n: "process_env_API_KEY cfg_no_key = None"
    by (simp add: cfg_no_key_def)
  then have "process_env_API_KEY cfg_no_key = None \<or> process_env_API_KEY cfg_no_key = Some []"
    by simp
  from batch_without_key_makes_no_call [OF this, of "env_of upstream_a"] n show ?thesis
    by simp
qed

text \<open>
  C8.  When the reference instant does not parse to a valid instant, the batch endpoint
  answers with an error status and an \<open>error\<close> field and makes no upstream call; with the
  credential present the answer is status 400 with the invalid-reference message.
\<close>

theorem batch_invalid_reference_makes_no_call:
  assumes "\<not> isValid (moment_of env (REFERENCE_TIME_STR cfg))"
  shows "calls (taitung_air_data env cfg) = []
       \<and> (statusCode (res (taitung_air_data env cfg)) = 400
            \<or> statusCode (res (taitung_air_data env cfg)) = 500)
       \<and> body_field (taitung_air_data env cfg) ''error'' \<noteq> None
       \<and> body_field (taitung_air_data env cfg) ''status'' = None
       \<and> (API_KEY cfg \<noteq> [] \<longrightarrow>
            res (taitung_air_data env cfg)
              = \<lparr>statusCode = 400, body = [(''error'', JString msg_reference_invalid)]\<rparr>)"
proof (cases "API_KEY cfg = []")
  case True
  then show ?thesis
    by (simp add: taitung_air_data_def taitung_air_data_handler_no_key body_field_def)
next
  case False
  with assms show ?thesis
    by (simp add: taitung_air_data_def taitung_air_data_handler_bad_reference body_field_def)
qed

lemma invalid_reference_example: "\<not> isValid (moment_parse zone_UTC ''2025-13-26 17:00'')"
  by code_simp

theorem batch_invalid_reference_makes_no_call_witness:
  "\<not> isValid (moment_of (env_of upstream_a) (REFERENCE_TIME_STR cfg_bad_reference))
   \<and> API_KEY cfg_bad_reference \<noteq> []
   \<and> calls (taitung_air_data (env_of upstream_a) cfg_bad_reference) = []
   \<and> res (taitung_air_data (env_of upstream_a) cfg_bad_reference)
       = \<lparr>statusCode = 400, body = [(''error'', JString msg_reference_invalid)]\<rparr>"
proof -
  have i: "\<not> isValid (moment_of (env_of upstream_a) (REFERENCE_TIME_STR cfg_bad_reference))"
    using invalid_reference_example by (simp add: env_of_def env_in_def cfg_bad_reference_def)
  have k: "API_KEY cfg_bad_reference \<noteq> []"
    by (simp add: API_KEY_def cfg_bad_reference_def)
  from batch_invalid_reference_makes_no_call [OF i] i k show ?thesis
    by simp
qed

section \<open>The per-instant fetch: properties\<close>

text \<open>
  C7.  A fetch of the batch path always settles fulfilled and makes exactly one upstream
  call (the log grows by the one request: no retry).  When the call fails (the client
  rejects on a network error or a status outside 2xx, or the body is \<open>null\<close> or not an
  object), the fetch is fulfilled with the empty list.  This holds for the
  \<^verbatim>\<open>fetchDataByTime\<close> of both servers, the later one under the credential that the batch
  handler has checked before it fetches.
\<close>

theorem fetch_failure_gives_empty_list:
  "(\<exists>v. fst (fetchDataByTime env cfg log t) = Inr v)
   \<and> snd (fetchDataByTime env cfg log t) = log @ [fetch_request cfg t]
   \<and> (failed_outcome (axios_get env log (fetch_request cfg t)) \<longrightarrow>
         fst (fetchDataByTime env cfg log t) = Inr [])
   \<and> (API_KEY cfg \<noteq> [] \<longrightarrow>
         (\<exists>v. fst (fetchDataByTime_004 env cfg log t) = Inr v)
         \<and> snd (fetchDataByTime_004 env cfg log t) = log @ [fetch_request cfg t]
         \<and> (failed_outcome (axios_get env log (fetch_request cfg t)) \<longrightarrow>
               fst (fetchDataByTime_004 env cfg log t) = Inr []))"
proof -
  have a: "\<exists>v. fst (fetchDataByTime env cfg log t) = Inr v"
    by (simp add: fetchDataByTime_result)
  have b: "snd (fetchDataByTime env cfg log t) = log @ [fetch_request cfg t]"
    by (rule fetchDataByTime_log)
  have c: "failed_outcome (axios_get env log (fetch_request cfg t)) \<longrightarrow>
             fst (fetchDataByTime env cfg log t) = Inr []"
    using fetchDataByTime_failed by blast
  have d: "fetchDataByTime_004 env cfg log t = fetchDataByTime env cfg log t" if "API_KEY cfg \<noteq> []"
    using that by (simp add: fetchDataByTime_004_eq)
  show ?thesis
    using a b c d by simp
qed

theorem fetch_failure_gives_empty_list_witness:
  "failed_outcome (axios_get (env_of upstream_down) [] (fetch_request cfg_17 TEST_DATE))
   \<and> API_KEY cfg_17 \<noteq> []
   \<and> fetchDataByTime (env_of upstream_down) cfg_17 [] TEST_DATE
       = (Inr [], [fetch_request cfg_17 TEST_DATE])
   \<and> fetchDataByTime_004 (env_of upstream_down) cfg_17 [] TEST_DATE
       = (Inr [], [fetch_request cfg_17 TEST_DATE])"
proof -
  have f: "failed_outcome (axios_get (env_of upstream_down) [] (fetch_request cfg_17 TEST_DATE))"
    by (simp add: env_of_def env_in_def upstream_down_def failed_outcome_def)
  have k: "API_KEY cfg_17 \<noteq> []"
    by (simp add: API_KEY_def cfg_17_def)
  from fetch_failure_gives_empty_list [of "env_of upstream_down" cfg_17 "[]" TEST_DATE] f k
  have "fst (fetchDataByTime (env_of upstream_down) cfg_17 [] TEST_DATE) = Inr []"
    and "snd (fetchDataByTime (env_of upstream_down) cfg_17 [] TEST_DATE)
           = [] @ [fetch_request cfg_17 TEST_DATE]"
    and "fst (fetchDataByTime_004 (env_of upstream_down) cfg_17 [] TEST_DATE) = Inr []"
    and "snd (fetchDataByTime_004 (env_of upstream_down) cfg_17 [] TEST_DATE)
           = [] @ [fetch_request cfg_17 TEST_DATE]"
    by blast+
  with f k show ?thesis
    by (simp add: prod_eq_iff)
qed

section \<open>The window of the later server\<close>

lemma parse_reference_004:
  "moment_parse tz REFERENCE_TIME_STR_004 = \<lparr>isValid = True, utc_ms = UTC tz 1764115200000\<rparr>"
  "moment_parse tz ''2025-11-24 12:00'' = \<lparr>isValid = True, utc_ms = UTC tz 1763985600000\<rparr>"
  "moment_parse tz ''2025-11-27 12:00'' = \<lparr>isValid = True, utc_ms = UTC tz 1764244800000\<rparr>"
  by (simp_all add: REFERENCE_TIME_STR_004_def moment_parse_chars digit_val_def upt_conv_Cons
      createFromFields_def createDate_def MakeDate_def days_from_civil_def daysInMonth_def
      isLeapYear_def ms_per_hour_def)

lemma render_window_ends_004:
  "render_hour 489996 = ''2025-11-24 12:00''"
  "render_hour 490068 = ''2025-11-27 12:00''"
  by code_simp+

text \<open>
  C9.  The later batch server is written with the reference \<open>2025-11-26 00:00\<close>.  In every
  time zone that has one offset from UTC, of a day at most, from 2025-11-23 to 2025-11-29
  (UTC, Asia/Taipei and America/New_York are such zones), the first element of its window
  is the text \<open>2025-11-24 12:00\<close> and the last is \<open>2025-11-27 12:00\<close>; they are the instants
  36 hours before and after the reference, and they are what the endpoint reports as the
  start and the end of its time range.
\<close>

theorem window_of_reference_004:
  assumes "\<forall>t isUTC. 1763856000000 \<le> t \<and> t \<le> 1764374400000 \<longrightarrow> tz t isUTC = c"
    and "- ms_per_day \<le> c" and "c \<le> ms_per_day"
  shows "REFERENCE_TIME_STR_004 = ''2025-11-26 00:00''
   \<and> isValid (moment_parse tz REFERENCE_TIME_STR_004)
   \<and> hd (allMonitorTimes tz (moment_parse tz REFERENCE_TIME_STR_004)) = ''2025-11-24 12:00''
   \<and> last (allMonitorTimes tz (moment_parse tz REFERENCE_TIME_STR_004)) = ''2025-11-27 12:00''
   \<and> moment_parse tz ''2025-11-24 12:00''
       = add_hours (moment_parse tz REFERENCE_TIME_STR_004) (- 36)
   \<and> moment_parse tz ''2025-11-27 12:00''
       = add_hours (moment_parse tz REFERENCE_TIME_STR_004) 36
   \<and> body_field (taitung_air_data_004 (env_in tz upstream_a) cfg_00) ''time_range_start''
       = Some (JString ''2025-11-24 12:00'')
   \<and> body_field (taitung_air_data_004 (env_in tz upstream_a) cfg_00) ''time_range_end''
       = Some (JString ''2025-11-27 12:00'')"
proof -
  let ?R = "moment_parse tz REFERENCE_TIME_STR_004"
  have off: "tz t b = c" if "1763856000000 \<le> t" and "t \<le> 1764374400000" for t b
    using assms(1) that by blast
  have c: "- 86400000 \<le> c" "c \<le> 86400000"
    using assms(2,3) by (simp_all add: ms_per_day_def)
  have u: "UTC tz 1764115200000 = 1764115200000 - c"
    "UTC tz 1763985600000 = 1763985600000 - c"
    "UTC tz 1764244800000 = 1764244800000 - c"
    by (simp_all add: UTC_def off)
  have l: "LocalTime tz (1763985600000 - c) = 1763985600000"
    "LocalTime tz (1764244800000 - c) = 1764244800000"
    using c by (simp_all add: LocalTime_def off)
  have R: "?R = \<lparr>isValid = True, utc_ms = 1764115200000 - c\<rparr>"
    by (simp add: parse_reference_004 u)
  have v: "isValid ?R"
    by (simp add: R)
  have n0: "allMonitorTimes tz ?R ! 0 = ''2025-11-24 12:00''"
    using allMonitorTimes_nth [of 0 tz ?R]
    by (simp add: R add_hours_def format_hour_render hour_index_def ms_per_hour_def l
        render_window_ends_004)
  have n72: "allMonitorTimes tz ?R ! 72 = ''2025-11-27 12:00''"
    using allMonitorTimes_nth [of 72 tz ?R]
    by (simp add: R add_hours_def format_hour_render hour_index_def ms_per_hour_def l
        render_window_ends_004)
  have first: "hd (allMonitorTimes tz ?R) = ''2025-11-24 12:00''"
    using n0 by (simp add: hd_conv_nth allMonitorTimes_nonempty)
  have final: "last (allMonitorTimes tz ?R) = ''2025-11-27 12:00''"
    using n72 by (simp add: last_conv_nth allMonitorTimes_nonempty length_allMonitorTimes)
  have before: "moment_parse tz ''2025-11-24 12:00'' = add_hours ?R (- 36)"
    by (simp add: parse_reference_004(2) u R add_hours_def ms_per_hour_def)
  have after: "moment_parse tz ''2025-11-27 12:00'' = add_hours ?R 36"
    by (simp add: parse_reference_004(3) u R add_hours_def ms_per_hour_def)
  have k: "API_KEY cfg_00 \<noteq> []"
    by (simp add: API_KEY_def cfg_00_def)
  have r: "moment_of (env_in tz upstream_a) (REFERENCE_TIME_STR cfg_00) = ?R"
    "LocalTZA (env_in tz upstream_a) = tz"
    by (simp_all add: env_in_def cfg_00_def)
  have run: "body_field (taitung_air_data_004 (env_in tz upstream_a) cfg_00) ''time_range_start''
               = Some (JString ''2025-11-24 12:00'')"
    "body_field (taitung_air_data_004 (env_in tz upstream_a) cfg_00) ''time_range_end''
               = Some (JString ''2025-11-27 12:00'')"
    using k v n0 n72
    by (simp_all add: taitung_air_data_004_eq taitung_air_data_success r body_field_def)
  show ?thesis
    using v first final before after run by (simp add: REFERENCE_TIME_STR_004_def)
qed

theorem window_of_reference_004_witness:
  "zone_New_York 1763856000000 True = - 18000000
   \<and> zone_New_York 1764374400000 False = - 18000000
   \<and> zone_UTC 1763856000000 True = 0
   \<and> moment_parse zone_New_York REFERENCE_TIME_STR_004
       = \<lparr>isValid = True, utc_ms = 1764133200000\<rparr>
   \<and> hd (allMonitorTimes zone_New_York (moment_parse zone_New_York REFERENCE_TIME_STR_004))
       = ''2025-11-24 12:00''
   \<and> last (allMonitorTimes zone_New_York (moment_parse zone_New_York REFERENCE_TIME_STR_004))
       = ''2025-11-27 12:00''
   \<and> moment_parse zone_New_York ''2025-11-24 12:00''
       = add_hours (moment_parse zone_New_York REFERENCE_TIME_STR_004) (- 36)
   \<and> moment_parse zone_New_York ''2025-11-27 12:00''
       = add_hours (moment_parse zone_New_York REFERENCE_TIME_STR_004) 36
   \<and> body_field (taitung_air_data_004 (env_in zone_New_York upstream_a) cfg_00)
         ''time_range_start''
       = Some (JString ''2025-11-24 12:00'')
   \<and> body_field (taitung_air_data_004 (env_in zone_New_York upstream_a) cfg_00)
         ''time_range_end''
       = Some (JString ''2025-11-27 12:00'')
   \<and> isValid (moment_parse zone_UTC REFERENCE_TIME_STR_004)
   \<and> hd (allMonitorTimes zone_UTC (moment_parse zone_UTC REFERENCE_TIME_STR_004))
       = ''2025-11-24 12:00''
   \<and> last (allMonitorTimes zone_UTC (moment_parse zone_UTC REFERENCE_TIME_STR_004))
       = ''2025-11-27 12:00''
   \<and> body_field (taitung_air_data_004 (env_of upstream_a) cfg_00) ''time_range_start''
       = Some (JString ''2025-11-24 12:00'')
   \<and> body_field (taitung_air_data_004 (env_of upstream_a) cfg_00) ''time_range_end''
       = Some (JString ''2025-11-27 12:00'')"
proof -
  have ny: "\<forall>t isUTC. 1763856000000 \<le> t \<and> t \<le> 1764374400000
              \<longrightarrow> zone_New_York t isUTC = - 18000000"
    by (simp add: zone_New_York_def ms_per_hour_def)
  have utc: "\<forall>t isUTC. 1763856000000 \<le> t \<and> t \<le> 1764374400000 \<longrightarrow> zone_UTC t isUTC = 0"
    by (simp add: zone_UTC_def)
  have b: "- ms_per_day \<le> - 18000000" "- 18000000 \<le> ms_per_day" "- ms_per_day \<le> 0"
    "0 \<le> ms_per_day"
    by (simp_all add: ms_per_day_def)
  have p: "moment_parse zone_New_York REFERENCE_TIME_STR_004
             = \<lparr>isValid = True, utc_ms = 1764133200000\<rparr>"
    by (simp add: parse_reference_004 UTC_def zone_New_York_def ms_per_hour_def)
  have z: "zone_New_York 1763856000000 True = - 18000000"
    "zone_New_York 1764374400000 False = - 18000000" "zone_UTC 1763856000000 True = 0"
    by (simp_all add: zone_New_York_def zone_UTC_def ms_per_hour_def)
  from window_of_reference_004 [OF ny b(1,2)] window_of_reference_004 [OF utc b(3,4)] z p
  show ?thesis
    by (simp add: env_of_def)
qed

section \<open>The single-record test endpoint: properties\<close>

lemma test_request_eq:
  "\<lparr>url = BASE_URL,
    params = [(''api_key'', API_KEY cfg), (''sitename'', SITE_NAME), (''county'', COUNTY_NAME),
              (''monitordate'', TEST_DATE), (''limit'', ''1000''), (''format'', ''json'')]\<rparr>
     = fetch_request cfg TEST_DATE"
  by (simp add: fetch_request_def)

text \<open>The earlier test endpoint answers a rejected call with status 500 and the tag
  \<open>error\<close>.\<close>

lemma test_single_record_002_surfaces:
  assumes "API_KEY cfg \<noteq> []"
    and "axios_get env [] (fetch_request cfg TEST_DATE) = Rejected e"
  shows "test_single_record_002 env cfg =
           \<lparr>res = test_failure e, calls = [fetch_request cfg TEST_DATE]\<rparr>"
  using assms by (simp add: test_single_record_002_def test_request_eq get_records_def)

text \<open>The later test endpoint answers every failed call with the success response of an
  empty record list: the \<^verbatim>\<open>catch\<close> of \<^verbatim>\<open>fetchDataByTime\<close> has already turned the failure
  into the empty list, and the endpoint's own \<^verbatim>\<open>catch\<close> is never reached.\<close>

lemma test_single_record_004_swallows:
  assumes "API_KEY cfg \<noteq> []"
    and "failed_outcome (axios_get env [] (fetch_request cfg TEST_DATE))"
  shows "test_single_record_004 env cfg =
           \<lparr>res = test_success [], calls = [fetch_request cfg TEST_DATE]\<rparr>"
proof -
  have "fetchDataByTime_004 env cfg [] TEST_DATE = (Inr [], [fetch_request cfg TEST_DATE])"
    using assms fetchDataByTime_failed [of env "[]" cfg TEST_DATE]
      fetchDataByTime_log [of env cfg "[]" TEST_DATE]
    by (simp add: fetchDataByTime_004_eq prod_eq_iff)
  with assms(1) show ?thesis
    by (simp add: test_single_record_004_def)
qed

lemma test_single_record_004_never_fails:
  assumes "API_KEY cfg \<noteq> []"
  shows "statusCode (res (test_single_record_004 env cfg)) = 200"
proof -
  obtain v where "fst (fetchDataByTime env cfg [] TEST_DATE) = Inr v"
    by (simp add: fetchDataByTime_result)
  then obtain log where "fetchDataByTime_004 env cfg [] TEST_DATE = (Inr v, log)"
    using assms by (cases "fetchDataByTime env cfg [] TEST_DATE") (simp add: fetchDataByTime_004_eq)
  with assms show ?thesis
    by (simp add: test_single_record_004_def test_success_def)
qed

text \<open>
  C6, at a refused connection with the credential set: the later test endpoint answers
  with status 200, the tag \<open>success\<close> and no records, as the batch endpoint does, while the
  earlier test endpoint answers with status 500 and the tag \<open>error\<close>.
\<close>

theorem test_endpoint_004_hides_failure:
  "axios_get (env_of upstream_down) [] (fetch_request cfg_17 TEST_DATE) = Rejected network_error
   \<and> statusCode (res (test_single_record_004 (env_of upstream_down) cfg_17)) = 200
   \<and> body_field (test_single_record_004 (env_of upstream_down) cfg_17) ''status''
       = Some (JString ''success'')
   \<and> body_field (test_single_record_004 (env_of upstream_down) cfg_17) ''total_records_found''
       = Some (JNumber 0)
   \<and> body_field (test_single_record_004 (env_of upstream_down) cfg_17) ''all_records_for_test''
       = Some (JArray [])
   \<and> statusCode (res (test_single_record_002 (env_of upstream_down) cfg_17)) = 500
   \<and> body_field (test_single_record_002 (env_of upstream_down) cfg_17) ''status''
       = Some (JString ''error'')
   \<and> statusCode (res (taitung_air_data (env_of upstream_down) cfg_17)) = 200
   \<and> body_field (taitung_air_data (env_of upstream_down) cfg_17) ''data'' = Some (JArray [])"
proof -
  have k: "API_KEY cfg_17 \<noteq> []"
    by (simp add: API_KEY_def cfg_17_def)
  have o: "axios_get (env_of upstream_down) [] (fetch_request cfg_17 TEST_DATE)
             = Rejected network_error"
    by (simp add: env_of_def env_in_def upstream_down_def)
  have f: "failed_outcome (axios_get (env_of upstream_down) [] (fetch_request cfg_17 TEST_DATE))"
    by (simp add: o failed_outcome_def)
  have v: "isValid (moment_of (env_of upstream_down) (REFERENCE_TIME_STR cfg_17))"
    using valid_reference_17 by (simp add: env_of_def env_in_def cfg_17_def)
  have m: "merged_sorted (env_of upstream_down) (batch_results (env_of upstream_down) cfg_17) = []"
    by (simp add: results_upstream_down merged_sorted_def forEach_results_eq delivered_def
        Array_sort_def)
  show ?thesis
    using o m
    by (simp add: test_single_record_004_swallows [OF k f]
        test_single_record_002_surfaces [OF k o] taitung_air_data_success [OF k v]
        body_field_def test_success_def test_failure_def)
qed

section \<open>Sorting by date: properties\<close>

lemma SortCompare_by_monitordate:
  assumes "Date_of env ''monitordate'' a = Some x" and "Date_of env ''monitordate'' b = Some y"
  shows "(SortCompare (by_monitordate env) a b \<le> 0) = (x \<le> y)"
  using assms by (simp add: SortCompare_def by_monitordate_def date_minus_def)

lemma SortCompare_by_publishtime_desc:
  assumes "Date_of env ''publishtime'' a = Some x" and "Date_of env ''publishtime'' b = Some y"
  shows "(SortCompare (by_publishtime_desc env) a b \<le> 0) = (- x \<le> - y)"
  using assms by (simp add: SortCompare_def by_publishtime_desc_def date_minus_def)

text \<open>Where every date is valid, the engine's sort by \<^verbatim>\<open>monitordate\<close> is the stable sort by
  the time value.\<close>

lemma Array_sort_by_monitordate:
  assumes "\<forall>r\<in>set xs. Date_of env ''monitordate'' r \<noteq> None"
  shows "Array_sort (by_monitordate env) xs = sort_key (\<lambda>r. the (Date_of env ''monitordate'' r)) xs"
proof (rule Array_sort_sort_key)
  fix a b
  assume "a \<in> set xs" and "b \<in> set xs"
  with assms have "Date_of env ''monitordate'' a \<noteq> None" and "Date_of env ''monitordate'' b \<noteq> None"
    by blast+
  then obtain x y where "Date_of env ''monitordate'' a = Some x"
    and "Date_of env ''monitordate'' b = Some y"
    by (cases "Date_of env ''monitordate'' a"; cases "Date_of env ''monitordate'' b") auto
  then show "(SortCompare (by_monitordate env) a b \<le> 0) =
               (the (Date_of env ''monitordate'' a) \<le> the (Date_of env ''monitordate'' b))"
    by (simp add: SortCompare_by_monitordate)
qed

lemma Array_sort_by_publishtime_desc:
  assumes "\<forall>r\<in>set xs. Date_of env ''publishtime'' r \<noteq> None"
  shows "Array_sort (by_publishtime_desc env) xs
           = sort_key (\<lambda>r. - the (Date_of env ''publishtime'' r)) xs"
proof (rule Array_sort_sort_key)
  fix a b
  assume "a \<in> set xs" and "b \<in> set xs"
  with assms have "Date_of env ''publishtime'' a \<noteq> None" and "Date_of env ''publishtime'' b \<noteq> None"
    by blast+
  then obtain x y where "Date_of env ''publishtime'' a = Some x"
    and "Date_of env ''publishtime'' b = Some y"
    by (cases "Date_of env ''publishtime'' a"; cases "Date_of env ''publishtime'' b") auto
  then show "(SortCompare (by_publishtime_desc env) a b \<le> 0) =
               (- the (Date_of env ''publishtime'' a) \<le> - the (Date_of env ''publishtime'' b))"
    by (simp add: SortCompare_by_publishtime_desc)
qed

lemma map_Some_the:
  assumes "\<forall>r\<in>set xs. f r \<noteq> None"
  shows "map f xs = map Some (map (\<lambda>r. the (f r)) xs)"
  using assms by (induction xs) auto

lemma map_key_sort_key:
  fixes k :: "'a \<Rightarrow> int"
  shows "map k (sort_key k xs) = sort (map k xs)"
proof -
  have "mset (map k (sort_key k xs)) = mset (map k xs)"
    by simp
  moreover have "sorted (map k (sort_key k xs))"
    by (rule sorted_sort_key)
  ultimately have "sort (map k xs) = map k (sort_key k xs)"
    by (rule properties_for_sort)
  then show ?thesis
    by simp
qed

lemma mset_concat_map_cong:
  assumes "mset ys = mset xs"
  shows "mset (concat (map f ys)) = mset (concat (map f xs))"
proof -
  have "mset (concat (map f zs)) = (\<Sum>z\<in>#mset zs. mset (f z))" for zs
    by (induction zs) auto
  with assms show ?thesis
    by simp
qed

lemma merged_sorted_eq:
  "merged_sorted env results = Array_sort (by_monitordate env) (concat (map delivered results))"
  by (simp add: merged_sorted_def forEach_results_eq)

lemma concat_nonempty: "concat xss = concat (filter (\<lambda>l. l \<noteq> []) xss)"
  by (induction xss) auto

lemma short_list_by_mset:
  assumes "mset ys = mset xs" and "length xs \<le> 1"
  shows "ys = xs"
proof (cases xs)
  case Nil
  with assms(1) show ?thesis by simp
next
  case (Cons x zs)
  with assms(2) have "xs = [x]" by simp
  with assms(1) show ?thesis by (simp add: mset_single_iff_right)
qed

lemma filter_concat_one_source:
  assumes "mset rs' = mset rs"
    and "length (filter (\<lambda>r. \<exists>a\<in>set (g r). P a) rs) \<le> 1"
  shows "filter P (concat (map g rs')) = filter P (concat (map g rs))"
proof -
  let ?has = "\<lambda>r. \<exists>a\<in>set (g r). P a"
  have shape: "filter P (concat (map g zs)) = concat (map (\<lambda>r. filter P (g r)) (filter ?has zs))"
    for zs
    by (induction zs) (auto simp: filter_empty_conv)
  have "mset (filter ?has rs') = mset (filter ?has rs)"
    using assms(1) by simp
  then have "filter ?has rs' = filter ?has rs"
    using assms(2) by (rule short_list_by_mset)
  then show ?thesis
    by (simp only: shape)
qed

lemma sort_key_order_irrelevant:
  fixes k :: "'a \<Rightarrow> int"
  assumes "mset rs' = mset rs"
    and "\<And>t. length (filter (\<lambda>r. \<exists>a\<in>set (g r). k a = t) rs) \<le> 1"
  shows "sort_key k (concat (map g rs')) = sort_key k (concat (map g rs))"
proof (rule properties_for_sort_key)
  have "mset (concat (map g rs')) = mset (concat (map g rs))"
    using assms(1) by (rule mset_concat_map_cong)
  then show "mset (sort_key k (concat (map g rs))) = mset (concat (map g rs'))"
    by simp
  show "sorted (map k (sort_key k (concat (map g rs))))"
    by (rule sorted_sort_key)
  fix x
  have "filter (\<lambda>a. k a = k x) (sort_key k (concat (map g rs)))
          = filter (\<lambda>a. k a = k x) (concat (map g rs))"
    by (rule sort_key_stable)
  also have "\<dots> = filter (\<lambda>a. k a = k x) (concat (map g rs'))"
    using assms(1) assms(2) [of "k x"] by (rule filter_concat_one_source [symmetric])
  finally show "filter (\<lambda>a. k x = k a) (sort_key k (concat (map g rs)))
          = filter (\<lambda>a. k x = k a) (concat (map g rs'))"
    by (simp add: eq_commute [of "k x"])
qed

text \<open>
  C3, as the code has it.  Where every fetched record has a \<^verbatim>\<open>monitordate\<close> that the engine
  parses as a date: the output of the merge is ascending in the records' own time values,
  and records of one time value keep the order in which they were fetched.  When the
  per-fetch result lists are supplied in another order, the output holds the same records
  with the same sequence of time values; it is the same sequence when no time value occurs
  in the results of two different fetches, and also when no two different fetched records
  have one time value.  The data of the batch endpoint is this output for the results of
  its fetches.
\<close>

theorem merge_sorted_by_monitordate:
  assumes "\<forall>r\<in>set (concat (map delivered results)). Date_of env ''monitordate'' r \<noteq> None"
    and "mset results' = mset results"
    and "API_KEY cfg \<noteq> []"
    and "isValid (moment_of env (REFERENCE_TIME_STR cfg))"
  shows "body_field (taitung_air_data env cfg) ''data''
           = Some (JArray (merged_sorted env (batch_results env cfg)))
       \<and> (\<exists>ts. map (Date_of env ''monitordate'') (merged_sorted env results) = map Some ts
                \<and> sorted ts)
       \<and> (\<forall>t. filter (\<lambda>r. Date_of env ''monitordate'' r = Some t) (merged_sorted env results)
                = filter (\<lambda>r. Date_of env ''monitordate'' r = Some t)
                    (concat (map delivered results)))
       \<and> mset (merged_sorted env results') = mset (merged_sorted env results)
       \<and> map (Date_of env ''monitordate'') (merged_sorted env results')
           = map (Date_of env ''monitordate'') (merged_sorted env results)
       \<and> ((\<forall>t. length (filter (\<lambda>r. \<exists>a\<in>set (delivered r).
                                     Date_of env ''monitordate'' a = Some t) results) \<le> 1) \<longrightarrow>
             merged_sorted env results' = merged_sorted env results)
       \<and> (inj_on (Date_of env ''monitordate'') (set (concat (map delivered results))) \<longrightarrow>
             merged_sorted env results' = merged_sorted env results)"
proof -
  let ?d = "Date_of env ''monitordate''"
  let ?k = "\<lambda>r. the (?d r)"
  let ?xs = "concat (map delivered results)"
  let ?ys = "concat (map delivered results')"
  have ms: "mset ?ys = mset ?xs"
    using assms(2) by (rule mset_concat_map_cong)
  then have sets: "set ?ys = set ?xs"
    by (rule mset_eq_setD)
  have dx: "\<forall>r\<in>set ?xs. ?d r \<noteq> None"
    using assms(1) .
  have dy: "\<forall>r\<in>set ?ys. ?d r \<noteq> None"
    using assms(1) sets by simp
  have sx: "merged_sorted env results = sort_key ?k ?xs"
    using dx by (simp add: merged_sorted_eq Array_sort_by_monitordate)
  have sy: "merged_sorted env results' = sort_key ?k ?ys"
    using dy by (simp add: merged_sorted_eq Array_sort_by_monitordate)
  have c1: "body_field (taitung_air_data env cfg) ''data''
              = Some (JArray (merged_sorted env (batch_results env cfg)))"
    using assms(3,4) by (simp add: taitung_air_data_success body_field_def)
  have ox: "\<forall>r\<in>set (sort_key ?k ?xs). ?d r \<noteq> None"
    using dx by simp
  have c2: "\<exists>ts. map ?d (merged_sorted env results) = map Some ts \<and> sorted ts"
  proof (intro exI conjI)
    show "map ?d (merged_sorted env results) = map Some (map ?k (sort_key ?k ?xs))"
      unfolding sx using ox by (rule map_Some_the)
    show "sorted (map ?k (sort_key ?k ?xs))"
      by (rule sorted_sort_key)
  qed
  have c3: "filter (\<lambda>r. ?d r = Some t) (merged_sorted env results)
              = filter (\<lambda>r. ?d r = Some t) ?xs" for t
  proof -
    have "filter (\<lambda>r. ?d r = Some t) zs = filter (\<lambda>r. ?d r \<noteq> None) (filter (\<lambda>r. ?k r = t) zs)" for zs
      by (induction zs) auto
    then show ?thesis
      unfolding sx by (simp only: sort_key_stable)
  qed
  have c4: "mset (merged_sorted env results') = mset (merged_sorted env results)"
    using ms by (simp add: sx sy)
  have keys: "map ?k (merged_sorted env results') = map ?k (merged_sorted env results)"
  proof -
    have "mset (map ?k ?ys) = mset (map ?k ?xs)"
      using ms by simp
    moreover have "sorted (sort (map ?k ?xs))" and "mset (sort (map ?k ?xs)) = mset (map ?k ?xs)"
      by simp_all
    ultimately have "sort (map ?k ?ys) = sort (map ?k ?xs)"
      by (intro properties_for_sort) simp_all
    then show ?thesis
      by (simp add: sx sy map_key_sort_key)
  qed
  have oy: "\<forall>r\<in>set (sort_key ?k ?ys). ?d r \<noteq> None"
    using dy by simp
  have c5: "map ?d (merged_sorted env results') = map ?d (merged_sorted env results)"
  proof -
    have "map ?d (merged_sorted env results') = map Some (map ?k (merged_sorted env results'))"
      unfolding sy using oy by (rule map_Some_the)
    also have "\<dots> = map Some (map ?k (merged_sorted env results))"
      by (simp only: keys)
    also have "\<dots> = map ?d (merged_sorted env results)"
      unfolding sx using ox by (rule map_Some_the [symmetric])
    finally show ?thesis .
  qed
  have c6: "merged_sorted env results' = merged_sorted env results"
    if inj: "inj_on ?d (set ?xs)"
  proof -
    have "inj_on ?k (set ?xs)"
    proof (rule inj_onI)
      fix a b
      assume a: "a \<in> set ?xs" and b: "b \<in> set ?xs" and e: "?k a = ?k b"
      from a b dx have "?d a \<noteq> None" and "?d b \<noteq> None"
        by blast+
      then obtain x y where "?d a = Some x" and "?d b = Some y"
        by (cases "?d a"; cases "?d b") auto
      with e have eq: "?d a = ?d b"
        by simp
      from inj eq a b show "a = b"
        by (rule inj_onD)
    qed
    then have "inj_on ?k (set ?ys)"
      using sets by simp
    with ms have "sort_key ?k ?ys = sort_key ?k ?xs"
      by (rule sort_key_eq_sort_key)
    then show ?thesis
      by (simp add: sx sy)
  qed
  have c7: "merged_sorted env results' = merged_sorted env results"
    if once: "\<forall>t. length (filter (\<lambda>r. \<exists>a\<in>set (delivered r). ?d a = Some t) results) \<le> 1"
  proof -
    have "filter (\<lambda>r. \<exists>a\<in>set (delivered r). ?k a = t) results
            = filter (\<lambda>r. \<exists>a\<in>set (delivered r). ?d a = Some t) results" for t
    proof (rule filter_cong [OF refl])
      fix r
      assume r: "r \<in> set results"
      have "(?k a = t) = (?d a = Some t)" if "a \<in> set (delivered r)" for a
      proof -
        from that r dx have "?d a \<noteq> None"
          by auto
        then show ?thesis
          by (cases "?d a") auto
      qed
      then show "(\<exists>a\<in>set (delivered r). ?k a = t) = (\<exists>a\<in>set (delivered r). ?d a = Some t)"
        by blast
    qed
    with once have "length (filter (\<lambda>r. \<exists>a\<in>set (delivered r). ?k a = t) results) \<le> 1" for t
      by simp
    with assms(2) have "sort_key ?k ?ys = sort_key ?k ?xs"
      by (rule sort_key_order_irrelevant)
    then show ?thesis
      by (simp add: sx sy)
  qed
  show ?thesis
  proof (intro conjI allI impI)
    show "body_field (taitung_air_data env cfg) ''data''
            = Some (JArray (merged_sorted env (batch_results env cfg)))"
      by (rule c1)
    show "merged_sorted env results' = merged_sorted env results"
      if "\<forall>t. length (filter (\<lambda>r. \<exists>a\<in>set (delivered r). ?d a = Some t) results) \<le> 1"
      using that by (rule c7)
    show "\<exists>ts. map ?d (merged_sorted env results) = map Some ts \<and> sorted ts"
      by (rule c2)
    show "filter (\<lambda>r. ?d r = Some t) (merged_sorted env results)
            = filter (\<lambda>r. ?d r = Some t) ?xs" for t
      by (rule c3)
    show "mset (merged_sorted env results') = mset (merged_sorted env results)"
      by (rule c4)
    show "map ?d (merged_sorted env results') = map ?d (merged_sorted env results)"
      by (rule c5)
    show "merged_sorted env results' = merged_sorted env results" if "inj_on ?d (set ?xs)"
      using that by (rule c6)
  qed
qed

lemma monitordate_examples:
  "Date_of (env_of f) ''monitordate'' rec_pm25 = Some 1764176400000"
  "Date_of (env_of f) ''monitordate'' rec_o3 = Some 1764176400000"
  "Date_of (env_of f) ''monitordate'' rec_early = Some 1764046800000"
  by (simp_all add: Date_of_def get_field_def env_of_def env_in_def Date_parse_local_def
      rec_pm25_def rec_o3_def rec_early_def parse_example_dates)

lemma publishtime_examples:
  "Date_of (env_of f) ''publishtime'' forecast_new = Some 1764174600000"
  "Date_of (env_of f) ''publishtime'' forecast_old = Some 1764153000000"
  by (simp_all add: Date_of_def get_field_def env_of_def env_in_def Date_parse_local_def
      forecast_new_def forecast_old_def parse_example_dates)

lemma sort_example_a:
  "Array_sort (by_monitordate (env_of f)) [rec_pm25, rec_o3, rec_early]
     = [rec_early, rec_pm25, rec_o3]"
  by (simp add: Array_sort_def SortCompare_by_monitordate [OF monitordate_examples(1) monitordate_examples(2)]
      SortCompare_by_monitordate [OF monitordate_examples(1) monitordate_examples(3)]
      SortCompare_by_monitordate [OF monitordate_examples(2) monitordate_examples(3)])

lemma sort_example_b:
  "Array_sort (by_monitordate (env_of f)) [rec_o3, rec_early, rec_pm25]
     = [rec_early, rec_o3, rec_pm25]"
  by (simp add: Array_sort_def SortCompare_by_monitordate [OF monitordate_examples(2) monitordate_examples(1)]
      SortCompare_by_monitordate [OF monitordate_examples(1) monitordate_examples(3)]
      SortCompare_by_monitordate [OF monitordate_examples(2) monitordate_examples(3)]
      SortCompare_by_monitordate [OF monitordate_examples(3) monitordate_examples(1)])

lemma sort_example_two:
  "Array_sort (by_monitordate (env_of f)) [rec_pm25, rec_early] = [rec_early, rec_pm25]"
  "Array_sort (by_monitordate (env_of f)) [rec_early, rec_pm25] = [rec_early, rec_pm25]"
  by (simp_all add: Array_sort_def
      SortCompare_by_monitordate [OF monitordate_examples(1) monitordate_examples(3)]
      SortCompare_by_monitordate [OF monitordate_examples(3) monitordate_examples(1)])

lemma results_upstream_b:
  "batch_results (env_of upstream_b) cfg =
     Inr [rec_o3, rec_early] # Inr [rec_pm25] # replicate 71 (Inr [])"
proof -
  have u: "[0 ..< 73] = 0 # 1 # [2 ..< 73]"
    by (simp add: upt_conv_Cons del: upt_Suc)
  have "map (\<lambda>i. fetch_result (upstream_b i)) [2 ..< 73] = map (\<lambda>i. Inr []) [2 ..< 73]"
    by (rule map_cong) (auto simp: upstream_b_def fetch_result_def)
  also have "\<dots> = replicate 71 (Inr [])"
    by (simp only: map_replicate_const length_upt) simp
  finally show ?thesis
    unfolding batch_results_by_index u
    by (simp add: upstream_b_def fetch_result_def)
qed

lemma concat_delivered_replicate: "concat (map delivered (replicate n (Inr []))) = []"
  by (induction n) (simp_all add: delivered_def)

theorem merge_sorted_by_monitordate_witness:
  "Date_of (env_of upstream_a) ''monitordate'' rec_pm25 = Some 1764176400000
   \<and> Date_of (env_of upstream_a) ''monitordate'' rec_o3 = Some 1764176400000
   \<and> Date_of (env_of upstream_a) ''monitordate'' rec_early = Some 1764046800000
   \<and> mset [Inr [rec_early], Inr [rec_pm25, rec_o3]]
       = mset [Inr [rec_pm25, rec_o3], Inr [rec_early :: jsobject] :: js_error + jsobject list]
   \<and> (\<forall>t. length (filter (\<lambda>r. \<exists>a\<in>set (delivered r).
                                 Date_of (env_of upstream_a) ''monitordate'' a = Some t)
                        [Inr [rec_pm25, rec_o3], Inr [rec_early]]) \<le> 1)
   \<and> inj_on (Date_of (env_of upstream_a) ''monitordate'')
        (set (concat (map delivered [Inr [rec_pm25], Inr [rec_early]])))
   \<and> API_KEY cfg_17 \<noteq> []
   \<and> isValid (moment_of (env_of upstream_a) (REFERENCE_TIME_STR cfg_17))
   \<and> merged_sorted (env_of upstream_a) [Inr [rec_pm25, rec_o3], Inr [rec_early]]
       = [rec_early, rec_pm25, rec_o3]
   \<and> merged_sorted (env_of upstream_a) [Inr [rec_early], Inr [rec_pm25, rec_o3]]
       = [rec_early, rec_pm25, rec_o3]
   \<and> merged_sorted (env_of upstream_a) [Inr [rec_pm25], Inr [rec_early]] = [rec_early, rec_pm25]
   \<and> merged_sorted (env_of upstream_a) [Inr [rec_early], Inr [rec_pm25]] = [rec_early, rec_pm25]
   \<and> body_field (taitung_air_data (env_of upstream_a) cfg_17) ''data''
       = Some (JArray [rec_early, rec_pm25, rec_o3])"
proof -
  let ?e = "env_of upstream_a"
  let ?d = "Date_of ?e ''monitordate''"
  let ?as = "[Inr [rec_pm25, rec_o3], Inr [rec_early]] :: (js_error + jsobject list) list"
  let ?as' = "[Inr [rec_early], Inr [rec_pm25, rec_o3]] :: (js_error + jsobject list) list"
  let ?rs = "[Inr [rec_pm25], Inr [rec_early]] :: (js_error + jsobject list) list"
  let ?rs' = "[Inr [rec_early], Inr [rec_pm25]] :: (js_error + jsobject list) list"
  have ca: "concat (map delivered ?as) = [rec_pm25, rec_o3, rec_early]"
    by (simp add: delivered_def)
  have c: "concat (map delivered ?rs) = [rec_pm25, rec_early]"
    by (simp add: delivered_def)
  have da: "\<forall>r\<in>set (concat (map delivered ?as)). ?d r \<noteq> None"
    unfolding ca by (simp add: monitordate_examples)
  have d: "\<forall>r\<in>set (concat (map delivered ?rs)). ?d r \<noteq> None"
    unfolding c by (simp add: monitordate_examples)
  have pa: "mset ?as' = mset ?as"
    by simp
  have p: "mset ?rs' = mset ?rs"
    by simp
  have once: "\<forall>t. length (filter (\<lambda>r. \<exists>a\<in>set (delivered r). ?d a = Some t) ?as) \<le> 1"
    by (auto simp: delivered_def monitordate_examples)
  have i: "inj_on ?d (set (concat (map delivered ?rs)))"
    unfolding c by (auto simp: inj_on_def monitordate_examples)
  have k: "API_KEY cfg_17 \<noteq> []"
    by (simp add: API_KEY_def cfg_17_def)
  have v: "isValid (moment_of ?e (REFERENCE_TIME_STR cfg_17))"
    using valid_reference_17 by (simp add: env_of_def env_in_def cfg_17_def)
  have ma: "merged_sorted ?e ?as = [rec_early, rec_pm25, rec_o3]"
    unfolding merged_sorted_eq ca by (rule sort_example_a)
  have m: "merged_sorted ?e ?rs = [rec_early, rec_pm25]"
    unfolding merged_sorted_eq c by (rule sort_example_two)
  have b: "merged_sorted ?e (batch_results ?e cfg_17) = [rec_early, rec_pm25, rec_o3]"
    by (simp add: merged_sorted_eq results_upstream_a delivered_def sort_example_a)
  from merge_sorted_by_monitordate [OF da pa k v] once
  have ea: "merged_sorted ?e ?as' = merged_sorted ?e ?as"
    by blast
  from merge_sorted_by_monitordate [OF d p k v] i
  have "merged_sorted ?e ?rs' = merged_sorted ?e ?rs"
    and "body_field (taitung_air_data ?e cfg_17) ''data''
           = Some (JArray (merged_sorted ?e (batch_results ?e cfg_17)))"
    by blast+
  with i k v m ma ea b once show ?thesis
    by (simp add: monitordate_examples)
qed

text \<open>
  C3 as stated fails where two fetches bring records of one time value: the two upstreams
  below settle the same result lists in a different order, and the data of the two
  responses differ in the order of the two records of 17:00.
\<close>

theorem merge_order_counterexample:
  "mset (batch_results (env_of upstream_b) cfg_17)
     = mset (batch_results (env_of upstream_a) cfg_17)
   \<and> body_field (taitung_air_data (env_of upstream_a) cfg_17) ''data''
       = Some (JArray [rec_early, rec_pm25, rec_o3])
   \<and> body_field (taitung_air_data (env_of upstream_b) cfg_17) ''data''
       = Some (JArray [rec_early, rec_o3, rec_pm25])
   \<and> [rec_early, rec_pm25, rec_o3] \<noteq> [rec_early, rec_o3, rec_pm25]"
proof -
  have k: "API_KEY cfg_17 \<noteq> []"
    by (simp add: API_KEY_def cfg_17_def)
  have va: "isValid (moment_of (env_of upstream_a) (REFERENCE_TIME_STR cfg_17))"
    and vb: "isValid (moment_of (env_of upstream_b) (REFERENCE_TIME_STR cfg_17))"
    using valid_reference_17 by (simp_all add: env_of_def env_in_def cfg_17_def)
  have a: "merged_sorted (env_of upstream_a) (batch_results (env_of upstream_a) cfg_17)
             = [rec_early, rec_pm25, rec_o3]"
    by (simp add: merged_sorted_eq results_upstream_a delivered_def sort_example_a)
  have b: "merged_sorted (env_of upstream_b) (batch_results (env_of upstream_b) cfg_17)
             = [rec_early, rec_o3, rec_pm25]"
    by (simp add: merged_sorted_eq results_upstream_b delivered_def sort_example_b)
  have p: "mset (batch_results (env_of upstream_b) cfg_17)
             = mset (batch_results (env_of upstream_a) cfg_17)"
    by (simp add: results_upstream_a results_upstream_b)
  show ?thesis
    using p a b distinct_examples
    by (simp add: taitung_air_data_success [OF k va] taitung_air_data_success [OF k vb]
        body_field_def)
qed

section \<open>The forecast endpoint: properties\<close>

lemma huadong_air_forecast_success:
  assumes "API_KEY cfg \<noteq> []"
    and "get_records env [] (forecast_request cfg (MOENV_API_BASE_URL @ RESOURCE_CODE)) = Inr allRecords"
  shows "res (huadong_air_forecast env cfg) =
           forecast_success (MOENV_API_BASE_URL @ RESOURCE_CODE) (length allRecords)
             (length (huadongRecords env allRecords))
             (if huadongRecords env allRecords = [] then JString msg_none_found
              else JArray (huadongRecords env allRecords))"
  using assms by (simp add: huadong_air_forecast_def Let_def)

lemma getHuadongAirForecast_success:
  assumes "API_KEY cfg \<noteq> []"
    and "get_records env [] (forecast_request cfg (MOENV_API_BASE_URL @ RESOURCE_CODE)) = Inr allRecords"
  shows "res (getHuadongAirForecast env cfg) =
           forecast_success (MOENV_API_BASE_URL @ RESOURCE_CODE) (length allRecords)
             (length (huadongRecords env allRecords))
             (if huadongRecords env allRecords = [] then JString msg_none_found
              else JArray (huadongRecords env allRecords))"
  using assms by (simp add: getHuadongAirForecast_def Let_def)

lemma huadong_air_forecast_004_success:
  assumes "API_KEY cfg \<noteq> []"
    and "get_records env [] (forecast_request cfg (MOENV_API_BASE_URL @ RESOURCE_ID)) = Inr allRecords"
  shows "res (huadong_air_forecast_004 env cfg) =
           forecast_success (MOENV_API_BASE_URL @ RESOURCE_ID) (length allRecords)
             (length (huadongRecords env allRecords)) (JArray (huadongRecords env allRecords))"
  using assms by (simp add: huadong_air_forecast_004_def Let_def)

lemma sorted_rev_of_negated:
  fixes ts :: "int list"
  assumes "sorted (map uminus ts)"
  shows "sorted (rev ts)"
proof -
  have "sorted_wrt (\<lambda>x y. y \<le> x) ts"
    using assms by (simp add: sorted_map)
  then show ?thesis
    by (simp add: sorted_wrt_rev)
qed

text \<open>
  C10, as the code has it.  On a successful upstream call with the credential set, each of
  the three servers of the forecast endpoint answers with status 200 and the tag
  \<open>success\<close>; where the \<^verbatim>\<open>publishtime\<close> of every record of the target area parses as a date,
  its data are the records of the target area sorted by \<^verbatim>\<open>publishtime\<close> newest first (the
  reverse of the ascending order of the batch endpoint), records of one time value in the
  upstream's order; two of the servers put a text in place of an empty array.
\<close>

theorem forecast_sorted_newest_first:
  assumes "API_KEY cfg \<noteq> []"
    and "\<forall>r\<in>set allRecords.
           get_field r ''area'' = Some TARGET_AREA \<longrightarrow> Date_of env ''publishtime'' r \<noteq> None"
  shows "(\<exists>ts. map (Date_of env ''publishtime'') (huadongRecords env allRecords) = map Some ts
               \<and> sorted (rev ts))
       \<and> mset (huadongRecords env allRecords)
           = mset (filter (\<lambda>r. get_field r ''area'' = Some TARGET_AREA) allRecords)
       \<and> (\<forall>t. filter (\<lambda>r. Date_of env ''publishtime'' r = Some t) (huadongRecords env allRecords)
                = filter (\<lambda>r. Date_of env ''publishtime'' r = Some t)
                    (filter (\<lambda>r. get_field r ''area'' = Some TARGET_AREA) allRecords))
       \<and> (get_records env [] (forecast_request cfg (MOENV_API_BASE_URL @ RESOURCE_CODE))
             = Inr allRecords \<longrightarrow>
           statusCode (res (huadong_air_forecast env cfg)) = 200
           \<and> body_field (huadong_air_forecast env cfg) ''status'' = Some (JString ''success'')
           \<and> body_field (huadong_air_forecast env cfg) ''data''
               = Some (if huadongRecords env allRecords = [] then JString msg_none_found
                       else JArray (huadongRecords env allRecords))
           \<and> statusCode (res (getHuadongAirForecast env cfg)) = 200
           \<and> body_field (getHuadongAirForecast env cfg) ''status'' = Some (JString ''success'')
           \<and> body_field (getHuadongAirForecast env cfg) ''data''
               = Some (if huadongRecords env allRecords = [] then JString msg_none_found
                       else JArray (huadongRecords env allRecords)))
       \<and> (get_records env [] (forecast_request cfg (MOENV_API_BASE_URL @ RESOURCE_ID))
             = Inr allRecords \<longrightarrow>
           statusCode (res (huadong_air_forecast_004 env cfg)) = 200
           \<and> body_field (huadong_air_forecast_004 env cfg) ''status'' = Some (JString ''success'')
           \<and> body_field (huadong_air_forecast_004 env cfg) ''data''
               = Some (JArray (huadongRecords env allRecords)))"
proof -
  let ?d = "Date_of env ''publishtime''"
  let ?k = "\<lambda>r. - the (?d r)"
  let ?fs = "filter (\<lambda>r. get_field r ''area'' = Some TARGET_AREA) allRecords"
  have dated: "\<forall>r\<in>set ?fs. ?d r \<noteq> None"
    using assms(2) by simp
  have hs: "huadongRecords env allRecords = sort_key ?k ?fs"
    using dated by (simp only: huadongRecords_def Array_sort_by_publishtime_desc)
  have out: "\<forall>r\<in>set (sort_key ?k ?fs). ?d r \<noteq> None"
    using dated by simp
  have c1: "\<exists>ts. map ?d (huadongRecords env allRecords) = map Some ts \<and> sorted (rev ts)"
  proof (intro exI conjI)
    show "map ?d (huadongRecords env allRecords)
            = map Some (map (\<lambda>r. the (?d r)) (sort_key ?k ?fs))"
      unfolding hs using out by (rule map_Some_the)
    have "sorted (map ?k (sort_key ?k ?fs))"
      by (rule sorted_sort_key)
    then have "sorted (map uminus (map (\<lambda>r. the (?d r)) (sort_key ?k ?fs)))"
      by (simp add: comp_def)
    then show "sorted (rev (map (\<lambda>r. the (?d r)) (sort_key ?k ?fs)))"
      by (rule sorted_rev_of_negated)
  qed
  have c2: "mset (huadongRecords env allRecords) = mset ?fs"
    by (simp add: hs)
  have c3: "filter (\<lambda>r. ?d r = Some t) (huadongRecords env allRecords)
              = filter (\<lambda>r. ?d r = Some t) ?fs" for t
  proof -
    have "filter (\<lambda>r. ?d r = Some t) zs
            = filter (\<lambda>r. ?d r \<noteq> None) (filter (\<lambda>r. ?k r = - t) zs)" for zs
      by (induction zs) auto
    then show ?thesis
      unfolding hs by (simp only: sort_key_stable)
  qed
  have c4: "statusCode (res (huadong_air_forecast env cfg)) = 200
           \<and> body_field (huadong_air_forecast env cfg) ''status'' = Some (JString ''success'')
           \<and> body_field (huadong_air_forecast env cfg) ''data''
               = Some (if huadongRecords env allRecords = [] then JString msg_none_found
                       else JArray (huadongRecords env allRecords))
           \<and> statusCode (res (getHuadongAirForecast env cfg)) = 200
           \<and> body_field (getHuadongAirForecast env cfg) ''status'' = Some (JString ''success'')
           \<and> body_field (getHuadongAirForecast env cfg) ''data''
               = Some (if huadongRecords env allRecords = [] then JString msg_none_found
                       else JArray (huadongRecords env allRecords))"
    if "get_records env [] (forecast_request cfg (MOENV_API_BASE_URL @ RESOURCE_CODE))
          = Inr allRecords"
    using huadong_air_forecast_success [OF assms(1) that]
      getHuadongAirForecast_success [OF assms(1) that]
    by (simp add: body_field_def forecast_success_def)
  have c5: "statusCode (res (huadong_air_forecast_004 env cfg)) = 200
           \<and> body_field (huadong_air_forecast_004 env cfg) ''status'' = Some (JString ''success'')
           \<and> body_field (huadong_air_forecast_004 env cfg) ''data''
               = Some (JArray (huadongRecords env allRecords))"
    if "get_records env [] (forecast_request cfg (MOENV_API_BASE_URL @ RESOURCE_ID))
          = Inr allRecords"
    using huadong_air_forecast_004_success [OF assms(1) that]
    by (simp add: body_field_def forecast_success_def)
  from c1 c2 c3 c4 c5 show ?thesis
    by (intro conjI allI impI) blast+
qed

lemma forecast_example_sorted:
  "huadongRecords (env_of f) [forecast_old, forecast_elsewhere, forecast_new]
     = [forecast_new, forecast_old]"
proof -
  have a: "get_field forecast_old ''area'' = Some TARGET_AREA"
    "get_field forecast_new ''area'' = Some TARGET_AREA"
    "get_field forecast_elsewhere ''area'' \<noteq> Some TARGET_AREA"
    by (simp_all add: get_field_def forecast_old_def forecast_new_def forecast_elsewhere_def
        TARGET_AREA_def)
  show ?thesis
    by (simp add: huadongRecords_def a Array_sort_def
        SortCompare_by_publishtime_desc [OF publishtime_examples(2) publishtime_examples(1)])
qed

theorem forecast_sorted_newest_first_witness:
  "API_KEY cfg_17 \<noteq> []
   \<and> Date_of (env_of upstream_forecast) ''publishtime'' forecast_new = Some 1764174600000
   \<and> Date_of (env_of upstream_forecast) ''publishtime'' forecast_old = Some 1764153000000
   \<and> get_field forecast_elsewhere ''area'' \<noteq> Some TARGET_AREA
   \<and> get_records (env_of upstream_forecast) []
         (forecast_request cfg_17 (MOENV_API_BASE_URL @ RESOURCE_CODE))
       = Inr [forecast_old, forecast_elsewhere, forecast_new]
   \<and> get_records (env_of upstream_forecast) []
         (forecast_request cfg_17 (MOENV_API_BASE_URL @ RESOURCE_ID))
       = Inr [forecast_old, forecast_elsewhere, forecast_new]
   \<and> body_field (huadong_air_forecast (env_of upstream_forecast) cfg_17) ''data''
       = Some (JArray [forecast_new, forecast_old])
   \<and> body_field (getHuadongAirForecast (env_of upstream_forecast) cfg_17) ''data''
       = Some (JArray [forecast_new, forecast_old])
   \<and> body_field (huadong_air_forecast_004 (env_of upstream_forecast) cfg_17) ''data''
       = Some (JArray [forecast_new, forecast_old])"
proof -
  let ?e = "env_of upstream_forecast"
  let ?all = "[forecast_old, forecast_elsewhere, forecast_new]"
  have k: "API_KEY cfg_17 \<noteq> []"
    by (simp add: API_KEY_def cfg_17_def)
  have el: "get_field forecast_elsewhere ''area'' \<noteq> Some TARGET_AREA"
    by (simp add: get_field_def forecast_elsewhere_def TARGET_AREA_def)
  have d: "\<forall>r\<in>set ?all. get_field r ''area'' = Some TARGET_AREA \<longrightarrow>
             Date_of ?e ''publishtime'' r \<noteq> None"
    by (simp add: el publishtime_examples)
  have g: "get_records ?e [] req = Inr ?all" for req
    by (simp add: get_records_def env_of_def env_in_def upstream_forecast_def data_records_def)
  from forecast_sorted_newest_first [OF k d] g
  have "body_field (huadong_air_forecast ?e cfg_17) ''data''
          = Some (if huadongRecords ?e ?all = [] then JString msg_none_found
                  else JArray (huadongRecords ?e ?all))"
    and "body_field (getHuadongAirForecast ?e cfg_17) ''data''
          = Some (if huadongRecords ?e ?all = [] then JString msg_none_found
                  else JArray (huadongRecords ?e ?all))"
    and "body_field (huadong_air_forecast_004 ?e cfg_17) ''data''
          = Some (JArray (huadongRecords ?e ?all))"
    by blast+
  with k el g show ?thesis
    by (simp add: forecast_example_sorted publishtime_examples)
qed

text \<open>
  C10 as stated fails where a record of the target area has a \<^verbatim>\<open>publishtime\<close> that does not
  parse.  Every comparison with such a record gives \<^verbatim>\<open>NaN\<close>, which the engine takes for 0:
  for the upstream below the engine of Node.js compares each record with the one before
  it, finds the array in order and leaves it as it is.  The three servers answer with
  status 200 and the tag \<open>success\<close>, and their data have the older of the two dated records
  before the newer.
\<close>

theorem forecast_undated_counterexample:
  "get_records (env_of upstream_undated) []
       (forecast_request cfg_17 (MOENV_API_BASE_URL @ RESOURCE_CODE))
     = Inr [forecast_old, forecast_undated, forecast_new]
   \<and> get_records (env_of upstream_undated) []
         (forecast_request cfg_17 (MOENV_API_BASE_URL @ RESOURCE_ID))
       = Inr [forecast_old, forecast_undated, forecast_new]
   \<and> Date_of (env_of upstream_undated) ''publishtime'' forecast_old = Some 1764153000000
   \<and> Date_of (env_of upstream_undated) ''publishtime'' forecast_undated = None
   \<and> Date_of (env_of upstream_undated) ''publishtime'' forecast_new = Some 1764174600000
   \<and> statusCode (res (huadong_air_forecast (env_of upstream_undated) cfg_17)) = 200
   \<and> body_field (huadong_air_forecast (env_of upstream_undated) cfg_17) ''status''
       = Some (JString ''success'')
   \<and> body_field (huadong_air_forecast (env_of upstream_undated) cfg_17) ''data''
       = Some (JArray [forecast_old, forecast_undated, forecast_new])
   \<and> body_field (getHuadongAirForecast (env_of upstream_undated) cfg_17) ''data''
       = Some (JArray [forecast_old, forecast_undated, forecast_new])
   \<and> body_field (huadong_air_forecast_004 (env_of upstream_undated) cfg_17) ''data''
       = Some (JArray [forecast_old, forecast_undated, forecast_new])"
proof -
  let ?e = "env_of upstream_undated"
  let ?all = "[forecast_old, forecast_undated, forecast_new]"
  have k: "API_KEY cfg_17 \<noteq> []"
    by (simp add: API_KEY_def cfg_17_def)
  have g: "get_records ?e [] req = Inr ?all" for req
    by (simp add: get_records_def env_of_def env_in_def upstream_undated_def data_records_def)
  have a: "get_field forecast_old ''area'' = Some TARGET_AREA"
    "get_field forecast_undated ''area'' = Some TARGET_AREA"
    "get_field forecast_new ''area'' = Some TARGET_AREA"
    by (simp_all add: get_field_def forecast_old_def forecast_undated_def forecast_new_def)
  have u: "Date_of ?e ''publishtime'' forecast_undated = None"
    by (simp add: Date_of_def get_field_def forecast_undated_def env_of_def env_in_def
        Date_parse_local_def moment_parse_def invalid_moment_def)
  have c: "SortCompare (by_publishtime_desc ?e) forecast_undated forecast_new = 0"
    "SortCompare (by_publishtime_desc ?e) forecast_old forecast_undated = 0"
    by (simp_all add: SortCompare_def by_publishtime_desc_def date_minus_def u
        publishtime_examples)
  have h: "huadongRecords ?e ?all = ?all"
    by (simp add: huadongRecords_def a Array_sort_def c)
  have "res (huadong_air_forecast ?e cfg_17)
          = forecast_success (MOENV_API_BASE_URL @ RESOURCE_CODE) 3 3 (JArray ?all)"
    using huadong_air_forecast_success [OF k g] by (simp add: h numeral_3_eq_3)
  moreover have "res (getHuadongAirForecast ?e cfg_17)
          = forecast_success (MOENV_API_BASE_URL @ RESOURCE_CODE) 3 3 (JArray ?all)"
    using getHuadongAirForecast_success [OF k g] by (simp add: h numeral_3_eq_3)
  moreover have "res (huadong_air_forecast_004 ?e cfg_17)
          = forecast_success (MOENV_API_BASE_URL @ RESOURCE_ID) 3 3 (JArray ?all)"
    using huadong_air_forecast_004_success [OF k g] by (simp add: h numeral_3_eq_3)
  ultimately show ?thesis
    using g u by (simp add: body_field_def forecast_success_def publishtime_examples)
qed

end
